(* ===== verification/Prelude.thy ===== *)
theory Prelude
  imports Complex_Main "HOL-Library.Multiset"
begin

text \<open>
  Shared vocabulary of the MovieDB development: the names of the model's basic types,
  the shape of an HTTP response as the Express handlers produce it, the collections of
  lemmas the component theories add to, and generic facts on association lists that
  every document collection of the model uses.
\<close>

section \<open>Basic types\<close>

text \<open>
  A MongoDB \<open>ObjectId\<close> is a 96-bit value; the model reads it as a natural number.
  Users are identified by their e-mail address (the \<open>user_id\<close> field of reviews and
  movie requests).  Dates created by \<open>new Date()\<close> are millisecond timestamps.
\<close>

type_synonym oid = nat
type_synonym email = string
type_synonym timestamp = nat

text \<open>
  What an Express handler sends: \<open>res.json(x)\<close> is \<open>Ok x\<close> (status 200),
  \<open>res.status(n).json({error: m})\<close> is \<open>Http_error n m\<close>, and a handler that catches
  an exception, only logs it and never calls \<open>res\<close> leaves the request without an answer:
  \<open>No_response\<close>.
\<close>

datatype 'a http_response = Ok 'a | Http_error nat string | No_response

text \<open>
  \<open>join_with sep ws\<close>: the words \<open>ws\<close> with \<open>sep\<close> between neighbours, JavaScript's
  \<open>ws.join(sep)\<close> and the shape a loop that appends \<open>sep\<close> after all but the last word builds.
\<close>

fun join_with :: "'a list \<Rightarrow> 'a list list \<Rightarrow> 'a list" where
  "join_with sep [] = []"
| "join_with sep [w] = w"
| "join_with sep (w # v # ws) = w @ sep @ join_with sep (v # ws)"

section \<open>Lemma collections\<close>

named_theorems coll_simps "evaluation rules of the document-store operations"
named_theorems handler_defs "definitions of the request handlers, unfolded by their proofs"

section \<open>Association lists keyed by document id\<close>

text \<open>
  A collection's documents are a list of pairs (id, document) in the store's natural
  order.  With distinct ids the list is a finite map; these facts let the component
  proofs move between the two views.
\<close>

lemma map_of_filter_in:
  "distinct (map fst xs) \<Longrightarrow> map_of xs k = Some v \<Longrightarrow> P k v \<Longrightarrow>
   map_of (filter (\<lambda>(i, d). P i d) xs) k = Some v"
  by (induction xs) (auto simp: split_beta)

lemma map_of_filter_out:
  assumes "map_of xs k = Some v" and "\<not> P k v" and "distinct (map fst xs)"
  shows "map_of (filter (\<lambda>(i, d). P i d) xs) k = None"
proof -
  have "w = v" if "(k, w) \<in> set xs" for w
    using assms(1,3) that map_of_is_SomeI by fastforce
  with assms(2) show ?thesis
    by (auto simp: map_of_eq_None_iff)
qed

lemma distinct_map_fst_filter [simp]:
  "distinct (map fst xs) \<Longrightarrow> distinct (map fst (filter P xs))"
  by (induction xs) (auto simp: image_iff)

lemma map_of_SomeD_set: "map_of xs k = Some v \<Longrightarrow> (k, v) \<in> set xs"
  by (rule map_of_SomeD)

lemma set_filter_pairs [simp]:
  "(k, v) \<in> set (filter (\<lambda>(i, d). P i d) xs) \<longleftrightarrow> (k, v) \<in> set xs \<and> P k v"
  by auto

lemma mset_filter_pairs_split:
  "mset xs = mset (filter (\<lambda>(i, d). P i d) xs) + mset (filter (\<lambda>(i, d). \<not> P i d) xs)"
  by (induction xs) auto

lemma let_pair_fst_snd: "(let (a, b) = X in (f a, b)) = (f (fst X), snd X)"
  by (simp add: case_prod_unfold)

lemma mem_map_fst: "j \<in> fst ` set xs \<longleftrightarrow> (\<exists>m. (j, m) \<in> set xs)"
  by (auto simp: image_iff) (metis fst_conv)

lemma filter_fst_notin: "i \<notin> fst ` set ds \<Longrightarrow> filter (\<lambda>(j, _). j \<noteq> i) ds = ds"
  by (induction ds) (auto simp: split_beta)

lemma tl_distinct_mem: "distinct ys \<Longrightarrow> j \<in> set (tl ys) \<longleftrightarrow> j \<in> set ys \<and> j \<noteq> hd ys"
  by (cases ys) auto

lemma tl_distinct_iff:
  assumes "distinct ys" and "j \<in> set ys \<longleftrightarrow> P" and "j \<in> set ys \<Longrightarrow> hd ys = h"
  shows "j \<in> set (tl ys) \<longleftrightarrow> P \<and> j \<noteq> h"
  using assms tl_distinct_mem [OF assms(1), of j] by blast

lemma tl_distinct_fst: "distinct (map fst xs) \<Longrightarrow> (j, m) \<in> set (tl xs) \<Longrightarrow> j \<noteq> fst (hd xs)"
  by (cases xs) force+

lemma remdups_single_eq: "length (remdups xs) = 1 \<Longrightarrow> x \<in> set xs \<Longrightarrow> y \<in> set xs \<Longrightarrow> x = y"
  by (metis One_nat_def card_1_singletonE length_remdups_card_conv singletonD)

lemma length_filter_tl_le: "\<forall>x \<in> set (tl xs). \<not> P x \<Longrightarrow> length (filter P xs) \<le> 1"
  by (cases xs) (auto simp: filter_empty_conv)

lemma length_map_filter_le: "length (List.map_filter f xs) \<le> length xs"
  by (simp add: List.map_filter_def)

section \<open>Joined lists\<close>

lemma concat_sep_join:
  "concat (map (\<lambda>x. g x @ sep) xs) @ g y = join_with sep (map g (xs @ [y]))"
  by (induction xs rule: induct_list012) simp_all

lemma map_of_zip_map_values: "map_of (zip ks (map f vs)) k = map_option f (map_of (zip ks vs) k)"
proof (induction ks arbitrary: vs)
  case (Cons k' ks)
  then show ?case
    by (cases vs) auto
qed simp

lemma join_with_Cons: "ws \<noteq> [] \<Longrightarrow> join_with sep (w # ws) = w @ sep @ join_with sep ws"
  by (cases ws) simp_all

lemma set_join_with: "set (join_with sep ws) \<subseteq> set sep \<union> \<Union> (set ` set ws)"
  by (induction sep ws rule: join_with.induct) auto

lemma join_with_snoc: "ws \<noteq> [] \<Longrightarrow> join_with sep (ws @ [w]) = join_with sep ws @ sep @ w"
  by (induction ws rule: induct_list012) simp_all

lemma map_nth_zip:
  "length fs = length ks \<Longrightarrow>
   map (\<lambda>i. f (ks ! i) (fs ! i)) [0..<length ks] = map (\<lambda>(k, v). f k v) (zip ks fs)"
  by (rule nth_equalityI) simp_all

lemma map_of_zip_notin: "k \<notin> set ks \<Longrightarrow> map_of (zip ks vs) k = None"
proof (induction ks arbitrary: vs)
  case (Cons a ks)
  then show ?case
    by (cases vs) auto
qed simp

end
