(* ===== verification/JS.thy ===== *)
theory JS
  imports Prelude
begin

text \<open>
  The JavaScript built-ins the MovieDB sources call, written after the ECMAScript
  specification: \<open>parseInt\<close> (with and without a radix), \<open>parseFloat\<close>, the
  conversion \<open>Number(string)\<close>, \<open>String.prototype.split\<close> with a one-character
  separator, \<open>String(n)\<close> for integers, and the \<open>Date\<close> constructor on three numeric
  arguments.  They are the environment of the model, not code of the repository.
  A JS number that is \<open>NaN\<close> is \<open>None\<close>; numbers are rationals (the literals the
  program parses are decimal).  Two simplifications: the literals \<open>Infinity\<close> and the
  \<open>0x\<close>/\<open>0o\<close>/\<open>0b\<close> forms are read by \<open>Number\<close> and \<open>parseFloat\<close> as \<open>NaN\<close>, and
  white space is the ASCII white space (space, tab, line feed, vertical tab, form feed,
  carriage return).
\<close>

section \<open>Characters and digits\<close>

definition js_ws :: "char \<Rightarrow> bool" where
  "js_ws c \<longleftrightarrow> of_char c \<in> {32, 9, 10, 11, 12, (13::nat)}"

definition is_digit :: "char \<Rightarrow> bool" where
  "is_digit c \<longleftrightarrow> (48::nat) \<le> of_char c \<and> (of_char c :: nat) \<le> 57"

text \<open>The value of a character as a digit in radix \<open>r\<close> (2 to 36), as \<open>parseInt\<close> reads it.\<close>

definition digit_value :: "nat \<Rightarrow> char \<Rightarrow> nat option" where
  "digit_value r c =
     (let n = (of_char c :: nat);
          v = (if 48 \<le> n \<and> n \<le> 57 then n - 48
               else if 97 \<le> n \<and> n \<le> 122 then n - 87
               else if 65 \<le> n \<and> n \<le> 90 then n - 55 else 36)
      in if v < r then Some v else None)"

fun digits_prefix :: "nat \<Rightarrow> string \<Rightarrow> nat list" where
  "digits_prefix r [] = []"
| "digits_prefix r (c # cs) =
     (case digit_value r c of None \<Rightarrow> [] | Some v \<Rightarrow> v # digits_prefix r cs)"

definition radix_value :: "nat \<Rightarrow> nat list \<Rightarrow> nat" where
  "radix_value r ds = foldl (\<lambda>n d. r * n + d) 0 ds"

section \<open>parseInt\<close>

text \<open>
  \<open>parseInt(s, R)\<close> (ECMAScript 19.2.5): skip leading white space, read a sign, with
  radix 0 (absent) or 16 drop a \<open>0x\<close>/\<open>0X\<close> prefix and use radix 16, read the longest
  prefix of digits; no digit at all is \<open>NaN\<close>.
\<close>

definition strip_sign :: "string \<Rightarrow> int \<times> string" where
  "strip_sign s =
     (if s \<noteq> [] \<and> hd s = CHR ''-'' then (-1, tl s)
      else if s \<noteq> [] \<and> hd s = CHR ''+'' then (1, tl s)
      else (1, s))"

definition strip_radix_prefix :: "nat \<Rightarrow> string \<Rightarrow> nat \<times> string" where
  "strip_radix_prefix R s =
     (if R = 0 \<or> R = 16 then
        (if take 2 s = ''0x'' \<or> take 2 s = ''0X'' then (16, drop 2 s)
         else (if R = 0 then 10 else 16, s))
      else (R, s))"

definition js_parseInt_radix :: "nat \<Rightarrow> string \<Rightarrow> int option" where
  "js_parseInt_radix R0 str =
     (let S0 = dropWhile js_ws str;
          sign = fst (strip_sign S0);
          R = fst (strip_radix_prefix R0 (snd (strip_sign S0)));
          Z = digits_prefix R (snd (strip_radix_prefix R0 (snd (strip_sign S0))))
      in if R < 2 \<or> 36 < R \<or> Z = [] then None else Some (sign * int (radix_value R Z)))"

abbreviation js_parseInt :: "string \<Rightarrow> int option" where
  "js_parseInt \<equiv> js_parseInt_radix 0"

section \<open>Decimal literals: parseFloat and Number\<close>

text \<open>
  The longest prefix of a string that is a decimal literal
  \<open>digits [. digits] [(e|E) [sign] digits]\<close> with at least one mantissa digit, its value
  and the rest of the string.
\<close>

definition digits_nat :: "string \<Rightarrow> nat" where
  "digits_nat ds = radix_value 10 (map (\<lambda>c. of_char c - 48) ds)"

definition scale10 :: "rat \<Rightarrow> int \<Rightarrow> rat" where
  "scale10 x e = (if 0 \<le> e then x * 10 ^ nat e else x / 10 ^ nat (- e))"

definition exponent_part :: "string \<Rightarrow> int \<times> string" where
  "exponent_part s =
     (if s \<noteq> [] \<and> (hd s = CHR ''e'' \<or> hd s = CHR ''E'') then
        (let sg = strip_sign (tl s); ds = takeWhile is_digit (snd sg)
         in if ds = [] then (0, s) else (fst sg * int (digits_nat ds), dropWhile is_digit (snd sg)))
      else (0, s))"

definition dec_literal :: "string \<Rightarrow> (rat \<times> string) option" where
  "dec_literal s =
     (let ip = takeWhile is_digit s; r1 = dropWhile is_digit s;
          fp = (if r1 \<noteq> [] \<and> hd r1 = CHR ''.'' then takeWhile is_digit (tl r1) else []);
          r2 = (if r1 \<noteq> [] \<and> hd r1 = CHR ''.'' \<and> (ip \<noteq> [] \<or> fp \<noteq> [])
                then dropWhile is_digit (tl r1) else r1);
          ex = exponent_part r2
      in if ip = [] \<and> fp = [] then None
         else Some (scale10 (of_nat (digits_nat (ip @ fp))) (fst ex - int (length fp)), snd ex))"

definition js_parseFloat :: "string \<Rightarrow> rat option" where
  "js_parseFloat str =
     (let sg = strip_sign (dropWhile js_ws str)
      in map_option (\<lambda>(v, _). of_int (fst sg) * v) (dec_literal (snd sg)))"

definition js_Number :: "string \<Rightarrow> rat option" where
  "js_Number str =
     (let t = rev (dropWhile js_ws (rev (dropWhile js_ws str))); sg = strip_sign t
      in if t = [] then Some 0
         else case dec_literal (snd sg) of
                Some (v, rest) \<Rightarrow> if rest = [] then Some (of_int (fst sg) * v) else None
              | None \<Rightarrow> None)"

section \<open>Strings\<close>

text \<open>\<open>s.split(c)\<close> for a one-character separator: \<open>"".split("-")\<close> is \<open>[""]\<close>.\<close>

fun split_on :: "char \<Rightarrow> string \<Rightarrow> string list" where
  "split_on c [] = [[]]"
| "split_on c (x # xs) =
     (if x = c then [] # split_on c xs
      else (case split_on c xs of [] \<Rightarrow> [[x]] | w # ws \<Rightarrow> (x # w) # ws))"

text \<open>\<open>arr[i]\<close>: \<open>undefined\<close> (here \<open>None\<close>) beyond the end.\<close>

definition js_index :: "'a list \<Rightarrow> nat \<Rightarrow> 'a option" where
  "js_index xs i = (if i < length xs then Some (xs ! i) else None)"

definition digit_char :: "nat \<Rightarrow> char" where
  "digit_char d = ''0123456789'' ! d"

fun string_of_nat :: "nat \<Rightarrow> string" where
  "string_of_nat n =
     (if n < 10 then [digit_char n]
      else string_of_nat (n div 10) @ [digit_char (n mod 10)])"

definition string_of_int :: "int \<Rightarrow> string" where
  "string_of_int i = (if i < 0 then CHR ''-'' # string_of_nat (nat (- i)) else string_of_nat (nat i))"

section \<open>Dates\<close>

text \<open>
  \<open>new Date(y, m, d)\<close>: any \<open>NaN\<close> argument gives an invalid date; otherwise the date
  denoted by the integer parts of the arguments.  The model keeps the three integers;
  the calendar arithmetic that normalises them is not needed by any property.
\<close>

datatype js_date = Date_ymd int int int | Invalid_Date

text \<open>\<open>ToIntegerOrInfinity\<close> of a finite number truncates towards zero.\<close>

definition js_trunc :: "rat \<Rightarrow> int" where
  "js_trunc x = (if x < 0 then - \<lfloor>- x\<rfloor> else \<lfloor>x\<rfloor>)"

definition new_Date3 :: "rat option \<Rightarrow> rat option \<Rightarrow> rat option \<Rightarrow> js_date" where
  "new_Date3 y m d =
     (case (y, m, d) of
        (Some y', Some m', Some d') \<Rightarrow> Date_ymd (js_trunc y') (js_trunc m') (js_trunc d')
      | _ \<Rightarrow> Invalid_Date)"

text \<open>
  A \<open>Date\<close> stored in MongoDB: the driver's BSON serialiser writes its time value as a 64-bit
  integer made by \<open>Long.fromNumber\<close>, which maps \<open>NaN\<close> to 0, so an Invalid Date is stored,
  and read back, as the epoch 1970-01-01T00:00:00.000Z (month 0 is January).
\<close>

definition bson_date :: "js_date \<Rightarrow> js_date" where
  "bson_date d = (case d of Invalid_Date \<Rightarrow> Date_ymd 1970 0 1 | _ \<Rightarrow> d)"

lemma bson_date_ymd [simp]: "bson_date (Date_ymd y m d) = Date_ymd y m d"
  by (simp add: bson_date_def)

lemma bson_date_valid [simp]: "bson_date d \<noteq> Invalid_Date"
  by (simp add: bson_date_def split: js_date.split)

text \<open>\<open>ToNumber\<close> of an array element that may be \<open>undefined\<close> (which is \<open>NaN\<close>).\<close>

definition js_Number_opt :: "string option \<Rightarrow> rat option" where
  "js_Number_opt s = (case s of None \<Rightarrow> None | Some t \<Rightarrow> js_Number t)"

section \<open>Optional arguments and case\<close>

text \<open>\<open>parseInt\<close>/\<open>parseFloat\<close> of an array element that may be \<open>undefined\<close> (\<open>NaN\<close>).\<close>

definition js_parseInt_opt :: "string option \<Rightarrow> int option" where
  "js_parseInt_opt s = (case s of None \<Rightarrow> None | Some t \<Rightarrow> js_parseInt t)"

definition js_parseFloat_opt :: "string option \<Rightarrow> rat option" where
  "js_parseFloat_opt s = (case s of None \<Rightarrow> None | Some t \<Rightarrow> js_parseFloat t)"

text \<open>ASCII lower case, as the text index folds case for the letters the titles use.\<close>

definition ascii_lower :: "char \<Rightarrow> char" where
  "ascii_lower c =
     (case map_of (zip ''ABCDEFGHIJKLMNOPQRSTUVWXYZ'' ''abcdefghijklmnopqrstuvwxyz'') c of
        Some l \<Rightarrow> l | None \<Rightarrow> c)"

section \<open>Lemmas\<close>

text \<open>
  The definitions above evaluate by \<open>simp\<close> on literals once these are unfolded;
  \<open>string_of_nat\<close> is unfolded one step at a time by \<open>string_of_nat_unfold\<close>.
\<close>

lemmas js_eval = js_ws_def is_digit_def strip_sign_def radix_value_def digits_nat_def scale10_def
  exponent_part_def dec_literal_def js_parseFloat_def js_Number_def js_parseInt_radix_def
  strip_radix_prefix_def digit_value_def js_index_def js_Number_opt_def js_parseInt_opt_def
  js_parseFloat_opt_def new_Date3_def js_trunc_def

lemma string_of_nat_unfold:
  "string_of_nat n =
     (if n < 10 then [digit_char n] else string_of_nat (n div 10) @ [digit_char (n mod 10)])"
  by (rule string_of_nat.simps)

declare string_of_nat.simps [simp del]

lemma digits_prefix_valid:
  "(\<forall>c\<in>set s. digit_value r c \<noteq> None) \<Longrightarrow> digits_prefix r s = map (the \<circ> digit_value r) s"
  by (induction s) (auto split: option.splits)

lemma radix_value_snoc: "radix_value r (ds @ [d]) = r * radix_value r ds + d"
  by (simp add: radix_value_def)

lemma digit_value_digit_char: "d < 10 \<Longrightarrow> digit_value 10 (digit_char d) = Some d"
  by (auto simp: less_Suc_eq numeral_eq_Suc digit_char_def digit_value_def)

lemma digit_char_not_special:
  "d < 10 \<Longrightarrow> \<not> js_ws (digit_char d) \<and> digit_char d \<noteq> CHR ''-'' \<and> digit_char d \<noteq> CHR ''+''
     \<and> digit_char d \<noteq> CHR ''x'' \<and> digit_char d \<noteq> CHR ''X''"
  by (auto simp: less_Suc_eq numeral_eq_Suc digit_char_def js_ws_def)

lemma string_of_nat_digits: "c \<in> set (string_of_nat n) \<Longrightarrow> \<exists>d<10. c = digit_char d"
proof (induction n rule: string_of_nat.induct)
  case (1 n)
  show ?case
  proof (cases "n < 10")
    case True
    with "1.prems" show ?thesis
      by (subst (asm) string_of_nat_unfold) auto
  next
    case False
    with "1.prems" have "c \<in> set (string_of_nat (n div 10)) \<or> c = digit_char (n mod 10)"
      by (subst (asm) string_of_nat_unfold) auto
    then show ?thesis
      using "1.IH" False by (metis mod_less_divisor zero_less_numeral)
  qed
qed

lemma radix_value_string_of_nat: "radix_value 10 (map (the \<circ> digit_value 10) (string_of_nat n)) = n"
proof (induction n rule: string_of_nat.induct)
  case (1 n)
  then show ?case
    by (subst string_of_nat_unfold) (simp add: digit_value_digit_char radix_value_snoc radix_value_def comp_def)
qed

lemma digits_prefix_string_of_nat:
  "digits_prefix 10 (string_of_nat n) = map (the \<circ> digit_value 10) (string_of_nat n)"
proof (rule digits_prefix_valid)
  show "\<forall>c\<in>set (string_of_nat n). digit_value 10 c \<noteq> None"
    using string_of_nat_digits digit_value_digit_char by fastforce
qed

lemma string_of_nat_nonempty [simp]: "string_of_nat n \<noteq> []"
  by (subst string_of_nat_unfold) simp

lemma string_of_nat_char:
  assumes "c \<in> set (string_of_nat n)"
  shows "\<not> js_ws c \<and> c \<noteq> CHR ''-'' \<and> c \<noteq> CHR ''+'' \<and> c \<noteq> CHR ''x'' \<and> c \<noteq> CHR ''X''"
proof -
  obtain d where d: "d < 10" "c = digit_char d"
    using string_of_nat_digits [OF assms] by blast
  show ?thesis
    unfolding d(2) by (rule digit_char_not_special [OF d(1)])
qed

lemma dropWhile_hd: "xs \<noteq> [] \<Longrightarrow> \<not> P (hd xs) \<Longrightarrow> dropWhile P xs = xs"
  by (cases xs) auto

lemma string_of_nat_no_hex_prefix:
  "take 2 (string_of_nat n) \<noteq> ''0x'' \<and> take 2 (string_of_nat n) \<noteq> ''0X''"
proof -
  have "c \<notin> set (take 2 (string_of_nat n))" if "c = CHR ''x'' \<or> c = CHR ''X''" for c
  proof
    assume "c \<in> set (take 2 (string_of_nat n))"
    from string_of_nat_char [OF in_set_takeD [OF this]] that show False
      by auto
  qed
  then have "CHR ''x'' \<notin> set (take 2 (string_of_nat n))" "CHR ''X'' \<notin> set (take 2 (string_of_nat n))"
    by simp_all
  then show ?thesis
    by (metis list.set_intros(1) list.set_intros(2))
qed

lemma string_of_nat_plain:
  "dropWhile js_ws (string_of_nat n) = string_of_nat n \<and> strip_sign (string_of_nat n) = (1, string_of_nat n)
   \<and> strip_radix_prefix 0 (string_of_nat n) = (10, string_of_nat n)"
proof -
  have "\<not> js_ws (hd (string_of_nat n)) \<and> hd (string_of_nat n) \<noteq> CHR ''-'' \<and> hd (string_of_nat n) \<noteq> CHR ''+''"
    using string_of_nat_char [OF hd_in_set [OF string_of_nat_nonempty]] by simp
  with string_of_nat_no_hex_prefix [of n] show ?thesis
    by (simp add: dropWhile_hd strip_sign_def strip_radix_prefix_def)
qed

lemma js_parseInt_string_of_nat: "js_parseInt (string_of_nat n) = Some (int n)"
  using string_of_nat_plain [of n]
  by (simp add: js_parseInt_radix_def Let_def digits_prefix_string_of_nat radix_value_string_of_nat)

lemma js_parseInt_minus_string_of_nat: "js_parseInt (CHR ''-'' # string_of_nat n) = Some (- int n)"
proof -
  have "dropWhile js_ws (CHR ''-'' # string_of_nat n) = CHR ''-'' # string_of_nat n"
    by (simp add: js_ws_def)
  moreover have "strip_sign (CHR ''-'' # string_of_nat n) = (-1, string_of_nat n)"
    by (simp add: strip_sign_def)
  ultimately show ?thesis
    using string_of_nat_plain [of n]
    by (simp add: js_parseInt_radix_def Let_def digits_prefix_string_of_nat radix_value_string_of_nat)
qed

lemma js_parseInt_string_of_int: "js_parseInt (string_of_int i) = Some i"
  by (simp add: string_of_int_def js_parseInt_string_of_nat js_parseInt_minus_string_of_nat)

lemma digit_char_is_digit: "d < 10 \<Longrightarrow> is_digit (digit_char d)"
  by (auto simp: less_Suc_eq numeral_eq_Suc digit_char_def is_digit_def)

lemma string_of_int_chars: "c \<in> set (string_of_int i) \<Longrightarrow> c = CHR ''-'' \<or> is_digit c"
proof -
  have nat_case: "c \<in> set (string_of_nat n) \<Longrightarrow> is_digit c" for n
  proof -
    assume "c \<in> set (string_of_nat n)"
    then obtain d where "d < 10" "c = digit_char d"
      using string_of_nat_digits by blast
    then show ?thesis
      using digit_char_is_digit by simp
  qed
  assume "c \<in> set (string_of_int i)"
  then show ?thesis
    unfolding string_of_int_def by (auto split: if_splits dest: nat_case)
qed

lemma string_of_int_nonempty [simp]: "string_of_int i \<noteq> []"
  by (simp add: string_of_int_def)

lemma string_of_int_no_sep:
  "c \<in> set (string_of_int i) \<Longrightarrow>
   c \<noteq> CHR ''&'' \<and> c \<noteq> CHR ''+'' \<and> c \<noteq> CHR ''='' \<and> c \<noteq> CHR ''/'' \<and> c \<noteq> CHR ''?''
   \<and> c \<noteq> CHR ''#'' \<and> c \<noteq> CHR ''%''"
  by (drule string_of_int_chars) (auto simp: is_digit_def)

lemma js_parseInt_10_string_of_int: "js_parseInt_radix 10 (string_of_int i) = Some i"
proof -
  have nat: "js_parseInt_radix 10 (string_of_nat n) = Some (int n)" for n
    using string_of_nat_plain [of n]
    by (simp add: js_parseInt_radix_def Let_def strip_radix_prefix_def digits_prefix_string_of_nat
        radix_value_string_of_nat)
  have "dropWhile js_ws (CHR ''-'' # string_of_nat n) = CHR ''-'' # string_of_nat n"
    and "strip_sign (CHR ''-'' # string_of_nat n) = (-1, string_of_nat n)" for n
    by (simp_all add: js_ws_def strip_sign_def)
  then have neg: "js_parseInt_radix 10 (CHR ''-'' # string_of_nat n) = Some (- int n)" for n
    by (simp add: js_parseInt_radix_def Let_def strip_radix_prefix_def digits_prefix_string_of_nat
        radix_value_string_of_nat)
  show ?thesis
    by (simp add: string_of_int_def nat neg)
qed

lemma split_on_no_sep: "c \<notin> set w \<Longrightarrow> split_on c w = [w]"
  by (induction w) auto

lemma split_on_sep: "c \<notin> set w \<Longrightarrow> split_on c (w @ c # rest) = w # split_on c rest"
proof (induction w)
  case (Cons x w)
  then show ?case
    by (cases "split_on c (w @ c # rest)") auto
qed simp

lemma split_on_join:
  "ws \<noteq> [] \<Longrightarrow> \<forall>w \<in> set ws. c \<notin> set w \<Longrightarrow> split_on c (join_with [c] ws) = ws"
  by (induction ws rule: induct_list012) (simp_all add: split_on_no_sep split_on_sep)

end
