(* ===== verification/Store.thy ===== *)
theory Store
  imports JS
begin

text \<open>
  The MongoDB driver as the DAOs use it: a collection is the list of its documents in
  natural (insertion) order, each with its \<open>_id\<close>, and a counter that supplies fresh
  ids.  A query filter is a predicate on id and document.  \<open>insertOne\<close>, \<open>updateOne\<close>
  and \<open>deleteOne\<close> return the counters of the driver's result objects
  (\<open>insertedCount\<close>, \<open>matchedCount\<close>/\<open>modifiedCount\<close>, \<open>deletedCount\<close>);
  \<open>updateOne\<close> counts a document as modified only when the update changes it, as the
  server does.  \<open>ObjectId(s)\<close> accepts a 12-byte string or a string of 24 hex digits
  and throws otherwise.  This is the environment of the model; the server's own failures
  (lost connection, timeouts) are not modelled.
\<close>

section \<open>Collections\<close>

record 'd coll =
  docs :: "(oid \<times> 'd) list"
  next_oid :: oid

definition empty_coll :: "'d coll" where
  "empty_coll = \<lparr>docs = [], next_oid = 0\<rparr>"

text \<open>Well-formed: ids are distinct and below the next fresh id.\<close>

definition coll_wf :: "'d coll \<Rightarrow> bool" where
  "coll_wf c \<longleftrightarrow> distinct (map fst (docs c)) \<and> list_all (\<lambda>i. i < next_oid c) (map fst (docs c))"

text \<open>The finite map a collection denotes: the abstraction used by the refinement lemmas.\<close>

abbreviation coll_map :: "'d coll \<Rightarrow> oid \<rightharpoonup> 'd" where
  "coll_map c \<equiv> map_of (docs c)"

section \<open>Driver results and errors\<close>

record insert_result =
  insertedCount :: nat
  insertedId :: oid

record update_result =
  matchedCount :: nat
  modifiedCount :: nat

record delete_result =
  deletedCount :: nat

text \<open>The one error the DAOs' inputs can provoke: \<open>ObjectId\<close> of a malformed string.\<close>

datatype db_error = BSONTypeError

section \<open>Operations\<close>

definition insertOne :: "'d \<Rightarrow> 'd coll \<Rightarrow> insert_result \<times> 'd coll" where
  "insertOne d c =
     (\<lparr>insertedCount = 1, insertedId = next_oid c\<rparr>,
      c\<lparr>docs := docs c @ [(next_oid c, d)], next_oid := Suc (next_oid c)\<rparr>)"

definition find_coll :: "(oid \<Rightarrow> 'd \<Rightarrow> bool) \<Rightarrow> 'd coll \<Rightarrow> (oid \<times> 'd) list" where
  "find_coll p c = filter (\<lambda>(i, d). p i d) (docs c)"

fun upd_first :: "(oid \<Rightarrow> 'd \<Rightarrow> bool) \<Rightarrow> ('d \<Rightarrow> 'd) \<Rightarrow> (oid \<times> 'd) list \<Rightarrow> (oid \<times> 'd) list" where
  "upd_first p u [] = []"
| "upd_first p u ((i, d) # ds) = (if p i d then (i, u d) # ds else (i, d) # upd_first p u ds)"

fun del_first :: "(oid \<Rightarrow> 'd \<Rightarrow> bool) \<Rightarrow> (oid \<times> 'd) list \<Rightarrow> (oid \<times> 'd) list" where
  "del_first p [] = []"
| "del_first p ((i, d) # ds) = (if p i d then ds else (i, d) # del_first p ds)"

definition updateOne ::
  "(oid \<Rightarrow> 'd \<Rightarrow> bool) \<Rightarrow> ('d \<Rightarrow> 'd) \<Rightarrow> 'd coll \<Rightarrow> update_result \<times> 'd coll" where
  "updateOne p u c =
     (case List.find (\<lambda>(i, d). p i d) (docs c) of
        None \<Rightarrow> (\<lparr>matchedCount = 0, modifiedCount = 0\<rparr>, c)
      | Some (i, d) \<Rightarrow>
          (\<lparr>matchedCount = 1, modifiedCount = (if u d = d then 0 else 1)\<rparr>,
           c\<lparr>docs := upd_first p u (docs c)\<rparr>))"

definition deleteOne :: "(oid \<Rightarrow> 'd \<Rightarrow> bool) \<Rightarrow> 'd coll \<Rightarrow> delete_result \<times> 'd coll" where
  "deleteOne p c =
     (case List.find (\<lambda>(i, d). p i d) (docs c) of
        None \<Rightarrow> (\<lparr>deletedCount = 0\<rparr>, c)
      | Some _ \<Rightarrow> (\<lparr>deletedCount = 1\<rparr>, c\<lparr>docs := del_first p (docs c)\<rparr>))"

section \<open>ObjectId\<close>

definition hex_digits_value :: "string \<Rightarrow> nat option" where
  "hex_digits_value s =
     (let ds = digits_prefix 16 s in if length ds = length s then Some (radix_value 16 ds) else None)"

definition object_id :: "string \<Rightarrow> oid option" where
  "object_id s =
     (if length s = 12 then Some (radix_value 256 (map of_char s))
      else if length s = 24 then hex_digits_value s
      else None)"

text \<open>
  \<open>ObjectId(x)\<close> receives either a string from a request or an id already read from the
  database (\<open>review.movie_id\<close>, \<open>movie._id\<close>); the latter is taken as it is.
\<close>

datatype id_arg = IdStr string | IdObj oid

definition to_object_id :: "id_arg \<Rightarrow> oid option" where
  "to_object_id x = (case x of IdStr s \<Rightarrow> object_id s | IdObj i \<Rightarrow> Some i)"

lemma to_object_id_simps [simp]:
  "to_object_id (IdObj i) = Some i" "to_object_id (IdStr s) = object_id s"
  by (simp_all add: to_object_id_def)

section \<open>Filters on one id\<close>

text \<open>
  Every update and delete of the DAOs filters on \<open>_id\<close> (and possibly more): at most
  the document with that id matches.  For such filters the list operations reduce to
  updates of the denoted map.
\<close>

definition key_filter :: "(oid \<Rightarrow> 'd \<Rightarrow> bool) \<Rightarrow> oid \<Rightarrow> bool" where
  "key_filter p k \<longleftrightarrow> (\<forall>i d. p i d \<longrightarrow> i = k)"

lemma key_filter_conj [simp]:
  "key_filter (\<lambda>i d. i = k \<and> q d) k" "key_filter (\<lambda>i d. q d \<and> i = k) k"
  "key_filter (\<lambda>i d. i = k) k"
  by (auto simp: key_filter_def)

lemma find_key_hit:
  assumes "distinct (map fst ds)" "key_filter p k" "map_of ds k = Some d" "p k d"
  shows "List.find (\<lambda>(i, e). p i e) ds = Some (k, d)"
  using assms
proof (induction ds)
  case Nil
  then show ?case by simp
next
  case (Cons x ds)
  obtain i e where x: "x = (i, e)" by fastforce
  show ?case
  proof (cases "i = k")
    case True
    with Cons.prems x show ?thesis by simp
  next
    case False
    with Cons.prems x have "\<not> p i e" by (auto simp: key_filter_def)
    with Cons x False show ?thesis by simp
  qed
qed

lemma find_key_miss:
  assumes "key_filter p k" "\<forall>d. map_of ds k = Some d \<longrightarrow> \<not> p k d" "distinct (map fst ds)"
  shows "List.find (\<lambda>(i, e). p i e) ds = None"
proof -
  have "\<not> p i e" if "(i, e) \<in> set ds" for i e
  proof
    assume "p i e"
    with assms(1) have "i = k" by (auto simp: key_filter_def)
    with that assms(3) have "map_of ds k = Some e" by (auto intro: map_of_is_SomeI)
    with assms(2) \<open>p i e\<close> \<open>i = k\<close> show False by simp
  qed
  then show ?thesis by (auto simp: find_None_iff)
qed

lemma upd_first_key:
  assumes "distinct (map fst ds)" "key_filter p k" "map_of ds k = Some d" "p k d"
  shows "map_of (upd_first p u ds) = (map_of ds)(k \<mapsto> u d)"
  using assms
proof (induction ds)
  case Nil
  then show ?case by simp
next
  case (Cons x ds)
  obtain i e where x: "x = (i, e)" by fastforce
  show ?case
  proof (cases "i = k")
    case True
    with Cons.prems x show ?thesis by (auto simp: fun_eq_iff)
  next
    case False
    with Cons.prems x have "\<not> p i e" "map_of ds k = Some d" by (auto simp: key_filter_def)
    with Cons.IH Cons.prems x False show ?thesis by (auto simp: fun_eq_iff)
  qed
qed

lemma upd_first_keys [simp]: "map fst (upd_first p u ds) = map fst ds"
  by (induction p u ds rule: upd_first.induct) auto

lemma del_first_key:
  assumes "distinct (map fst ds)" "key_filter p k" "map_of ds k = Some d" "p k d"
  shows "map_of (del_first p ds) = (map_of ds)(k := None)"
  using assms
proof (induction ds)
  case Nil
  then show ?case by simp
next
  case (Cons x ds)
  obtain i e where x: "x = (i, e)" by fastforce
  show ?case
  proof (cases "i = k")
    case True
    with Cons.prems x show ?thesis by (auto simp: fun_eq_iff map_of_eq_None_iff)
  next
    case False
    with Cons.prems x have "\<not> p i e" "map_of ds k = Some d" by (auto simp: key_filter_def)
    with Cons.IH Cons.prems x False show ?thesis by (auto simp: fun_eq_iff)
  qed
qed

lemma del_first_subset: "set (del_first p ds) \<subseteq> set ds"
  by (induction p ds rule: del_first.induct) auto

lemma distinct_del_first:
  "distinct (map fst ds) \<Longrightarrow> distinct (map fst (del_first p ds))"
proof (induction p ds rule: del_first.induct)
  case (2 p i d ds)
  then show ?case using del_first_subset [of p ds] by force
qed simp

lemma updateOne_hit [coll_simps]:
  assumes "coll_wf c" "key_filter p k" "coll_map c k = Some d" "p k d"
  shows "updateOne p u c =
           (\<lparr>matchedCount = 1, modifiedCount = (if u d = d then 0 else 1)\<rparr>,
            c\<lparr>docs := upd_first p u (docs c)\<rparr>)"
  using assms find_key_hit [of "docs c" p k d] by (simp add: updateOne_def coll_wf_def)

lemma updateOne_miss [coll_simps]:
  assumes "coll_wf c" "key_filter p k" "\<forall>d. coll_map c k = Some d \<longrightarrow> \<not> p k d"
  shows "updateOne p u c = (\<lparr>matchedCount = 0, modifiedCount = 0\<rparr>, c)"
  using assms find_key_miss [of p k "docs c"] by (simp add: updateOne_def coll_wf_def)

lemma deleteOne_hit [coll_simps]:
  assumes "coll_wf c" "key_filter p k" "coll_map c k = Some d" "p k d"
  shows "deleteOne p c = (\<lparr>deletedCount = 1\<rparr>, c\<lparr>docs := del_first p (docs c)\<rparr>)"
  using assms find_key_hit [of "docs c" p k d] by (simp add: deleteOne_def coll_wf_def)

lemma deleteOne_miss [coll_simps]:
  assumes "coll_wf c" "key_filter p k" "\<forall>d. coll_map c k = Some d \<longrightarrow> \<not> p k d"
  shows "deleteOne p c = (\<lparr>deletedCount = 0\<rparr>, c)"
  using assms find_key_miss [of p k "docs c"] by (simp add: deleteOne_def coll_wf_def)

text \<open>Deleting by id alone, as \<open>deleteDuplicateMovies\<close> does, is a filter on the id.\<close>

lemma del_first_id:
  "distinct (map fst ds) \<Longrightarrow> del_first (\<lambda>j _. j = i) ds = filter (\<lambda>(j, _). j \<noteq> i) ds"
  by (induction ds) (auto simp: split_beta filter_fst_notin)

lemma deleteOne_id:
  assumes "distinct (map fst (docs c))"
  shows "deleteOne (\<lambda>j _. j = i) c =
           (\<lparr>deletedCount = (if i \<in> fst ` set (docs c) then 1 else 0)\<rparr>,
            c\<lparr>docs := filter (\<lambda>(j, _). j \<noteq> i) (docs c)\<rparr>)"
proof (cases "i \<in> fst ` set (docs c)")
  case True
  then have "List.find (\<lambda>(j, d). j = i) (docs c) \<noteq> None"
    by (auto simp: find_None_iff)
  with True assms show ?thesis
    by (auto simp: deleteOne_def del_first_id split: option.split)
next
  case False
  then have "List.find (\<lambda>(j, d). j = i) (docs c) = None" "filter (\<lambda>(j, _). j \<noteq> i) (docs c) = docs c"
    by (force simp: find_None_iff filter_fst_notin)+
  with False show ?thesis
    by (simp add: deleteOne_def)
qed

section \<open>Well-formedness is kept\<close>

lemma coll_wf_iff:
  "coll_wf c \<longleftrightarrow> distinct (map fst (docs c)) \<and> (\<forall>(i, d) \<in> set (docs c). i < next_oid c)"
  by (auto simp: coll_wf_def list_all_iff)

lemma coll_wf_empty [simp]: "coll_wf empty_coll"
  by (simp add: coll_wf_def empty_coll_def)

lemma coll_wf_insertOne: "coll_wf c \<Longrightarrow> coll_wf (snd (insertOne d c))"
  by (fastforce simp: coll_wf_iff insertOne_def)

lemma fst_set_upd_first [simp]: "fst ` set (upd_first p u ds) = fst ` set ds"
  by (induction p u ds rule: upd_first.induct) auto

lemma coll_wf_updateOne: "coll_wf c \<Longrightarrow> coll_wf (snd (updateOne p u c))"
  by (simp add: coll_wf_def updateOne_def split: option.splits)

lemma coll_wf_deleteOne: "coll_wf c \<Longrightarrow> coll_wf (snd (deleteOne p c))"
  using del_first_subset [of p "docs c"] distinct_del_first [of "docs c" p]
  by (fastforce simp: coll_wf_iff deleteOne_def split: option.splits)

lemmas coll_wf_ops [intro] = coll_wf_insertOne coll_wf_updateOne coll_wf_deleteOne

lemma insertOne_result [simp]:
  "insertedCount (fst (insertOne d c)) = 1" "insertedId (fst (insertOne d c)) = next_oid c"
  "next_oid (snd (insertOne d c)) = Suc (next_oid c)"
  by (simp_all add: insertOne_def)

lemma coll_map_insertOne [simp]:
  assumes "coll_wf c"
  shows "coll_map (snd (insertOne d c)) = (coll_map c)(next_oid c \<mapsto> d)"
proof -
  from assms have "coll_map c (next_oid c) = None"
    by (auto simp: coll_wf_iff map_of_eq_None_iff)
  then show ?thesis
    by (auto simp: insertOne_def fun_eq_iff map_add_def split: option.splits)
qed

section \<open>Refinement: the driver operations implement map updates\<close>

text \<open>
  On a well-formed collection, an update or delete whose filter names one id acts on the
  denoted map like the following map operations: the abstract specification of the
  driver as the DAOs use it.
\<close>

definition update_map ::
  "(oid \<Rightarrow> 'd \<Rightarrow> bool) \<Rightarrow> ('d \<Rightarrow> 'd) \<Rightarrow> oid \<Rightarrow> (oid \<rightharpoonup> 'd) \<Rightarrow> update_result \<times> (oid \<rightharpoonup> 'd)" where
  "update_map p u k m =
     (case m k of
        Some d \<Rightarrow>
          if p k d then (\<lparr>matchedCount = 1, modifiedCount = (if u d = d then 0 else 1)\<rparr>, m(k \<mapsto> u d))
          else (\<lparr>matchedCount = 0, modifiedCount = 0\<rparr>, m)
      | None \<Rightarrow> (\<lparr>matchedCount = 0, modifiedCount = 0\<rparr>, m))"

definition delete_map ::
  "(oid \<Rightarrow> 'd \<Rightarrow> bool) \<Rightarrow> oid \<Rightarrow> (oid \<rightharpoonup> 'd) \<Rightarrow> delete_result \<times> (oid \<rightharpoonup> 'd)" where
  "delete_map p k m =
     (case m k of
        Some d \<Rightarrow> if p k d then (\<lparr>deletedCount = 1\<rparr>, m(k := None)) else (\<lparr>deletedCount = 0\<rparr>, m)
      | None \<Rightarrow> (\<lparr>deletedCount = 0\<rparr>, m))"

lemma updateOne_refines [coll_simps]:
  assumes "coll_wf c" "key_filter p k"
  shows "apsnd coll_map (updateOne p u c) = update_map p u k (coll_map c)"
proof (cases "coll_map c k")
  case None
  with assms show ?thesis by (simp add: updateOne_miss update_map_def)
next
  case (Some d)
  show ?thesis
  proof (cases "p k d")
    case True
    with assms Some show ?thesis
      by (simp add: updateOne_hit update_map_def upd_first_key coll_wf_def)
  next
    case False
    with assms Some show ?thesis by (simp add: updateOne_miss update_map_def)
  qed
qed

lemma deleteOne_refines [coll_simps]:
  assumes "coll_wf c" "key_filter p k"
  shows "apsnd coll_map (deleteOne p c) = delete_map p k (coll_map c)"
proof (cases "coll_map c k")
  case None
  with assms show ?thesis by (simp add: deleteOne_miss delete_map_def)
next
  case (Some d)
  show ?thesis
  proof (cases "p k d")
    case True
    with assms Some show ?thesis
      by (simp add: deleteOne_hit delete_map_def del_first_key coll_wf_def)
  next
    case False
    with assms Some show ?thesis by (simp add: deleteOne_miss delete_map_def)
  qed
qed

text \<open>An update that changes nothing leaves the collection as it was.\<close>

lemma upd_first_noop:
  "distinct (map fst ds) \<Longrightarrow> key_filter p k \<Longrightarrow> map_of ds k = Some d \<Longrightarrow> p k d \<Longrightarrow> u d = d \<Longrightarrow>
   upd_first p u ds = ds"
  by (induction p u ds rule: upd_first.induct)
     (auto simp: key_filter_def dest: map_of_SomeD split: if_splits)

lemma updateOne_noop:
  assumes "coll_wf c" "key_filter p k" "coll_map c k = Some d" "p k d" "u d = d"
  shows "snd (updateOne p u c) = c"
  using assms by (simp add: updateOne_hit upd_first_noop coll_wf_def)

section \<open>Sorted cursors\<close>

text \<open>
  \<open>cursor.sort({f: -1})\<close>: documents by descending key.  The server leaves the order of
  equal keys open; the model keeps them in natural order (a stable sort).
\<close>

definition sort_desc :: "('d \<Rightarrow> 'k::linorder) \<Rightarrow> (oid \<times> 'd) list \<Rightarrow> (oid \<times> 'd) list" where
  "sort_desc f ds = rev (sort_key (\<lambda>x. f (snd x)) (rev ds))"

lemma mset_sort_desc [simp]: "mset (sort_desc f ds) = mset ds"
  by (simp add: sort_desc_def)

lemma set_sort_desc [simp]: "set (sort_desc f ds) = set ds"
  by (simp add: sort_desc_def)

lemma length_sort_desc [simp]: "length (sort_desc f ds) = length ds"
  by (simp add: sort_desc_def)

lemma sorted_sort_desc:
  "sorted_wrt (\<lambda>a b. f (snd b) \<le> f (snd a)) (sort_desc f ds)"
proof -
  have "sorted (map (\<lambda>x. f (snd x)) (sort_key (\<lambda>x. f (snd x)) (rev ds)))"
    by (rule sorted_sort_key)
  then show ?thesis
    by (simp add: sort_desc_def sorted_wrt_rev sorted_map)
qed

section \<open>ObjectId strings\<close>

text \<open>
  An id travels to the frontend as its 24 lower-case hex digits (\<open>JSON.stringify\<close> of an
  \<open>ObjectId\<close>) and comes back in request bodies and query strings; \<open>ObjectId\<close> of that
  string is the id again.
\<close>

definition hex_char :: "nat \<Rightarrow> char" where
  "hex_char d = ''0123456789abcdef'' ! d"

fun hex_digit_list :: "nat \<Rightarrow> nat \<Rightarrow> nat list" where
  "hex_digit_list 0 i = []"
| "hex_digit_list (Suc n) i = hex_digit_list n (i div 16) @ [i mod 16]"

definition oid_hex :: "oid \<Rightarrow> string" where
  "oid_hex i = map hex_char (hex_digit_list 24 i)"

lemma length_hex_digit_list [simp]: "length (hex_digit_list n i) = n"
  by (induction n arbitrary: i) auto

lemma hex_digit_list_bound: "d \<in> set (hex_digit_list n i) \<Longrightarrow> d < 16"
  by (induction n arbitrary: i) auto

lemma digit_value_hex_char: "d < 16 \<Longrightarrow> digit_value 16 (hex_char d) = Some d"
  by (simp add: hex_char_def digit_value_def numeral_eq_Suc less_Suc_eq) (elim disjE; simp)

lemma radix_value_hex_digit_list: "radix_value 16 (hex_digit_list n i) = i mod 16 ^ n"
proof (induction n arbitrary: i)
  case 0
  then show ?case by (simp add: radix_value_def)
next
  case (Suc n)
  have "i mod 16 ^ Suc n = 16 * (i div 16 mod 16 ^ n) + i mod 16"
    by (simp add: mod_mult2_eq mult.commute)
  with Suc show ?case by (simp add: radix_value_snoc)
qed

lemma object_id_oid_hex:
  assumes "i < 16 ^ 24"
  shows "object_id (oid_hex i) = Some i"
proof -
  let ?ds = "hex_digit_list 24 i"
  have valid: "\<forall>c\<in>set (map hex_char ?ds). digit_value 16 c \<noteq> None"
    using hex_digit_list_bound digit_value_hex_char by fastforce
  have "map (the \<circ> digit_value 16) (map hex_char ?ds) = ?ds"
    using hex_digit_list_bound digit_value_hex_char by (simp add: map_idI)
  then have "digits_prefix 16 (oid_hex i) = ?ds"
    using digits_prefix_valid [OF valid] by (simp add: oid_hex_def)
  with assms show ?thesis
    by (simp add: object_id_def oid_hex_def hex_digits_value_def radix_value_hex_digit_list)
qed

lemma object_id_oid_hex_7 [simp]: "object_id (oid_hex 7) = Some 7"
  by (rule object_id_oid_hex) simp

section \<open>Owner-guarded updates and deletes\<close>

text \<open>
  Several DAO methods update or delete one document, filtering on its id and on an owner
  field (\<open>user_id\<close>) against a value the client supplies.  Their contract on the map of
  documents: when the id string is well formed and names a document of that owner, the
  document gets the update (or is removed) and nothing else changes; the result counts
  one modified document exactly when the update changed it.  In every other case
  nothing changes.  \<open>own\<close> selects the owner field.
\<close>

definition owner_update_outcome ::
  "('d \<Rightarrow> 'u) \<Rightarrow> ('d \<Rightarrow> 'd) \<Rightarrow> string \<Rightarrow> 'u \<Rightarrow> (oid \<rightharpoonup> 'd) \<Rightarrow> bool \<times> (oid \<rightharpoonup> 'd)" where
  "owner_update_outcome own f s u m =
     (case object_id s of
        None \<Rightarrow> (False, m)
      | Some k \<Rightarrow>
          (case m k of
             Some r \<Rightarrow> if own r = u then (f r \<noteq> r, m(k \<mapsto> f r)) else (False, m)
           | None \<Rightarrow> (False, m)))"

definition owner_delete_outcome ::
  "('d \<Rightarrow> 'u) \<Rightarrow> string \<Rightarrow> 'u \<Rightarrow> (oid \<rightharpoonup> 'd) \<Rightarrow> bool \<times> (oid \<rightharpoonup> 'd)" where
  "owner_delete_outcome own s u m =
     (case object_id s of
        None \<Rightarrow> (False, m)
      | Some k \<Rightarrow>
          (case m k of
             Some r \<Rightarrow> if own r = u then (True, m(k := None)) else (False, m)
           | None \<Rightarrow> (False, m)))"

text \<open>The shape the DAOs share: parse the id, then update through the owner filter.\<close>

definition owner_updateOne ::
  "('d \<Rightarrow> 'u) \<Rightarrow> ('d \<Rightarrow> 'd) \<Rightarrow> string \<Rightarrow> 'u \<Rightarrow> 'd coll \<Rightarrow> (db_error + update_result) \<times> 'd coll" where
  "owner_updateOne own f s u c =
     (case object_id s of
        None \<Rightarrow> (Inl BSONTypeError, c)
      | Some rid \<Rightarrow> apfst Inr (updateOne (\<lambda>i d. own d = u \<and> i = rid) f c))"

definition owner_deleteOne ::
  "('d \<Rightarrow> 'u) \<Rightarrow> string \<Rightarrow> 'u \<Rightarrow> 'd coll \<Rightarrow> (db_error + delete_result) \<times> 'd coll" where
  "owner_deleteOne own s u c =
     (case object_id s of
        None \<Rightarrow> (Inl BSONTypeError, c)
      | Some rid \<Rightarrow> apfst Inr (deleteOne (\<lambda>i d. i = rid \<and> own d = u) c))"

lemma owner_updateOne_refines:
  assumes "coll_wf c"
  shows "(case fst (owner_updateOne own f s u c) of Inr r \<Rightarrow> modifiedCount r = 1 | Inl _ \<Rightarrow> False)
           = fst (owner_update_outcome own f s u (coll_map c))
         \<and> coll_map (snd (owner_updateOne own f s u c)) = snd (owner_update_outcome own f s u (coll_map c))"
proof (cases "object_id s")
  case None
  then show ?thesis by (simp add: owner_updateOne_def owner_update_outcome_def)
next
  case (Some k)
  have "apsnd coll_map (updateOne (\<lambda>i d. own d = u \<and> i = k) f c)
          = update_map (\<lambda>i d. own d = u \<and> i = k) f k (coll_map c)"
    using assms by (rule updateOne_refines) simp
  with Some show ?thesis
    by (cases "updateOne (\<lambda>i d. own d = u \<and> i = k) f c")
       (auto simp: owner_updateOne_def update_map_def owner_update_outcome_def split: option.splits)
qed

lemma owner_deleteOne_refines:
  assumes "coll_wf c"
  shows "(case fst (owner_deleteOne own s u c) of Inr r \<Rightarrow> deletedCount r = 1 | Inl _ \<Rightarrow> False)
           = fst (owner_delete_outcome own s u (coll_map c))
         \<and> coll_map (snd (owner_deleteOne own s u c)) = snd (owner_delete_outcome own s u (coll_map c))"
proof (cases "object_id s")
  case None
  then show ?thesis by (simp add: owner_deleteOne_def owner_delete_outcome_def)
next
  case (Some k)
  have "apsnd coll_map (deleteOne (\<lambda>i d. i = k \<and> own d = u) c)
          = delete_map (\<lambda>i d. i = k \<and> own d = u) k (coll_map c)"
    using assms by (rule deleteOne_refines) simp
  with Some show ?thesis
    by (cases "deleteOne (\<lambda>i d. i = k \<and> own d = u) c")
       (auto simp: owner_deleteOne_def delete_map_def owner_delete_outcome_def split: option.splits)
qed

text \<open>Through the owner filter, a document of another owner is untouched.\<close>

lemma owner_updateOne_other:
  assumes "coll_wf c" "object_id s = Some k" "coll_map c k = Some r" "own r \<noteq> u"
  shows "owner_updateOne own f s u c = (Inr \<lparr>matchedCount = 0, modifiedCount = 0\<rparr>, c)"
proof -
  have "updateOne (\<lambda>i d. own d = u \<and> i = k) f c = (\<lparr>matchedCount = 0, modifiedCount = 0\<rparr>, c)"
    using assms by (intro updateOne_miss [where k = k]) simp_all
  with assms(2) show ?thesis by (simp add: owner_updateOne_def)
qed

lemma owner_deleteOne_other:
  assumes "coll_wf c" "object_id s = Some k" "coll_map c k = Some r" "own r \<noteq> u"
  shows "owner_deleteOne own s u c = (Inr \<lparr>deletedCount = 0\<rparr>, c)"
proof -
  have "deleteOne (\<lambda>i d. i = k \<and> own d = u) c = (\<lparr>deletedCount = 0\<rparr>, c)"
    using assms by (intro deleteOne_miss [where k = k]) simp_all
  with assms(2) show ?thesis by (simp add: owner_deleteOne_def)
qed

lemma owner_updateOne_noop:
  assumes "coll_wf c" "object_id s = Some k" "coll_map c k = Some r" "own r = u" "f r = r"
  shows "owner_updateOne own f s u c = (Inr \<lparr>matchedCount = 1, modifiedCount = 0\<rparr>, c)"
proof -
  have hit: "updateOne (\<lambda>i d. own d = u \<and> i = k) f c
               = (\<lparr>matchedCount = 1, modifiedCount = (if f r = r then 0 else 1)\<rparr>,
                  c\<lparr>docs := upd_first (\<lambda>i d. own d = u \<and> i = k) f (docs c)\<rparr>)"
    using assms by (intro updateOne_hit) simp_all
  have "upd_first (\<lambda>i d. own d = u \<and> i = k) f (docs c) = docs c"
    using assms by (intro upd_first_noop [where k = k and d = r]) (simp_all add: coll_wf_def)
  with hit assms(2,5) show ?thesis by (simp add: owner_updateOne_def)
qed

section \<open>Invariants of the documents\<close>

text \<open>
  A property every document of a map has is kept by the owner-guarded contracts when the
  update keeps it; the implementations keep well-formedness.
\<close>

lemma ran_owner_update_outcome:
  "\<forall>d \<in> ran m. P d \<Longrightarrow> (\<And>d. P d \<Longrightarrow> P (f d)) \<Longrightarrow> \<forall>d \<in> ran (snd (owner_update_outcome own f s u m)). P d"
  by (auto simp: owner_update_outcome_def ran_def split: option.splits if_splits)

lemma ran_owner_delete_outcome:
  "\<forall>d \<in> ran m. P d \<Longrightarrow> \<forall>d \<in> ran (snd (owner_delete_outcome own s u m)). P d"
  by (auto simp: owner_delete_outcome_def ran_def split: option.splits if_splits)

lemma coll_wf_owner_updateOne: "coll_wf c \<Longrightarrow> coll_wf (snd (owner_updateOne own f s u c))"
  by (auto simp: owner_updateOne_def split: option.splits)

lemma coll_wf_owner_deleteOne: "coll_wf c \<Longrightarrow> coll_wf (snd (owner_deleteOne own s u c))"
  by (auto simp: owner_deleteOne_def split: option.splits)

end
