(* ===== verification/Requests.thy ===== *)
theory Requests
  imports Store
begin

text \<open>
  Movie requests: \<open>src/backend/dao/movie_requestsDAO.js\<close> (class \<open>MovieRequestsDAO\<close>)
  and the handlers of \<open>src/backend/api/movie_requests.controller.js\<close> that only touch the
  \<open>movie_requests\<close> collection (\<open>apiAcceptRequest\<close>, which also reads the movies
  collection, is in theory \<open>Accept\<close>).  A request document is the object
  \<open>apiSendRequest\<close> builds, plus the \<open>movie_id\<close> field \<open>acceptRequest\<close> adds.  Each DAO
  method returns either the driver's result or \<open>{error: e}\<close> (\<open>Inl\<close>), the latter when
  \<open>ObjectId(requestId)\<close> throws.  Each handler returns its response and the new
  collection.
\<close>

section \<open>Documents\<close>

record movie_request =
  rq_title :: string
  rq_year :: "int option"
  rq_fullplot :: string
  rq_genres :: "string list"
  rq_runtime :: "int option"
  rq_released :: js_date
  rq_rated :: string
  rq_lastupdated :: timestamp
  rq_type :: string
  rq_user_id :: email
  rq_status :: string
  rq_active :: bool
  rq_movie_id :: "oid option"

text \<open>The JSON body the frontend posts to \<open>/addRequest\<close> (built in \<open>movie-form.js\<close>).\<close>

record request_body =
  b_title :: string
  b_year :: string
  b_fullplot :: string
  b_genres :: "string list"
  b_runtime :: string
  b_released :: string
  b_rated :: string
  b_user_id :: email
  b_status :: string
  b_active :: bool

type_synonym requests = "movie_request coll"

section \<open>MovieRequestsDAO\<close>

text \<open>The document the driver stores for a request: its release date through BSON.\<close>

definition bson_request :: "movie_request \<Rightarrow> movie_request" where
  "bson_request r = r\<lparr>rq_released := bson_date (rq_released r)\<rparr>"

definition addRequest :: "movie_request \<Rightarrow> requests \<Rightarrow> (db_error + insert_result) \<times> requests" where
  "addRequest data c = apfst Inr (insertOne (bson_request data) c)"

definition getUserRequests :: "email \<Rightarrow> requests \<Rightarrow> (oid \<times> movie_request) list" where
  "getUserRequests user_id c = find_coll (\<lambda>_ d. rq_user_id d = user_id) c"

definition getAllRequests :: "requests \<Rightarrow> (oid \<times> movie_request) list" where
  "getAllRequests c = find_coll (\<lambda>_ _. True) c"

definition deleteRequest ::
  "string \<Rightarrow> email \<Rightarrow> requests \<Rightarrow> (db_error + delete_result) \<times> requests" where
  "deleteRequest requestId user_id c =
     (case object_id requestId of
        None \<Rightarrow> (Inl BSONTypeError, c)
      | Some rid \<Rightarrow> apfst Inr (deleteOne (\<lambda>i d. i = rid \<and> rq_user_id d = user_id) c))"

definition denyRequest ::
  "string \<Rightarrow> email \<Rightarrow> requests \<Rightarrow> (db_error + update_result) \<times> requests" where
  "denyRequest requestId user_id c =
     (case object_id requestId of
        None \<Rightarrow> (Inl BSONTypeError, c)
      | Some rid \<Rightarrow>
          apfst Inr (updateOne (\<lambda>i d. rq_user_id d = user_id \<and> i = rid)
                               (\<lambda>d. d\<lparr>rq_status := ''denied''\<rparr>) c))"

definition deactivateRequest ::
  "string \<Rightarrow> email \<Rightarrow> requests \<Rightarrow> (db_error + update_result) \<times> requests" where
  "deactivateRequest requestId user_id c =
     (case object_id requestId of
        None \<Rightarrow> (Inl BSONTypeError, c)
      | Some rid \<Rightarrow>
          apfst Inr (updateOne (\<lambda>i d. rq_user_id d = user_id \<and> i = rid)
                               (\<lambda>d. d\<lparr>rq_active := False\<rparr>) c))"

definition acceptRequest ::
  "string \<Rightarrow> email \<Rightarrow> oid \<Rightarrow> requests \<Rightarrow> (db_error + update_result) \<times> requests" where
  "acceptRequest requestId user_id acceptedMovie_id c =
     (case object_id requestId of
        None \<Rightarrow> (Inl BSONTypeError, c)
      | Some rid \<Rightarrow>
          apfst Inr (updateOne (\<lambda>i d. rq_user_id d = user_id \<and> i = rid)
                               (\<lambda>d. d\<lparr>rq_status := ''accepted'', rq_movie_id := Some acceptedMovie_id\<rparr>) c))"

lemma bson_request_fields [simp]:
  "rq_title (bson_request r) = rq_title r" "rq_year (bson_request r) = rq_year r"
  "rq_fullplot (bson_request r) = rq_fullplot r" "rq_genres (bson_request r) = rq_genres r"
  "rq_runtime (bson_request r) = rq_runtime r" "rq_released (bson_request r) = bson_date (rq_released r)"
  "rq_rated (bson_request r) = rq_rated r" "rq_lastupdated (bson_request r) = rq_lastupdated r"
  "rq_type (bson_request r) = rq_type r" "rq_user_id (bson_request r) = rq_user_id r"
  "rq_status (bson_request r) = rq_status r" "rq_active (bson_request r) = rq_active r"
  "rq_movie_id (bson_request r) = rq_movie_id r"
  by (simp_all add: bson_request_def)

lemma bson_request_id: "rq_released r \<noteq> Invalid_Date \<Longrightarrow> bson_request r = r"
  by (cases "rq_released r") (simp_all add: bson_request_def)

section \<open>MovieRequestsCtrl\<close>

text \<open>
  The handlers compare a counter of the DAO's answer with 1; on \<open>{error: e}\<close> the
  counter is \<open>undefined\<close> and the comparison is false.
\<close>

definition modified_one :: "db_error + update_result \<Rightarrow> bool" where
  "modified_one r = (case r of Inr u \<Rightarrow> modifiedCount u = 1 | Inl _ \<Rightarrow> False)"

definition deleted_one :: "db_error + delete_result \<Rightarrow> bool" where
  "deleted_one r = (case r of Inr u \<Rightarrow> deletedCount u = 1 | Inl _ \<Rightarrow> False)"

definition inserted_one :: "db_error + insert_result \<Rightarrow> bool" where
  "inserted_one r = (case r of Inr u \<Rightarrow> insertedCount u = 1 | Inl _ \<Rightarrow> False)"

definition success_or_fail :: "bool \<Rightarrow> string http_response" where
  "success_or_fail b = Ok (if b then ''success'' else ''fail'')"

text \<open>
  \<open>apiSendRequest\<close>: the release date \<open>"YYYY-MM-DD"\<close> is split at \<open>-\<close> and given to
  \<open>new Date(y, m - 1, d)\<close>; year and runtime go through \<open>parseInt\<close>; status and
  active are taken from the body as they are.  \<open>now\<close> is the value of \<open>new Date()\<close>.
\<close>

definition request_of_body :: "timestamp \<Rightarrow> request_body \<Rightarrow> movie_request" where
  "request_of_body now data =
     (let releasedArr = split_on CHR ''-'' (b_released data);
          releasedDate =
            new_Date3 (js_Number_opt (js_index releasedArr 0))
                      (map_option (\<lambda>m. m - 1) (js_Number_opt (js_index releasedArr 1)))
                      (js_Number_opt (js_index releasedArr 2))
      in \<lparr>rq_title = b_title data, rq_year = js_parseInt (b_year data),
          rq_fullplot = b_fullplot data, rq_genres = b_genres data,
          rq_runtime = js_parseInt (b_runtime data), rq_released = releasedDate,
          rq_rated = b_rated data, rq_lastupdated = now, rq_type = ''movie'',
          rq_user_id = b_user_id data, rq_status = b_status data, rq_active = b_active data,
          rq_movie_id = None\<rparr>)"

definition apiSendRequest ::
  "timestamp \<Rightarrow> request_body \<Rightarrow> requests \<Rightarrow> string http_response \<times> requests" where
  "apiSendRequest now data c =
     (let (sendRequest, c') = addRequest (request_of_body now data) c
      in (success_or_fail (inserted_one sendRequest), c'))"

definition apiGetRequests :: "email \<Rightarrow> requests \<Rightarrow> (oid \<times> movie_request) list http_response" where
  "apiGetRequests email c = Ok (getUserRequests email c)"

definition apiGetAllRequests :: "requests \<Rightarrow> (oid \<times> movie_request) list http_response" where
  "apiGetAllRequests c = Ok (getAllRequests c)"

definition apiDeleteRequest ::
  "string \<Rightarrow> email \<Rightarrow> requests \<Rightarrow> string http_response \<times> requests" where
  "apiDeleteRequest requestId userId c =
     (let (deleteStatus, c') = deleteRequest requestId userId c
      in (success_or_fail (deleted_one deleteStatus), c'))"

definition apiDenyRequest ::
  "string \<Rightarrow> email \<Rightarrow> requests \<Rightarrow> string http_response \<times> requests" where
  "apiDenyRequest requestId userId c =
     (let (denyStatus, c') = denyRequest requestId userId c
      in (success_or_fail (modified_one denyStatus), c'))"

definition apiDeactivateRequest ::
  "string \<Rightarrow> email \<Rightarrow> requests \<Rightarrow> string http_response \<times> requests" where
  "apiDeactivateRequest requestId userId c =
     (let (deactivateStatus, c') = deactivateRequest requestId userId c
      in (success_or_fail (modified_one deactivateStatus), c'))"

declare apiSendRequest_def [handler_defs] apiDeleteRequest_def [handler_defs]
  apiDenyRequest_def [handler_defs] apiDeactivateRequest_def [handler_defs]

section \<open>Sample data\<close>

definition sample_request :: movie_request where
  "sample_request =
     \<lparr>rq_title = ''Heat'', rq_year = Some 1995, rq_fullplot = ''A heist crew and a detective.'',
      rq_genres = [''Crime''], rq_runtime = Some 170, rq_released = Date_ymd 1995 11 15,
      rq_rated = ''R'', rq_lastupdated = 7, rq_type = ''movie'', rq_user_id = ''ann@mail.com'',
      rq_status = ''pending'', rq_active = True, rq_movie_id = None\<rparr>"

definition sample_requests :: requests where
  "sample_requests = \<lparr>docs = [(7, sample_request)], next_oid = 8\<rparr>"

lemma coll_wf_sample_requests [simp]: "coll_wf sample_requests"
  by (simp add: sample_requests_def coll_wf_def)

lemma sample_requests_7 [simp]: "coll_map sample_requests 7 = Some sample_request"
  by (simp add: sample_requests_def)

section \<open>The DAO methods are owner-guarded updates\<close>

text \<open>
  \<open>denyRequest\<close>, \<open>deactivateRequest\<close>, \<open>acceptRequest\<close> and \<open>deleteRequest\<close> have the
  shape of the generic owner-guarded operations of theory \<open>Store\<close>, with
  \<open>user_id\<close> as the owner field; their contracts are those of \<open>Store\<close>.
\<close>

lemma request_daos_owner_guarded:
  "denyRequest s u c = owner_updateOne rq_user_id (\<lambda>d. d\<lparr>rq_status := ''denied''\<rparr>) s u c"
  "deactivateRequest s u c = owner_updateOne rq_user_id (\<lambda>d. d\<lparr>rq_active := False\<rparr>) s u c"
  "acceptRequest s u m c =
     owner_updateOne rq_user_id (\<lambda>d. d\<lparr>rq_status := ''accepted'', rq_movie_id := Some m\<rparr>) s u c"
  "deleteRequest s u c = owner_deleteOne rq_user_id s u c"
  by (simp_all add: denyRequest_def deactivateRequest_def acceptRequest_def deleteRequest_def
      owner_updateOne_def owner_deleteOne_def)

lemma movie_request_update_eq [simp]:
  "(r\<lparr>rq_status := x\<rparr> = r) \<longleftrightarrow> rq_status r = x"
  "(r\<lparr>rq_active := b\<rparr> = r) \<longleftrightarrow> rq_active r = b"
  "(r\<lparr>rq_status := x, rq_movie_id := y\<rparr> = r) \<longleftrightarrow> rq_status r = x \<and> rq_movie_id r = y"
  by (cases r; auto)+

lemma modified_one_case: "modified_one x = (case x of Inr r \<Rightarrow> modifiedCount r = 1 | Inl _ \<Rightarrow> False)"
  by (simp add: modified_one_def)

lemma deleted_one_case: "deleted_one x = (case x of Inr r \<Rightarrow> deletedCount r = 1 | Inl _ \<Rightarrow> False)"
  by (simp add: deleted_one_def)

text \<open>
  An owner-guarded request handler answers after the contract: the generic refinement
  lemma, read through the handler's \<open>"success"\<close>/\<open>"fail"\<close> test.
\<close>

lemma request_update_handler:
  assumes "coll_wf c"
  shows "success_or_fail (modified_one (fst (owner_updateOne rq_user_id f s u c)))
           = success_or_fail (fst (owner_update_outcome rq_user_id f s u (coll_map c)))
         \<and> coll_map (snd (owner_updateOne rq_user_id f s u c))
           = snd (owner_update_outcome rq_user_id f s u (coll_map c))"
  using owner_updateOne_refines [OF assms, where own = rq_user_id and f = f and s = s and u = u]
  by (simp add: modified_one_case)

section \<open>Properties of the request endpoints\<close>

text \<open>C7: the contract of \<open>apiDenyRequest\<close> (refinement).\<close>

theorem apiDenyRequest_refines:
  assumes "coll_wf c"
  shows "fst (apiDenyRequest s u c)
           = success_or_fail (fst (owner_update_outcome rq_user_id (\<lambda>d. d\<lparr>rq_status := ''denied''\<rparr>) s u (coll_map c)))
         \<and> coll_map (snd (apiDenyRequest s u c))
           = snd (owner_update_outcome rq_user_id (\<lambda>d. d\<lparr>rq_status := ''denied''\<rparr>) s u (coll_map c))"
  using request_update_handler [OF assms, where f = "\<lambda>d. d\<lparr>rq_status := ''denied''\<rparr>" and s = s and u = u]
  by (simp add: apiDenyRequest_def request_daos_owner_guarded let_pair_fst_snd)

theorem apiDenyRequest_refines_witness:
  "coll_wf sample_requests
   \<and> fst (apiDenyRequest (oid_hex 7) ''ann@mail.com'' sample_requests)
       = success_or_fail (fst (owner_update_outcome rq_user_id (\<lambda>d. d\<lparr>rq_status := ''denied''\<rparr>)
                                 (oid_hex 7) ''ann@mail.com'' (coll_map sample_requests)))"
  using apiDenyRequest_refines [OF coll_wf_sample_requests, where s = "oid_hex 7" and u = "''ann@mail.com''"]
  by simp

text \<open>C1: denying a request of its owner that is not yet denied succeeds and changes its status only.\<close>

theorem deny_sets_denied_only:
  assumes "coll_wf c" "object_id s = Some k" "coll_map c k = Some r" "rq_user_id r = u"
    and "rq_status r \<noteq> ''denied''"
  shows "fst (apiDenyRequest s u c) = Ok ''success''
         \<and> coll_map (snd (apiDenyRequest s u c)) = (coll_map c)(k \<mapsto> r\<lparr>rq_status := ''denied''\<rparr>)"
  using request_update_handler [OF assms(1), where f = "\<lambda>d. d\<lparr>rq_status := ''denied''\<rparr>" and s = s and u = u]
    assms(2-5)
  by (simp add: apiDenyRequest_def request_daos_owner_guarded let_pair_fst_snd owner_update_outcome_def
      success_or_fail_def)

theorem deny_sets_denied_only_witness:
  "coll_wf sample_requests \<and> object_id (oid_hex 7) = Some 7
   \<and> coll_map sample_requests 7 = Some sample_request \<and> rq_user_id sample_request = ''ann@mail.com''
   \<and> rq_status sample_request \<noteq> ''denied''
   \<and> fst (apiDenyRequest (oid_hex 7) ''ann@mail.com'' sample_requests) = Ok ''success''"
proof -
  have h: "rq_user_id sample_request = ''ann@mail.com''" "rq_status sample_request \<noteq> ''denied''"
    by (simp_all add: sample_request_def)
  show ?thesis
    using deny_sets_denied_only [OF coll_wf_sample_requests object_id_oid_hex_7 sample_requests_7 h] h
    by simp
qed

text \<open>a repeated deny answers \<open>"fail"\<close> and changes nothing.\<close>

theorem deny_repeated_fails:
  assumes "coll_wf c" "object_id s = Some k" "coll_map c k = Some r" "rq_status r = ''denied''"
  shows "apiDenyRequest s u c = (Ok ''fail'', c)"
proof (cases "rq_user_id r = u")
  case True
  with assms have "denyRequest s u c = (Inr \<lparr>matchedCount = 1, modifiedCount = 0\<rparr>, c)"
    by (simp add: request_daos_owner_guarded owner_updateOne_noop)
  then show ?thesis by (simp add: apiDenyRequest_def modified_one_def success_or_fail_def)
next
  case False
  with assms have "denyRequest s u c = (Inr \<lparr>matchedCount = 0, modifiedCount = 0\<rparr>, c)"
    by (simp add: request_daos_owner_guarded owner_updateOne_other)
  then show ?thesis by (simp add: apiDenyRequest_def modified_one_def success_or_fail_def)
qed

theorem deny_repeated_fails_witness:
  "apiDenyRequest (oid_hex 7) ''ann@mail.com'' (sample_requests\<lparr>docs := [(7, sample_request\<lparr>rq_status := ''denied''\<rparr>)]\<rparr>)
   = (Ok ''fail'', sample_requests\<lparr>docs := [(7, sample_request\<lparr>rq_status := ''denied''\<rparr>)]\<rparr>)"
  by (rule deny_repeated_fails [where k = 7 and r = "sample_request\<lparr>rq_status := ''denied''\<rparr>"])
     (simp_all add: sample_requests_def coll_wf_def)

text \<open>C2: deleting a request needs the owner's \<open>user_id\<close>; anyone else's delete changes nothing.\<close>

theorem delete_requires_owner:
  assumes "coll_wf c" "object_id s = Some k" "coll_map c k = Some r"
  shows "fst (apiDeleteRequest s u c) = Ok (if rq_user_id r = u then ''success'' else ''fail'')
         \<and> coll_map (snd (apiDeleteRequest s u c))
           = (if rq_user_id r = u then (coll_map c)(k := None) else coll_map c)
         \<and> (rq_user_id r \<noteq> u \<longrightarrow> snd (apiDeleteRequest s u c) = c)"
proof (cases "rq_user_id r = u")
  case True
  with owner_deleteOne_refines [OF assms(1), where own = rq_user_id and s = s and u = u] assms(2,3)
  show ?thesis
    by (simp add: apiDeleteRequest_def request_daos_owner_guarded let_pair_fst_snd deleted_one_case
        owner_delete_outcome_def success_or_fail_def)
next
  case False
  with assms have "deleteRequest s u c = (Inr \<lparr>deletedCount = 0\<rparr>, c)"
    by (simp add: request_daos_owner_guarded owner_deleteOne_other)
  with False show ?thesis by (simp add: apiDeleteRequest_def deleted_one_def success_or_fail_def)
qed

theorem delete_requires_owner_witness:
  "coll_wf sample_requests \<and> object_id (oid_hex 7) = Some 7
   \<and> coll_map sample_requests 7 = Some sample_request
   \<and> apiDeleteRequest (oid_hex 7) ''eve@mail.com'' sample_requests = (Ok ''fail'', sample_requests)"
proof -
  have "rq_user_id sample_request \<noteq> ''eve@mail.com''"
    by (simp add: sample_request_def)
  then show ?thesis
    using delete_requires_owner [OF coll_wf_sample_requests object_id_oid_hex_7 sample_requests_7,
        where u = "''eve@mail.com''"]
    by (simp add: prod_eq_iff)
qed

text \<open>Deactivation: the contract, with the \<open>active\<close> flag as the update.\<close>

theorem apiDeactivateRequest_refines:
  assumes "coll_wf c"
  shows "fst (apiDeactivateRequest s u c)
           = success_or_fail (fst (owner_update_outcome rq_user_id (\<lambda>d. d\<lparr>rq_active := False\<rparr>) s u (coll_map c)))
         \<and> coll_map (snd (apiDeactivateRequest s u c))
           = snd (owner_update_outcome rq_user_id (\<lambda>d. d\<lparr>rq_active := False\<rparr>) s u (coll_map c))"
  using request_update_handler [OF assms, where f = "\<lambda>d. d\<lparr>rq_active := False\<rparr>" and s = s and u = u]
  by (simp add: apiDeactivateRequest_def request_daos_owner_guarded let_pair_fst_snd)

theorem apiDeactivateRequest_refines_witness:
  "coll_wf sample_requests
   \<and> fst (apiDeactivateRequest (oid_hex 7) ''ann@mail.com'' sample_requests)
       = success_or_fail (fst (owner_update_outcome rq_user_id (\<lambda>d. d\<lparr>rq_active := False\<rparr>)
                                 (oid_hex 7) ''ann@mail.com'' (coll_map sample_requests)))"
  using apiDeactivateRequest_refines [OF coll_wf_sample_requests, where s = "oid_hex 7" and u = "''ann@mail.com''"]
  by simp

text \<open>Sending a request stores the body's fields, the client's status and flag included.\<close>

theorem apiSendRequest_inserts:
  assumes "coll_wf c"
  shows "fst (apiSendRequest now data c) = Ok ''success''
         \<and> coll_map (snd (apiSendRequest now data c)) = (coll_map c)(next_oid c \<mapsto> bson_request (request_of_body now data))
         \<and> rq_status (request_of_body now data) = b_status data
         \<and> rq_active (request_of_body now data) = b_active data"
proof -
  have "rq_status (request_of_body now data) = b_status data
        \<and> rq_active (request_of_body now data) = b_active data"
    by (simp add: request_of_body_def Let_def)
  with assms show ?thesis
    by (simp add: apiSendRequest_def addRequest_def let_pair_fst_snd inserted_one_def
        success_or_fail_def)
qed

theorem apiSendRequest_inserts_witness:
  "coll_wf (empty_coll :: requests)
   \<and> fst (apiSendRequest 5 \<lparr>b_title = ''Heat'', b_year = ''1995'', b_fullplot = ''A heist.'',
          b_genres = [''Crime''], b_runtime = ''170'', b_released = ''1995-12-15'', b_rated = ''R'',
          b_user_id = ''ann@mail.com'', b_status = ''accepted'', b_active = True\<rparr> empty_coll)
       = Ok ''success''"
  using apiSendRequest_inserts [of "empty_coll :: requests"] by simp

end
