(* ===== verification/Reviews.thy ===== *)
theory Reviews
  imports Store
begin

text \<open>
  Reviews: \<open>src/backend/dao/reviewsDAO.js\<close> (class \<open>ReviewsDAO\<close>) and the handlers of
  \<open>src/backend/api/reviews.controller.js\<close> that only touch the reviews collection
  (\<open>apiGetUserReviewMovies\<close>, which also reads movies, is in theory \<open>Movies\<close>).  A review
  document is the \<open>reviewDoc\<close> of \<open>addReviews\<close>; the reviewer is named by e-mail
  (\<open>user_id\<close>) and carries a denormalised display name (\<open>name\<close>).  Edits and deletes
  filter on the review id and the requesting user; the rename used after a username
  change filters on the id only.
\<close>

section \<open>Documents\<close>

record review =
  rv_name :: string
  rv_user_id :: email
  rv_date :: timestamp
  rv_text :: string
  rv_num_stars :: int
  rv_movie_id :: oid

text \<open>The \<open>user\<close> argument of \<open>addReviews\<close>: \<open>{name, _id}\<close> built by \<open>apiAddReview\<close>.\<close>

record user_info =
  ui_name :: string
  ui_id :: email

type_synonym reviews = "review coll"

section \<open>ReviewsDAO\<close>

definition addReviews ::
  "string \<Rightarrow> user_info \<Rightarrow> string \<Rightarrow> int \<Rightarrow> timestamp \<Rightarrow> reviews
   \<Rightarrow> (db_error + insert_result) \<times> reviews" where
  "addReviews movieId user review stars date c =
     (case object_id movieId of
        None \<Rightarrow> (Inl BSONTypeError, c)
      | Some mid \<Rightarrow>
          apfst Inr (insertOne \<lparr>rv_name = ui_name user, rv_user_id = ui_id user, rv_date = date,
                                rv_text = review, rv_num_stars = stars, rv_movie_id = mid\<rparr> c))"

definition editReview ::
  "string \<Rightarrow> email \<Rightarrow> string \<Rightarrow> int \<Rightarrow> timestamp \<Rightarrow> reviews
   \<Rightarrow> (db_error + update_result) \<times> reviews" where
  "editReview reviewId userId text stars date c =
     (case object_id reviewId of
        None \<Rightarrow> (Inl BSONTypeError, c)
      | Some rid \<Rightarrow>
          apfst Inr (updateOne (\<lambda>i d. rv_user_id d = userId \<and> i = rid)
                               (\<lambda>d. d\<lparr>rv_text := text, rv_date := date, rv_num_stars := stars\<rparr>) c))"

definition deleteReview ::
  "string \<Rightarrow> email \<Rightarrow> reviews \<Rightarrow> (db_error + delete_result) \<times> reviews" where
  "deleteReview reviewId userId c =
     (case object_id reviewId of
        None \<Rightarrow> (Inl BSONTypeError, c)
      | Some rid \<Rightarrow> apfst Inr (deleteOne (\<lambda>i d. i = rid \<and> rv_user_id d = userId) c))"

definition getReviewsByUser :: "email \<Rightarrow> reviews \<Rightarrow> (oid \<times> review) list" where
  "getReviewsByUser userId c = sort_desc rv_num_stars (find_coll (\<lambda>_ d. rv_user_id d = userId) c)"

definition editReviewUserName ::
  "string \<Rightarrow> string \<Rightarrow> reviews \<Rightarrow> (db_error + update_result) \<times> reviews" where
  "editReviewUserName reviewId newUserName c =
     (case object_id reviewId of
        None \<Rightarrow> (Inl BSONTypeError, c)
      | Some rid \<Rightarrow> apfst Inr (updateOne (\<lambda>i d. i = rid) (\<lambda>d. d\<lparr>rv_name := newUserName\<rparr>) c))"

section \<open>ReviewsCtrl\<close>

text \<open>
  \<open>apiAddReview\<close> and \<open>apiDeleteReview\<close> ignore what the DAO answers and always send
  \<open>{status: "success"}\<close>; \<open>apiEditReview\<close> turns only a DAO error into a 500 answer.
  \<open>now\<close> is the value of \<open>new Date()\<close>.
\<close>

definition apiAddReview ::
  "string \<Rightarrow> string \<Rightarrow> int \<Rightarrow> string \<Rightarrow> email \<Rightarrow> timestamp \<Rightarrow> reviews
   \<Rightarrow> string http_response \<times> reviews" where
  "apiAddReview movie_id text stars name user_id now c =
     (let userInfo = \<lparr>ui_name = name, ui_id = user_id\<rparr>;
          (addReview, c') = addReviews movie_id userInfo text stars now c
      in (Ok ''success'', c'))"

definition edit_error_message :: string where
  "edit_error_message = ''Unable to edit review as user may not be original poster.''"

definition apiEditReview ::
  "email \<Rightarrow> string \<Rightarrow> int \<Rightarrow> string \<Rightarrow> timestamp \<Rightarrow> reviews
   \<Rightarrow> string http_response \<times> reviews" where
  "apiEditReview userId reviewId updatedStars updatedReview now c =
     (let (editReview, c') = editReview reviewId userId updatedReview updatedStars now c
      in (case editReview of
            Inl _ \<Rightarrow> Http_error 500 edit_error_message
          | Inr _ \<Rightarrow> Ok ''success'', c'))"

definition apiDeleteReview :: "email \<Rightarrow> string \<Rightarrow> reviews \<Rightarrow> string http_response \<times> reviews" where
  "apiDeleteReview userId reviewId c =
     (let (deleteReview, c') = deleteReview reviewId userId c in (Ok ''success'', c'))"

definition apiGetUserReviews :: "email \<Rightarrow> reviews \<Rightarrow> (oid \<times> review) list http_response" where
  "apiGetUserReviews user_id c = Ok (getReviewsByUser user_id c)"

definition apiEditReviewUserName ::
  "string \<Rightarrow> string \<Rightarrow> reviews \<Rightarrow> (db_error + update_result) http_response \<times> reviews" where
  "apiEditReviewUserName reviewId newUserName c =
     (let (updateReviewUserName, c') = editReviewUserName reviewId newUserName c
      in (Ok updateReviewUserName, c'))"

section \<open>Sample data\<close>

definition sample_review :: review where
  "sample_review =
     \<lparr>rv_name = ''ann'', rv_user_id = ''ann@mail.com'', rv_date = 3, rv_text = ''Great.'',
      rv_num_stars = 5, rv_movie_id = 1\<rparr>"

definition sample_reviews :: reviews where
  "sample_reviews = \<lparr>docs = [(7, sample_review)], next_oid = 8\<rparr>"

lemma coll_wf_sample_reviews [simp]: "coll_wf sample_reviews"
  by (simp add: sample_reviews_def coll_wf_def)

lemma sample_reviews_7 [simp]: "coll_map sample_reviews 7 = Some sample_review"
  by (simp add: sample_reviews_def)

section \<open>The DAO methods are owner-guarded\<close>

lemma review_daos_owner_guarded:
  "editReview s u rtext stars date c =
     owner_updateOne rv_user_id (\<lambda>d. d\<lparr>rv_text := rtext, rv_date := date, rv_num_stars := stars\<rparr>) s u c"
  "deleteReview s u c = owner_deleteOne rv_user_id s u c"
  by (simp_all add: editReview_def deleteReview_def owner_updateOne_def owner_deleteOne_def)

section \<open>Properties of the review endpoints\<close>

text \<open>
  C8: \<open>apiEditReview\<close> implements the owner-guarded update contract; its answer is a
  500 error only for a malformed review id, and \<open>"success"\<close> in every other case,
  whether or not anything was edited.
\<close>

theorem apiEditReview_refines:
  assumes "coll_wf c"
  shows "fst (apiEditReview u s stars rtext now c)
           = (if object_id s = None then Http_error 500 edit_error_message else Ok ''success'')
         \<and> coll_map (snd (apiEditReview u s stars rtext now c))
           = snd (owner_update_outcome rv_user_id
                    (\<lambda>d. d\<lparr>rv_text := rtext, rv_date := now, rv_num_stars := stars\<rparr>) s u (coll_map c))"
proof -
  have "fst (editReview s u rtext stars now c) = Inl BSONTypeError \<longleftrightarrow> object_id s = None"
    by (auto simp: editReview_def split: option.splits)
  moreover have "(\<exists>e. fst (editReview s u rtext stars now c) = Inl e) \<longleftrightarrow> object_id s = None"
    by (auto simp: editReview_def split: option.splits)
  ultimately show ?thesis
    using owner_updateOne_refines [OF assms, where own = rv_user_id and s = s and u = u and
        f = "\<lambda>d. d\<lparr>rv_text := rtext, rv_date := now, rv_num_stars := stars\<rparr>"]
    by (auto simp: apiEditReview_def let_pair_fst_snd review_daos_owner_guarded split: sum.splits)
qed

theorem apiEditReview_refines_witness:
  "coll_wf sample_reviews
   \<and> fst (apiEditReview ''ann@mail.com'' (oid_hex 7) 4 ''Good.'' 9 sample_reviews) = Ok ''success''"
  using apiEditReview_refines [OF coll_wf_sample_reviews, where u = "''ann@mail.com''" and s = "oid_hex 7"
      and stars = "4" and rtext = "''Good.''" and now = "9"]
  by simp

text \<open>
  C12: an edit by anyone but the review's author changes nothing, yet the handler answers
  \<open>"success"\<close>: the error branch it has for that case ("user may not be original poster")
  is never taken.
\<close>

theorem edit_by_other_user_reports_success:
  assumes "coll_wf c" "object_id s = Some k" "coll_map c k = Some r" "rv_user_id r \<noteq> u"
  shows "apiEditReview u s stars rtext now c = (Ok ''success'', c)"
proof -
  have "editReview s u rtext stars now c = (Inr \<lparr>matchedCount = 0, modifiedCount = 0\<rparr>, c)"
    using assms by (simp add: review_daos_owner_guarded owner_updateOne_other)
  then show ?thesis by (simp add: apiEditReview_def)
qed

theorem edit_by_other_user_reports_success_witness:
  "coll_wf sample_reviews \<and> object_id (oid_hex 7) = Some 7 \<and> coll_map sample_reviews 7 = Some sample_review
   \<and> rv_user_id sample_review \<noteq> ''eve@mail.com''
   \<and> apiEditReview ''eve@mail.com'' (oid_hex 7) 1 ''Bad.'' 9 sample_reviews = (Ok ''success'', sample_reviews)"
proof -
  have h: "rv_user_id sample_review \<noteq> ''eve@mail.com''" by (simp add: sample_review_def)
  show ?thesis
    using edit_by_other_user_reports_success [OF coll_wf_sample_reviews object_id_oid_hex_7 sample_reviews_7 h,
        where stars = "1" and rtext = "''Bad.''" and now = "9"] h
    by simp
qed

text \<open>C9: deleting a review removes it only for its author; the answer is always \<open>"success"\<close>.\<close>

theorem apiDeleteReview_refines:
  assumes "coll_wf c"
  shows "fst (apiDeleteReview u s c) = Ok ''success''
         \<and> coll_map (snd (apiDeleteReview u s c)) = snd (owner_delete_outcome rv_user_id s u (coll_map c))"
  using owner_deleteOne_refines [OF assms, where own = rv_user_id and s = s and u = u]
  by (simp add: apiDeleteReview_def let_pair_fst_snd review_daos_owner_guarded)

theorem apiDeleteReview_refines_witness:
  "coll_wf sample_reviews
   \<and> coll_map (snd (apiDeleteReview ''ann@mail.com'' (oid_hex 7) sample_reviews))
       = snd (owner_delete_outcome rv_user_id (oid_hex 7) ''ann@mail.com'' (coll_map sample_reviews))"
  using apiDeleteReview_refines [OF coll_wf_sample_reviews, where u = "''ann@mail.com''" and s = "oid_hex 7"]
  by simp

text \<open>
  a user's reviews come back complete (each of the user's reviews once, no other)
  and ordered by descending number of stars.
\<close>

theorem getReviewsByUser_spec:
  "mset (getReviewsByUser u c) = mset (filter (\<lambda>(i, d). rv_user_id d = u) (docs c))
   \<and> sorted_wrt (\<lambda>a b. rv_num_stars (snd b) \<le> rv_num_stars (snd a)) (getReviewsByUser u c)"
  by (simp add: getReviewsByUser_def find_coll_def sorted_sort_desc)

text \<open>
  C20: a review for a malformed movie id is not stored (\<open>ObjectId\<close> throws inside the DAO,
  which returns \<open>{error}\<close>), but \<open>apiAddReview\<close> still answers \<open>"success"\<close>.
\<close>

theorem add_review_error_reported_as_success:
  assumes "object_id movie_id = None"
  shows "apiAddReview movie_id rtext stars name user_id now c = (Ok ''success'', c)"
  using assms by (simp add: apiAddReview_def addReviews_def)

theorem add_review_error_reported_as_success_witness:
  "object_id ''tt0113277'' = None
   \<and> apiAddReview ''tt0113277'' ''Great.'' 5 ''ann'' ''ann@mail.com'' 3 sample_reviews = (Ok ''success'', sample_reviews)"
proof -
  have h: "object_id ''tt0113277'' = None" by (simp add: object_id_def)
  show ?thesis using add_review_error_reported_as_success [OF h] h by simp
qed

text \<open>With a well-formed movie id the review is stored at a fresh id.\<close>

lemma apiAddReview_inserts:
  assumes "coll_wf c" "object_id movie_id = Some m"
  shows "fst (apiAddReview movie_id rtext stars name user_id now c) = Ok ''success''
         \<and> coll_map (snd (apiAddReview movie_id rtext stars name user_id now c))
           = (coll_map c)(next_oid c \<mapsto> \<lparr>rv_name = name, rv_user_id = user_id, rv_date = now,
                                        rv_text = rtext, rv_num_stars = stars, rv_movie_id = m\<rparr>)"
  using assms by (simp add: apiAddReview_def addReviews_def case_prod_unfold Let_def)

end
