(* ===== verification/Movies.thy ===== *)
theory Movies
  imports Reviews "HOL-Library.Option_ord" "HOL-Library.Product_Lexorder" "HOL-Library.Sublist"
begin

text \<open>
  Movies: \<open>src/backend/dao/moviesDAO.js\<close> (class \<open>MoviesDAO\<close>, but for
  \<open>deleteDuplicateMovies\<close>, which is in theory \<open>Dedup\<close>), the handlers of
  \<open>src/backend/api/movies.controller.js\<close>, and \<open>apiGetUserReviewMovies\<close> of the reviews
  controller, which joins the two collections.  A movie document has the fields the code
  reads; those that preloaded documents may lack are options.  Two date fields coexist:
  \<open>lastupdated\<close> (a string, in the preloaded data) and \<open>lastUpdated\<close> (a date, written by
  \<open>apiAddMovie\<close>).  Numbers that went through \<open>parseInt\<close>/\<open>parseFloat\<close> are options
  (\<open>None\<close> is \<open>NaN\<close>).
\<close>

section \<open>Documents\<close>

record imdb_info =
  im_rating :: "rat option"
  im_votes :: "int option"
  im_id :: "int option"

record movie =
  mv_title :: string
  mv_year :: "int option"
  mv_fullplot :: "string option"
  mv_genres :: "string list"
  mv_imdb :: "imdb_info option"
  mv_poster :: "string option"
  mv_runtime :: "int option"
  mv_released :: js_date
  mv_rated :: "string option"
  mv_lastupdated :: "string option"
  mv_lastUpdated :: "timestamp option"
  mv_type :: string

type_synonym movies = "movie coll"

text \<open>
  The sort key of \<open>sort({imdb: -1})\<close>: the server compares embedded documents field by
  field (rating, votes, id), and a missing document or a \<open>NaN\<close> below every number.
\<close>

definition imdb_key :: "movie \<Rightarrow> (rat option \<times> int option \<times> int option) option" where
  "imdb_key m = map_option (\<lambda>i. (im_rating i, im_votes i, im_id i)) (mv_imdb m)"

section \<open>Queries\<close>

text \<open>
  A filter value is a string, or \<open>undefined\<close> when \<open>apiAcceptRequest\<close> reads the first
  genre of an empty list.  \<open>$eq: undefined\<close> is sent as \<open>null\<close>, which matches a missing
  field; \<open>parseInt(undefined)\<close> is \<open>NaN\<close>; \<open>`${undefined}`\<close> is \<open>"undefined"\<close>.
\<close>

datatype qval = QStr string | QUndefined

definition qval_string :: "qval \<Rightarrow> string" where
  "qval_string v = (case v of QStr s \<Rightarrow> s | QUndefined \<Rightarrow> ''undefined'')"

record movie_filters =
  f_title :: "qval option"
  f_genres :: "qval option"
  f_rated :: "qval option"
  f_year :: "qval option"

definition no_filters :: movie_filters where
  "no_filters = \<lparr>f_title = None, f_genres = None, f_rated = None, f_year = None\<rparr>"

text \<open>
  \<open>$text: {$search: "\"t\""}\<close>: a phrase search in the text index.  The model takes the
  title as the indexed field and the phrase search as a case-insensitive substring test.
\<close>

definition text_phrase_match :: "string \<Rightarrow> movie \<Rightarrow> bool" where
  "text_phrase_match t m \<longleftrightarrow> sublist (map ascii_lower t) (map ascii_lower (mv_title m))"

definition movie_query :: "movie_filters \<Rightarrow> movie \<Rightarrow> bool" where
  "movie_query filters m \<longleftrightarrow>
     (case f_title filters of None \<Rightarrow> True | Some t \<Rightarrow> text_phrase_match (qval_string t) m)
     \<and> (case f_genres filters of None \<Rightarrow> True
          | Some (QStr g) \<Rightarrow> g \<in> set (mv_genres m) | Some QUndefined \<Rightarrow> False)
     \<and> (case f_rated filters of None \<Rightarrow> True
          | Some (QStr r) \<Rightarrow> mv_rated m = Some r | Some QUndefined \<Rightarrow> mv_rated m = None)
     \<and> (case f_year filters of None \<Rightarrow> True
          | Some (QStr y) \<Rightarrow> mv_year m = js_parseInt y | Some QUndefined \<Rightarrow> mv_year m = None)"

text \<open>
  \<open>cursor.limit(l).skip(s)\<close> on \<open>toArray\<close>: the server skips first, then limits; a limit
  of 0 is no limit and a negative one counts as its absolute value; a negative or \<open>NaN\<close>
  skip or limit is an error, which \<open>getMovies\<close> turns into an empty list.
\<close>

definition cursor_window :: "int option \<Rightarrow> int option \<Rightarrow> 'a list \<Rightarrow> 'a list option" where
  "cursor_window lmt sk xs =
     (case (lmt, sk) of
        (Some l, Some s) \<Rightarrow>
          if s < 0 then None
          else Some (if l = 0 then drop (nat s) xs else take (nat \<bar>l\<bar>) (drop (nat s) xs))
      | _ \<Rightarrow> None)"

section \<open>MoviesDAO\<close>

definition getMovies :: "movie_filters \<Rightarrow> int option \<Rightarrow> int option \<Rightarrow> movies \<Rightarrow> (oid \<times> movie) list" where
  "getMovies filters page moviesPerPage c =
     (let cursor = sort_desc imdb_key (find_coll (\<lambda>_ m. movie_query filters m) c);
          page' = (if page = Some 0 then Some 1 else page);
          skip = (case (moviesPerPage, page') of
                    (Some n, Some p) \<Rightarrow> Some (n * (p - 1))
                  | _ \<Rightarrow> None)
      in case cursor_window moviesPerPage skip cursor of Some ms \<Rightarrow> ms | None \<Rightarrow> [])"

text \<open>
  \<open>getMoviesByID\<close>: the movie with that id and, through \<open>$lookup\<close>, its reviews by
  descending date; \<open>null\<close> (\<open>None\<close>) when there is no such movie; an exception
  (\<open>Inl\<close>) when the id is malformed.
\<close>

type_synonym movie_view = "oid \<times> movie \<times> (oid \<times> review) list"

definition getMoviesByID :: "id_arg \<Rightarrow> movies \<Rightarrow> reviews \<Rightarrow> db_error + movie_view option" where
  "getMoviesByID mid ms rs =
     (case to_object_id mid of
        None \<Rightarrow> Inl BSONTypeError
      | Some k \<Rightarrow>
          Inr (case coll_map ms k of
                 None \<Rightarrow> None
               | Some m \<Rightarrow> Some (k, m, sort_desc rv_date (find_coll (\<lambda>_ r. rv_movie_id r = k) rs))))"

text \<open>\<open>distinct("genres")\<close> unwinds the arrays; the server's order of the values is not specified.\<close>

definition getGenres :: "movies \<Rightarrow> string list" where
  "getGenres c = remdups (concat (map (\<lambda>(_, m). mv_genres m) (docs c)))"

definition getRated :: "movies \<Rightarrow> string list" where
  "getRated c = remdups (List.map_filter (\<lambda>(_, m). mv_rated m) (docs c))"

text \<open>The document the driver stores for a movie: its release date through BSON.\<close>

definition bson_movie :: "movie \<Rightarrow> movie" where
  "bson_movie m = m\<lparr>mv_released := bson_date (mv_released m)\<rparr>"

definition addMovie :: "movie \<Rightarrow> movies \<Rightarrow> (db_error + insert_result) \<times> movies" where
  "addMovie data c = apfst Inr (insertOne (bson_movie data) c)"

lemma bson_movie_fields [simp]:
  "mv_title (bson_movie m) = mv_title m" "mv_year (bson_movie m) = mv_year m"
  "mv_fullplot (bson_movie m) = mv_fullplot m" "mv_genres (bson_movie m) = mv_genres m"
  "mv_imdb (bson_movie m) = mv_imdb m" "mv_poster (bson_movie m) = mv_poster m"
  "mv_runtime (bson_movie m) = mv_runtime m" "mv_released (bson_movie m) = bson_date (mv_released m)"
  "mv_rated (bson_movie m) = mv_rated m" "mv_lastupdated (bson_movie m) = mv_lastupdated m"
  "mv_lastUpdated (bson_movie m) = mv_lastUpdated m" "mv_type (bson_movie m) = mv_type m"
  by (simp_all add: bson_movie_def)

lemma bson_movie_id: "mv_released m \<noteq> Invalid_Date \<Longrightarrow> bson_movie m = m"
  by (cases "mv_released m") (simp_all add: bson_movie_def)

section \<open>MoviesController\<close>

text \<open>The query string of \<open>GET /movies\<close>; an absent or empty parameter is \<open>None\<close>.\<close>

record movies_query =
  q_moviesPerPage :: "string option"
  q_page :: "string option"
  q_title :: "string option"
  q_genres :: "string option"
  q_rated :: "string option"
  q_year :: "string option"

definition apiGetMovies :: "movies_query \<Rightarrow> movies \<Rightarrow> (oid \<times> movie) list http_response" where
  "apiGetMovies query c =
     (let moviesPerPage = (case q_moviesPerPage query of Some s \<Rightarrow> js_parseInt_radix 10 s | None \<Rightarrow> Some 21);
          page = (case q_page query of Some s \<Rightarrow> js_parseInt_radix 10 s | None \<Rightarrow> Some 0);
          filters = \<lparr>f_title = map_option QStr (q_title query), f_genres = map_option QStr (q_genres query),
                     f_rated = map_option QStr (q_rated query), f_year = map_option QStr (q_year query)\<rparr>
      in Ok (getMovies filters page moviesPerPage c))"

definition apiGetMoviesById :: "string \<Rightarrow> movies \<Rightarrow> reviews \<Rightarrow> movie_view http_response" where
  "apiGetMoviesById mid ms rs =
     (case getMoviesByID (IdStr mid) ms rs of
        Inl _ \<Rightarrow> Http_error 500 ''BSONTypeError''
      | Inr None \<Rightarrow> Http_error 404 ''Movie Not Found''
      | Inr (Some v) \<Rightarrow> Ok v)"

definition apiGetGenres :: "movies \<Rightarrow> string list http_response" where
  "apiGetGenres c = Ok (getGenres c)"

definition apiGetRated :: "movies \<Rightarrow> string list http_response" where
  "apiGetRated c = Ok (getRated c)"

text \<open>
  The body of \<open>POST /addMovie\<close>; \<open>imdb\<close> is what \<open>data.imdb + ""\<close> gives, the
  comma-separated \<open>rating,votes,id\<close>.
\<close>

record movie_body =
  mb_title :: string
  mb_year :: string
  mb_fullplot :: string
  mb_genres :: "string list"
  mb_imdb :: string
  mb_poster :: string
  mb_runtime :: string
  mb_released :: string
  mb_rated :: string

definition movie_of_body :: "timestamp \<Rightarrow> movie_body \<Rightarrow> movie" where
  "movie_of_body now data =
     (let imdb = split_on CHR '','' (mb_imdb data);
          imdbInfo = \<lparr>im_rating = js_parseFloat_opt (js_index imdb 0),
                      im_votes = js_parseInt_opt (js_index imdb 1),
                      im_id = js_parseInt_opt (js_index imdb 2)\<rparr>;
          releasedArr = split_on CHR ''-'' (mb_released data);
          releasedDate =
            new_Date3 (js_Number_opt (js_index releasedArr 0))
                      (map_option (\<lambda>m. m - 1) (js_Number_opt (js_index releasedArr 1)))
                      (js_Number_opt (js_index releasedArr 2))
      in \<lparr>mv_title = mb_title data, mv_year = js_parseInt (mb_year data),
          mv_fullplot = Some (mb_fullplot data), mv_genres = mb_genres data,
          mv_imdb = Some imdbInfo, mv_poster = Some (mb_poster data),
          mv_runtime = js_parseInt (mb_runtime data), mv_released = releasedDate,
          mv_rated = Some (mb_rated data), mv_lastupdated = None, mv_lastUpdated = Some now,
          mv_type = ''movie''\<rparr>)"

definition apiAddMovie :: "timestamp \<Rightarrow> movie_body \<Rightarrow> movies \<Rightarrow> string http_response \<times> movies" where
  "apiAddMovie now data c =
     (let (addMovie, c') = addMovie (movie_of_body now data) c in (Ok ''success'', c'))"

section \<open>ReviewsCtrl.apiGetUserReviewMovies\<close>

text \<open>
  For each of the user's reviews (by descending stars) the movie it reviews, looked up
  by the stored id; \<open>null\<close> where that movie no longer exists.
\<close>

definition apiGetUserReviewMovies ::
  "email \<Rightarrow> movies \<Rightarrow> reviews \<Rightarrow> movie_view option list http_response" where
  "apiGetUserReviewMovies user_id ms rs =
     (let reviewsList = getReviewsByUser user_id rs;
          moviesReviewed = map (\<lambda>(_, r). getMoviesByID (IdObj (rv_movie_id r)) ms rs) reviewsList
      in if list_all (\<lambda>x. \<exists>v. x = Inr v) moviesReviewed
         then Ok (map (\<lambda>x. case x of Inr v \<Rightarrow> v | Inl _ \<Rightarrow> None) moviesReviewed)
         else Http_error 500 ''BSONTypeError'')"

section \<open>Samples\<close>

abbreviation movie_cursor :: "movie_filters \<Rightarrow> movies \<Rightarrow> (oid \<times> movie) list" where
  "movie_cursor filters c \<equiv> sort_desc imdb_key (find_coll (\<lambda>_ m. movie_query filters m) c)"

definition empty_query :: movies_query where
  "empty_query = \<lparr>q_moviesPerPage = None, q_page = None, q_title = None, q_genres = None,
     q_rated = None, q_year = None\<rparr>"

definition sample_movie :: movie where
  "sample_movie = \<lparr>mv_title = ''Heat'', mv_year = Some 1995, mv_fullplot = Some ''A heist.'',
     mv_genres = [''Crime'', ''Drama''],
     mv_imdb = Some \<lparr>im_rating = Some (83/10), im_votes = Some 500, im_id = Some 113277\<rparr>,
     mv_poster = None, mv_runtime = Some 170, mv_released = Date_ymd 1995 11 15, mv_rated = Some ''R'',
     mv_lastupdated = Some ''2015-09-01'', mv_lastUpdated = None, mv_type = ''movie''\<rparr>"

definition sample_movie2 :: movie where
  "sample_movie2 = sample_movie\<lparr>mv_title := ''Heat 2'',
     mv_imdb := Some \<lparr>im_rating = Some 7, im_votes = Some 9, im_id = Some 5\<rparr>\<rparr>"

definition sample_movies :: movies where
  "sample_movies = \<lparr>docs = [(7, sample_movie2), (8, sample_movie)], next_oid = 9\<rparr>"

section \<open>Pagination\<close>

lemma cursor_window_page:
  "0 < n \<Longrightarrow> 1 \<le> p \<Longrightarrow>
   cursor_window (Some n) (Some (n * (p - 1))) xs = Some (take (nat n) (drop (nat (n * (p - 1))) xs))"
  by (simp add: cursor_window_def not_less)

lemma cursor_window_subset:
  "set (case cursor_window l s xs of Some ys \<Rightarrow> ys | None \<Rightarrow> []) \<subseteq> set xs"
  by (auto simp: cursor_window_def split: option.splits prod.splits if_splits
      dest: in_set_takeD in_set_dropD)

lemma cursor_window_sorted:
  "sorted_wrt R xs \<Longrightarrow> sorted_wrt R (case cursor_window l s xs of Some ys \<Rightarrow> ys | None \<Rightarrow> [])"
  by (auto simp: cursor_window_def sorted_wrt_take sorted_wrt_drop split: option.splits prod.splits)

lemma getMovies_page0: "getMovies filters (Some 0) n c = getMovies filters (Some 1) n c"
  by (simp add: getMovies_def)

lemma getMovies_window:
  "0 < n \<Longrightarrow> 1 \<le> p \<Longrightarrow>
   getMovies filters (Some p) (Some n) c = take (nat n) (drop (nat (n * (p - 1))) (movie_cursor filters c))"
  by (simp add: getMovies_def cursor_window_page Let_def)

text \<open>C5: a page \<open>p \<ge> 1\<close> of \<open>n > 0\<close> movies is the slice \<open>[n(p-1), np)\<close> of the matching movies sorted by descending \<open>imdb\<close>.\<close>

theorem getMovies_page:
  assumes "0 < n" and "1 \<le> p"
  shows "getMovies filters (Some p) (Some n) c =
         take (nat n) (drop (nat n * (nat p - 1)) (movie_cursor filters c))"
proof -
  have "nat (n * (p - 1)) = nat n * (nat p - 1)"
    using assms by (simp add: nat_mult_distrib nat_diff_distrib)
  with assms show ?thesis
    by (simp add: getMovies_window)
qed

lemma imdb_key_samples [simp]:
  "imdb_key sample_movie = Some (Some (83/10), Some 500, Some 113277)"
  "imdb_key sample_movie2 = Some (Some 7, Some 9, Some 5)"
  by (simp_all add: imdb_key_def sample_movie2_def sample_movie_def)

lemma sample_movie_fields [simp]:
  "mv_fullplot sample_movie = Some ''A heist.''" "mv_title sample_movie = ''Heat''"
  "mv_year sample_movie = Some 1995" "mv_lastupdated sample_movie = Some ''2015-09-01''"
  by (simp_all add: sample_movie_def)

lemma movie_query_no_filters [simp]: "movie_query no_filters m"
  by (simp add: movie_query_def no_filters_def)

lemma movie_cursor_sample: "movie_cursor no_filters sample_movies = [(8, sample_movie), (7, sample_movie2)]"
  by (simp add: sample_movies_def sort_desc_def find_coll_def)

theorem getMovies_page_witness:
  "0 < (1::int) \<and> (1::int) \<le> 2 \<and> getMovies no_filters (Some 2) (Some 1) sample_movies = [(7, sample_movie2)]"
  using getMovies_page [of 1 2 no_filters sample_movies] by (simp only: movie_cursor_sample) simp

text \<open>C11: reading pages \<open>1..k\<close> one after another yields the first \<open>n k\<close> matching movies, each once and in order.\<close>

theorem getMovies_pages_concat:
  assumes "0 < n"
  shows "concat (map (\<lambda>p. getMovies filters (Some (int p)) (Some n) c) [1..<Suc k]) =
         take (nat n * k) (movie_cursor filters c)"
proof (induction k)
  case 0
  then show ?case by simp
next
  case (Suc k)
  have "take (nat n * k) xs @ take (nat n) (drop (nat n * k) xs) = take (nat n * Suc k) xs"
    for xs :: "(oid \<times> movie) list"
    by (metis take_add mult_Suc_right add.commute)
  moreover have "getMovies filters (Some (int (Suc k))) (Some n) c =
      take (nat n) (drop (nat n * k) (movie_cursor filters c))"
    using getMovies_window [OF assms, of "int (Suc k)"] assms by (simp add: nat_mult_distrib)
  ultimately show ?case
    using Suc by simp
qed

theorem getMovies_pages_concat_witness:
  "0 < (1::int) \<and>
   concat (map (\<lambda>p. getMovies no_filters (Some (int p)) (Some 1) sample_movies) [1..<Suc 2])
     = [(8, sample_movie), (7, sample_movie2)]"
  using getMovies_pages_concat [of 1 no_filters sample_movies 2] by (simp only: movie_cursor_sample) simp

text \<open>C6: every movie \<open>getMovies\<close> returns is a stored movie that satisfies the filters, and the list is sorted by descending \<open>imdb\<close>, whatever the page and page size.\<close>

theorem getMovies_sound_sorted:
  "set (getMovies filters page n c) \<subseteq> {(i, m). (i, m) \<in> set (docs c) \<and> movie_query filters m}
   \<and> sorted_wrt (\<lambda>a b. imdb_key (snd b) \<le> imdb_key (snd a)) (getMovies filters page n c)"
proof
  have "set (getMovies filters page n c) \<subseteq> set (movie_cursor filters c)"
    unfolding getMovies_def Let_def by (rule cursor_window_subset)
  then show "set (getMovies filters page n c) \<subseteq> {(i, m). (i, m) \<in> set (docs c) \<and> movie_query filters m}"
    by (auto simp: find_coll_def)
  show "sorted_wrt (\<lambda>a b. imdb_key (snd b) \<le> imdb_key (snd a)) (getMovies filters page n c)"
    unfolding getMovies_def Let_def by (rule cursor_window_sorted [OF sorted_sort_desc])
qed

text \<open>C14: \<open>GET /movies?moviesPerPage=0\<close> answers every matching movie: the server reads limit 0 as no limit.\<close>

theorem apiGetMovies_limit0_all:
  assumes "case q_page query of None \<Rightarrow> True | Some s \<Rightarrow> js_parseInt_radix 10 s \<noteq> None"
  shows "apiGetMovies (query\<lparr>q_moviesPerPage := Some ''0''\<rparr>) c =
     Ok (movie_cursor \<lparr>f_title = map_option QStr (q_title query), f_genres = map_option QStr (q_genres query),
                       f_rated = map_option QStr (q_rated query), f_year = map_option QStr (q_year query)\<rparr> c)"
proof -
  have "js_parseInt_radix 10 ''0'' = Some 0"
    by (simp add: js_eval)
  with assms show ?thesis
    by (auto simp: apiGetMovies_def getMovies_def cursor_window_def Let_def split: option.split)
qed

theorem apiGetMovies_limit0_all_witness:
  "apiGetMovies (empty_query\<lparr>q_moviesPerPage := Some ''0''\<rparr>) sample_movies =
     Ok [(8, sample_movie), (7, sample_movie2)]"
  using apiGetMovies_limit0_all [of empty_query sample_movies]
  by (simp add: empty_query_def movie_cursor_sample [unfolded no_filters_def])

text \<open>without parameters \<open>GET /movies\<close> answers the first 21 movies by descending \<open>imdb\<close> (page 0 is read as page 1).\<close>

theorem apiGetMovies_default:
  "apiGetMovies empty_query c = Ok (take 21 (movie_cursor no_filters c))"
  using getMovies_window [of 21 1] by (simp add: apiGetMovies_def empty_query_def no_filters_def getMovies_page0)

text \<open>C15: a negative page number makes the skip negative; the driver's error is swallowed and the answer is an empty list.\<close>

theorem getMovies_negative_page:
  "0 < n \<Longrightarrow> p < 0 \<Longrightarrow> getMovies filters (Some p) (Some n) c = []"
  by (simp add: getMovies_def cursor_window_def mult_pos_neg)

theorem getMovies_negative_page_witness:
  "0 < (20::int) \<and> (-1::int) < 0 \<and> getMovies no_filters (Some (-1)) (Some 20) sample_movies = []"
  using getMovies_negative_page [of 20 "-1" no_filters sample_movies] by simp

section \<open>Lookup by id\<close>

lemma getMoviesByID_obj:
  "getMoviesByID (IdObj k) ms rs =
     Inr (map_option (\<lambda>m. (k, m, sort_desc rv_date (find_coll (\<lambda>_ r. rv_movie_id r = k) rs))) (coll_map ms k))"
  by (simp add: getMoviesByID_def split: option.split)

text \<open>\<open>GET /movies/id/:id\<close> answers 500 for a malformed id, 404 for an id no movie has, and otherwise the movie with all its reviews, newest first.\<close>

theorem apiGetMoviesById_cases:
  "apiGetMoviesById s ms rs =
     (case object_id s of
        None \<Rightarrow> Http_error 500 ''BSONTypeError''
      | Some k \<Rightarrow> (case coll_map ms k of
           None \<Rightarrow> Http_error 404 ''Movie Not Found''
         | Some m \<Rightarrow> Ok (k, m, sort_desc rv_date (filter (\<lambda>(_, r). rv_movie_id r = k) (docs rs)))))"
  by (simp add: apiGetMoviesById_def getMoviesByID_def find_coll_def split: option.split)

text \<open>the movies of a user's reviews are looked up by the stored id, one entry per review in the order of \<open>getReviewsByUser\<close>; the entry of a review whose movie is gone is \<open>null\<close>.\<close>

theorem apiGetUserReviewMovies_spec:
  "apiGetUserReviewMovies u ms rs =
     Ok (map (\<lambda>(_, r). map_option (\<lambda>m. (rv_movie_id r, m,
                 sort_desc rv_date (find_coll (\<lambda>_ x. rv_movie_id x = rv_movie_id r) rs)))
               (coll_map ms (rv_movie_id r)))
           (getReviewsByUser u rs))"
  by (simp add: apiGetUserReviewMovies_def getMoviesByID_obj list_all_iff case_prod_unfold comp_def)

section \<open>Adding a movie\<close>

text \<open>\<open>POST /addMovie\<close> stores the parsed movie under a fresh id, stamped in \<open>lastUpdated\<close> (not the \<open>lastupdated\<close> of the preloaded movies), and answers success.\<close>

theorem apiAddMovie_inserts:
  "apiAddMovie now data c =
     (Ok ''success'', \<lparr>docs = docs c @ [(next_oid c, bson_movie (movie_of_body now data))], next_oid = Suc (next_oid c)\<rparr>)
   \<and> mv_lastUpdated (movie_of_body now data) = Some now \<and> mv_lastupdated (movie_of_body now data) = None"
  by (simp add: apiAddMovie_def addMovie_def insertOne_def movie_of_body_def Let_def)

lemma movie_of_body_sample:
  "movie_of_body 5 \<lparr>mb_title = ''Heat'', mb_year = ''1995'', mb_fullplot = ''A heist.'', mb_genres = [''Crime''],
    mb_imdb = ''8.3,500,113277'', mb_poster = '''', mb_runtime = ''170'', mb_released = ''1995-12-15'',
    mb_rated = ''R''\<rparr>
  = \<lparr>mv_title = ''Heat'', mv_year = Some 1995, mv_fullplot = Some ''A heist.'', mv_genres = [''Crime''],
     mv_imdb = Some \<lparr>im_rating = Some (83/10), im_votes = Some 500, im_id = Some 113277\<rparr>, mv_poster = Some '''',
     mv_runtime = Some 170, mv_released = Date_ymd 1995 11 15, mv_rated = Some ''R'',
     mv_lastupdated = None, mv_lastUpdated = Some 5, mv_type = ''movie''\<rparr>"
  by (simp add: movie_of_body_def Let_def js_eval)

end
