(* ===== verification/Accept.thy ===== *)
theory Accept
  imports Requests Movies
begin

text \<open>
  \<open>MovieRequestsCtrl.apiAcceptRequest\<close> (\<open>src/backend/api/movie_requests.controller.js\<close>):
  the only handler that reads two collections.  It looks the newly added movie up with
  \<open>MoviesDAO.getMovies\<close>, filtering on the request's title (a phrase search), year,
  rating and first genre, page 0 of 20, and links the first (best \<open>imdb\<close>) match to the
  request through \<open>MovieRequestsDAO.acceptRequest\<close>.  With no match,
  \<open>moviesList[0]._id\<close> throws and the answer is a 500 error.  The body's year is the
  number stored in the request (\<open>null\<close> for \<open>NaN\<close>), which \<open>getMovies\<close> gives to
  \<open>parseInt\<close> through its string form.
\<close>

record accept_body =
  ab_id :: string
  ab_user_id :: email
  ab_title :: string
  ab_year :: "int option"
  ab_genres :: "string list"
  ab_rated :: string

text \<open>\<open>String(x)\<close> of a stored number: \<open>NaN\<close> arrives as JSON \<open>null\<close>.\<close>

definition js_String_num :: "int option \<Rightarrow> string" where
  "js_String_num y = (case y of Some n \<Rightarrow> string_of_int n | None \<Rightarrow> ''null'')"

definition accept_filters :: "accept_body \<Rightarrow> movie_filters" where
  "accept_filters b =
     \<lparr>f_title = Some (QStr (ab_title b)),
      f_genres = Some (case ab_genres b of [] \<Rightarrow> QUndefined | g # _ \<Rightarrow> QStr g),
      f_rated = Some (QStr (ab_rated b)),
      f_year = Some (QStr (js_String_num (ab_year b)))\<rparr>"

definition accept_error_message :: string where
  "accept_error_message = ''Cannot read properties of undefined (reading _id)''"

definition apiAcceptRequest :: "accept_body \<Rightarrow> movies \<Rightarrow> requests \<Rightarrow> string http_response \<times> requests" where
  "apiAcceptRequest b ms rs =
     (let acceptedMovie = getMovies (accept_filters b) (Some 0) (Some 20) ms
      in case acceptedMovie of
           [] \<Rightarrow> (Http_error 500 accept_error_message, rs)
         | (mid, _) # _ \<Rightarrow>
             (let (acceptStatus, rs') = acceptRequest (ab_id b) (ab_user_id b) mid rs
              in (success_or_fail (modified_one acceptStatus), rs')))"

text \<open>The update \<open>acceptRequest\<close> applies to the request document.\<close>

definition accept_update :: "oid \<Rightarrow> movie_request \<Rightarrow> movie_request" where
  "accept_update mid d = d\<lparr>rq_status := ''accepted'', rq_movie_id := Some mid\<rparr>"

section \<open>Samples\<close>

definition heat_body :: accept_body where
  "heat_body = \<lparr>ab_id = oid_hex 7, ab_user_id = ''ann@mail.com'', ab_title = ''Heat'', ab_year = Some 1995,
     ab_genres = [''Crime''], ab_rated = ''R''\<rparr>"

definition denied_requests :: requests where
  "denied_requests = \<lparr>docs = [(7, sample_request\<lparr>rq_status := ''denied''\<rparr>)], next_oid = 8\<rparr>"

section \<open>The lookup filter\<close>

lemma js_parseInt_null: "js_parseInt ''null'' = None"
  by (simp add: js_eval)

lemma js_String_num_parse: "js_parseInt (js_String_num y) = y"
  by (cases y) (simp_all only: js_String_num_def option.case js_parseInt_string_of_int js_parseInt_null)

text \<open>
  the filter \<open>apiAcceptRequest\<close> builds selects exactly the movies whose title contains
  the request's title as a phrase, whose first-genre, rating and year equal the request's:
  the year survives the round trip through \<open>String\<close> and \<open>parseInt\<close>, \<open>NaN\<close> included.
\<close>

theorem accept_filters_match:
  "movie_query (accept_filters b) m \<longleftrightarrow>
     text_phrase_match (ab_title b) m
     \<and> (case ab_genres b of [] \<Rightarrow> False | g # _ \<Rightarrow> g \<in> set (mv_genres m))
     \<and> mv_rated m = Some (ab_rated b) \<and> mv_year m = ab_year b"
  by (simp add: movie_query_def accept_filters_def qval_string_def js_String_num_parse split: list.split)

lemma getMovies_first_page_20:
  "getMovies filters (Some 0) (Some 20) c = take 20 (movie_cursor filters c)"
  using getMovies_window [of 20 1 filters c] by (simp add: getMovies_page0)

lemma take_hd_cases:
  "(case take 20 xs of [] \<Rightarrow> a | (x, _) # _ \<Rightarrow> f x) = (case xs of [] \<Rightarrow> a | (x, _) # _ \<Rightarrow> f x)"
  by (cases xs) simp_all

text \<open>
  C17: on a well-formed collection, \<open>apiAcceptRequest\<close> answers 500 and changes nothing
  when no movie matches; otherwise it implements the owner-guarded update contract that
  sets the status to \<open>"accepted"\<close> and links the first match, the best by \<open>imdb\<close>.
\<close>

theorem apiAcceptRequest_refines:
  assumes "coll_wf rs"
  shows "fst (apiAcceptRequest b ms rs) =
           (case movie_cursor (accept_filters b) ms of
              [] \<Rightarrow> Http_error 500 accept_error_message
            | (mid, _) # _ \<Rightarrow> success_or_fail (fst (owner_update_outcome rq_user_id (accept_update mid)
                                                   (ab_id b) (ab_user_id b) (coll_map rs))))
         \<and> coll_map (snd (apiAcceptRequest b ms rs)) =
           (case movie_cursor (accept_filters b) ms of
              [] \<Rightarrow> coll_map rs
            | (mid, _) # _ \<Rightarrow> snd (owner_update_outcome rq_user_id (accept_update mid)
                                   (ab_id b) (ab_user_id b) (coll_map rs)))"
proof (cases "movie_cursor (accept_filters b) ms")
  case Nil
  then show ?thesis
    by (simp add: apiAcceptRequest_def getMovies_first_page_20)
next
  case (Cons x xs)
  obtain mid m where x: "x = (mid, m)" by fastforce
  have "acceptRequest (ab_id b) (ab_user_id b) mid rs
        = owner_updateOne rq_user_id (accept_update mid) (ab_id b) (ab_user_id b) rs"
    by (simp add: request_daos_owner_guarded accept_update_def [abs_def])
  with Cons x show ?thesis
    using request_update_handler [OF assms, where f = "accept_update mid" and s = "ab_id b" and u = "ab_user_id b"]
    by (simp add: apiAcceptRequest_def getMovies_first_page_20 let_pair_fst_snd)
qed

lemma heat_cursor:
  "movie_cursor (accept_filters heat_body) sample_movies = [(8, sample_movie), (7, sample_movie2)]"
  by (simp add: movie_query_def accept_filters_def qval_string_def js_String_num_parse heat_body_def sample_movies_def sort_desc_def find_coll_def
      text_phrase_match_def sample_movie2_def sample_movie_def ascii_lower_def Let_def sublist_Cons_right
      imdb_key_def)

lemma heat_body_fields [simp]: "ab_id heat_body = oid_hex 7" "ab_user_id heat_body = ''ann@mail.com''"
  by (simp_all add: heat_body_def)

theorem apiAcceptRequest_refines_witness:
  "coll_wf sample_requests
   \<and> fst (apiAcceptRequest heat_body sample_movies sample_requests) = Ok ''success''
   \<and> coll_map (snd (apiAcceptRequest heat_body sample_movies sample_requests))
       = (coll_map sample_requests)(7 \<mapsto> accept_update 8 sample_request)"
proof -
  have "rq_user_id sample_request = ''ann@mail.com''" "accept_update 8 sample_request \<noteq> sample_request"
    by (simp_all add: sample_request_def accept_update_def)
  then show ?thesis
    using apiAcceptRequest_refines [OF coll_wf_sample_requests, of heat_body sample_movies]
    by (simp add: heat_cursor owner_update_outcome_def success_or_fail_def)
qed

text \<open>
  C18: \<open>apiAcceptRequest\<close> does not look at the request's status: the owner's request is
  marked accepted and linked to the first match whatever its status was, a denied
  request included, and the answer is \<open>"success"\<close> unless it was already accepted with
  that movie.
\<close>

theorem accept_ignores_status:
  assumes "coll_wf rs" "object_id (ab_id b) = Some k" "coll_map rs k = Some r" "rq_user_id r = ab_user_id b"
    and "movie_cursor (accept_filters b) ms = (mid, m) # rest" and "rq_status r \<noteq> ''accepted''"
  shows "fst (apiAcceptRequest b ms rs) = Ok ''success''
         \<and> coll_map (snd (apiAcceptRequest b ms rs))
           = (coll_map rs)(k \<mapsto> r\<lparr>rq_status := ''accepted'', rq_movie_id := Some mid\<rparr>)"
proof -
  have "acceptRequest (ab_id b) (ab_user_id b) mid rs
        = owner_updateOne rq_user_id (accept_update mid) (ab_id b) (ab_user_id b) rs"
    by (simp add: request_daos_owner_guarded accept_update_def [abs_def])
  then show ?thesis
    using request_update_handler [OF assms(1), where f = "accept_update mid" and s = "ab_id b" and u = "ab_user_id b"]
      assms(2-6)
    by (simp add: apiAcceptRequest_def getMovies_first_page_20 let_pair_fst_snd owner_update_outcome_def
        success_or_fail_def accept_update_def)
qed

theorem accept_ignores_status_witness:
  "coll_wf denied_requests \<and> object_id (ab_id heat_body) = Some 7
   \<and> coll_map denied_requests 7 = Some (sample_request\<lparr>rq_status := ''denied''\<rparr>)
   \<and> rq_user_id (sample_request\<lparr>rq_status := ''denied''\<rparr>) = ab_user_id heat_body
   \<and> movie_cursor (accept_filters heat_body) sample_movies = (8, sample_movie) # [(7, sample_movie2)]
   \<and> rq_status (sample_request\<lparr>rq_status := ''denied''\<rparr>) \<noteq> ''accepted''
   \<and> fst (apiAcceptRequest heat_body sample_movies denied_requests) = Ok ''success''"
proof -
  have h: "coll_wf denied_requests" "object_id (ab_id heat_body) = Some 7"
    "coll_map denied_requests 7 = Some (sample_request\<lparr>rq_status := ''denied''\<rparr>)"
    "rq_user_id (sample_request\<lparr>rq_status := ''denied''\<rparr>) = ab_user_id heat_body"
    "movie_cursor (accept_filters heat_body) sample_movies = (8, sample_movie) # [(7, sample_movie2)]"
    "rq_status (sample_request\<lparr>rq_status := ''denied''\<rparr>) \<noteq> ''accepted''"
    by (simp_all add: denied_requests_def coll_wf_def sample_request_def heat_cursor)
  show ?thesis
    using accept_ignores_status [OF h] h by simp
qed

end
