(* ===== verification/Lifecycle.thy ===== *)
theory Lifecycle
  imports Accept
begin

text \<open>
  The life of a movie request across the endpoints that change it: \<open>POST /addRequest\<close>
  (\<open>apiSendRequest\<close>), \<open>PUT /denyRequest\<close>, \<open>PUT /deactivateRequest\<close>,
  \<open>PUT /acceptRequest\<close>, \<open>DELETE /deleteRequest\<close>, and \<open>POST /addMovie\<close>, which the
  accept flow calls first.  The state is the pair of collections these handlers touch;
  one step is one handler run to completion (Node runs each handler's database calls in
  sequence, and the model takes the interleaving of whole handlers).  The frontend's
  request form (\<open>movie-form.js\<close>) always sends \<open>status: "pending"\<close> and
  \<open>active: true\<close>; the backend accepts any status.  \<open>reachable_db\<close> is the set of states
  reached from empty collections by sends of that form and any other operation.
\<close>

record db =
  db_movies :: movies
  db_requests :: requests

datatype request_op =
    SendReq timestamp request_body
  | DenyReq string email
  | DeactivateReq string email
  | AcceptReq accept_body
  | DeleteReq string email
  | AddMovieOp timestamp movie_body

fun db_step :: "request_op \<Rightarrow> db \<Rightarrow> db" where
  "db_step (SendReq now b) s = s\<lparr>db_requests := snd (apiSendRequest now b (db_requests s))\<rparr>"
| "db_step (DenyReq i u) s = s\<lparr>db_requests := snd (apiDenyRequest i u (db_requests s))\<rparr>"
| "db_step (DeactivateReq i u) s = s\<lparr>db_requests := snd (apiDeactivateRequest i u (db_requests s))\<rparr>"
| "db_step (AcceptReq b) s = s\<lparr>db_requests := snd (apiAcceptRequest b (db_movies s) (db_requests s))\<rparr>"
| "db_step (DeleteReq i u) s = s\<lparr>db_requests := snd (apiDeleteRequest i u (db_requests s))\<rparr>"
| "db_step (AddMovieOp now b) s = s\<lparr>db_movies := snd (apiAddMovie now b (db_movies s))\<rparr>"

text \<open>The bodies the request form sends (\<open>movie-form.js\<close>, \<open>status\<close> and \<open>active\<close>).\<close>

definition frontend_send :: "request_body \<Rightarrow> bool" where
  "frontend_send b \<longleftrightarrow> b_status b = ''pending'' \<and> b_active b"

fun op_allowed :: "request_op \<Rightarrow> bool" where
  "op_allowed (SendReq _ b) = frontend_send b"
| "op_allowed _ = True"

definition empty_db :: db where
  "empty_db = \<lparr>db_movies = empty_coll, db_requests = empty_coll\<rparr>"

inductive reachable_db :: "db \<Rightarrow> bool" where
  init: "reachable_db empty_db"
| step: "reachable_db s \<Longrightarrow> op_allowed op \<Longrightarrow> reachable_db (db_step op s)"

text \<open>What a stored request looks like in every reachable state.\<close>

definition request_ok :: "movie_request \<Rightarrow> bool" where
  "request_ok r \<longleftrightarrow> rq_status r \<in> {''pending'', ''denied'', ''accepted''}
                     \<and> (rq_status r = ''accepted'' \<longrightarrow> rq_movie_id r \<noteq> None)"

definition db_inv :: "db \<Rightarrow> bool" where
  "db_inv s \<longleftrightarrow> coll_wf (db_movies s) \<and> coll_wf (db_requests s)
                \<and> (\<forall>r \<in> ran (coll_map (db_requests s)). request_ok r)"

section \<open>A sample trace\<close>

text \<open>
  The admin adds a movie, a user asks for it, the admin accepts the request (which links
  the movie) and then denies it.
\<close>

definition heat_movie_body :: movie_body where
  "heat_movie_body = \<lparr>mb_title = ''Heat'', mb_year = ''1995'', mb_fullplot = ''A heist.'', mb_genres = [''Crime''],
     mb_imdb = ''8.3,500,113277'', mb_poster = '''', mb_runtime = ''170'', mb_released = ''1995-12-15'',
     mb_rated = ''R''\<rparr>"

definition heat_request_body :: request_body where
  "heat_request_body = \<lparr>b_title = ''Heat'', b_year = ''1995'', b_fullplot = ''A heist.'',
     b_genres = [''Crime''], b_runtime = ''170'', b_released = ''1995-12-15'', b_rated = ''R'',
     b_user_id = ''ann@mail.com'', b_status = ''pending'', b_active = True\<rparr>"

definition heat_accept_body :: accept_body where
  "heat_accept_body = \<lparr>ab_id = oid_hex 0, ab_user_id = ''ann@mail.com'', ab_title = ''Heat'',
     ab_year = Some 1995, ab_genres = [''Crime''], ab_rated = ''R''\<rparr>"

definition heat_movie :: movie where
  "heat_movie = movie_of_body 5 heat_movie_body"

definition heat_request :: movie_request where
  "heat_request = request_of_body 6 heat_request_body"

definition accept_then_deny :: "request_op list" where
  "accept_then_deny = [AddMovieOp 5 heat_movie_body, SendReq 6 heat_request_body,
     AcceptReq heat_accept_body, DenyReq (oid_hex 0) ''ann@mail.com'']"

inductive_cases reachable_db_stepE: "reachable_db s"

section \<open>Every handler keeps the invariant\<close>

lemma request_ok_updates:
  "request_ok r \<Longrightarrow> request_ok (r\<lparr>rq_status := ''denied''\<rparr>)"
  "request_ok r \<Longrightarrow> request_ok (r\<lparr>rq_active := False\<rparr>)"
  "request_ok (accept_update mid r)"
  by (simp_all add: request_ok_def accept_update_def)

lemma coll_wf_handlers:
  assumes "coll_wf rs"
  shows "coll_wf (snd (apiSendRequest now b rs))" "coll_wf (snd (apiDenyRequest i u rs))"
    "coll_wf (snd (apiDeactivateRequest i u rs))" "coll_wf (snd (apiDeleteRequest i u rs))"
    "coll_wf (snd (apiAcceptRequest ab ms rs))"
  using assms
  by (auto simp: apiSendRequest_def addRequest_def apiDenyRequest_def apiDeactivateRequest_def
      apiDeleteRequest_def apiAcceptRequest_def request_daos_owner_guarded let_pair_fst_snd
      coll_wf_owner_updateOne coll_wf_owner_deleteOne split: list.split prod.split)

lemma ran_update_ok: "\<forall>d \<in> ran m. P d \<Longrightarrow> P v \<Longrightarrow> \<forall>d \<in> ran (m(k \<mapsto> v)). P d"
  by (auto simp: ran_def)

lemma apiSendRequest_map:
  "coll_wf rs \<Longrightarrow>
   coll_map (snd (apiSendRequest now b rs)) = (coll_map rs)(next_oid rs \<mapsto> bson_request (request_of_body now b))"
  by (simp add: apiSendRequest_def addRequest_def let_pair_fst_snd)

lemma request_of_body_status: "rq_status (request_of_body now b) = b_status b"
  by (simp add: request_of_body_def Let_def)

lemma owner_update_handler_map:
  assumes "coll_wf rs" "\<forall>r \<in> ran (coll_map rs). request_ok r" "\<And>r. request_ok r \<Longrightarrow> request_ok (f r)"
  shows "\<forall>r \<in> ran (coll_map (snd (owner_updateOne rq_user_id f i u rs))). request_ok r"
proof -
  have "coll_map (snd (owner_updateOne rq_user_id f i u rs)) = snd (owner_update_outcome rq_user_id f i u (coll_map rs))"
    using request_update_handler [OF assms(1), where f = f and s = i and u = u] by simp
  then show ?thesis
    using ran_owner_update_outcome [OF assms(2), where f = f and own = rq_user_id and s = i and u = u] assms(3)
    by simp
qed

lemma send_keeps_ok:
  "coll_wf rs \<Longrightarrow> \<forall>r \<in> ran (coll_map rs). request_ok r \<Longrightarrow> frontend_send b \<Longrightarrow>
   \<forall>r \<in> ran (coll_map (snd (apiSendRequest now b rs))). request_ok r"
  unfolding apiSendRequest_map
  by (rule ran_update_ok) (simp_all add: request_ok_def request_of_body_status frontend_send_def)

lemma deny_keeps_ok:
  "coll_wf rs \<Longrightarrow> \<forall>r \<in> ran (coll_map rs). request_ok r \<Longrightarrow>
   \<forall>r \<in> ran (coll_map (snd (apiDenyRequest i u rs))). request_ok r"
  unfolding apiDenyRequest_def request_daos_owner_guarded let_pair_fst_snd snd_conv
  by (rule owner_update_handler_map) (simp_all add: request_ok_updates)

lemma deactivate_keeps_ok:
  "coll_wf rs \<Longrightarrow> \<forall>r \<in> ran (coll_map rs). request_ok r \<Longrightarrow>
   \<forall>r \<in> ran (coll_map (snd (apiDeactivateRequest i u rs))). request_ok r"
  unfolding apiDeactivateRequest_def request_daos_owner_guarded let_pair_fst_snd snd_conv
  by (rule owner_update_handler_map) (simp_all add: request_ok_updates)

lemma delete_keeps_ok:
  assumes "coll_wf rs" "\<forall>r \<in> ran (coll_map rs). request_ok r"
  shows "\<forall>r \<in> ran (coll_map (snd (apiDeleteRequest i u rs))). request_ok r"
proof -
  have "coll_map (snd (owner_deleteOne rq_user_id i u rs)) = snd (owner_delete_outcome rq_user_id i u (coll_map rs))"
    using owner_deleteOne_refines [OF assms(1), where own = rq_user_id and s = i and u = u] by simp
  then show ?thesis
    unfolding apiDeleteRequest_def request_daos_owner_guarded let_pair_fst_snd snd_conv
    using ran_owner_delete_outcome [OF assms(2), where own = rq_user_id and s = i and u = u] by simp
qed

lemma accept_keeps_ok:
  assumes "coll_wf rs" "\<forall>r \<in> ran (coll_map rs). request_ok r"
  shows "\<forall>r \<in> ran (coll_map (snd (apiAcceptRequest b ms rs))). request_ok r"
proof (cases "movie_cursor (accept_filters b) ms")
  case Nil
  then have "snd (apiAcceptRequest b ms rs) = rs"
    by (simp add: apiAcceptRequest_def getMovies_first_page_20)
  with assms(2) show ?thesis
    by simp
next
  case (Cons x xs)
  obtain mid m where x: "x = (mid, m)" by fastforce
  have "acceptRequest (ab_id b) (ab_user_id b) mid rs
        = owner_updateOne rq_user_id (accept_update mid) (ab_id b) (ab_user_id b) rs"
    by (simp add: request_daos_owner_guarded accept_update_def [abs_def])
  with Cons x have "snd (apiAcceptRequest b ms rs)
      = snd (owner_updateOne rq_user_id (accept_update mid) (ab_id b) (ab_user_id b) rs)"
    by (simp add: apiAcceptRequest_def getMovies_first_page_20 let_pair_fst_snd)
  then show ?thesis
    using owner_update_handler_map [OF assms, of "accept_update mid" "ab_id b" "ab_user_id b"]
    by (simp add: request_ok_updates(3))
qed

lemma requests_ok_step:
  assumes wf: "coll_wf rs" and ok: "\<forall>r \<in> ran (coll_map rs). request_ok r" and allowed: "op_allowed op"
  shows "\<forall>r \<in> ran (coll_map (db_requests (db_step op \<lparr>db_movies = ms, db_requests = rs\<rparr>))). request_ok r"
  using allowed send_keeps_ok [OF wf ok] deny_keeps_ok [OF wf ok] deactivate_keeps_ok [OF wf ok]
    delete_keeps_ok [OF wf ok] accept_keeps_ok [OF wf ok] ok
  by (cases op) simp_all

lemma coll_wf_apiAddMovie: "coll_wf ms \<Longrightarrow> coll_wf (snd (apiAddMovie now b ms))"
  by (simp add: apiAddMovie_def addMovie_def let_pair_fst_snd coll_wf_insertOne)

lemma db_inv_step: "db_inv s \<Longrightarrow> op_allowed op \<Longrightarrow> db_inv (db_step op s)"
proof -
  assume inv: "db_inv s" and allowed: "op_allowed op"
  obtain ms rs where s: "s = \<lparr>db_movies = ms, db_requests = rs\<rparr>"
    by (cases s) simp
  have wf: "coll_wf ms" "coll_wf rs" and ok: "\<forall>r \<in> ran (coll_map rs). request_ok r"
    using inv s by (simp_all add: db_inv_def)
  have "coll_wf (db_movies (db_step op s)) \<and> coll_wf (db_requests (db_step op s))"
    using wf s by (cases op) (simp_all add: coll_wf_handlers coll_wf_apiAddMovie)
  with requests_ok_step [OF wf(2) ok allowed, of ms] s show ?thesis
    by (simp add: db_inv_def)
qed

text \<open>
  C16: in every state reachable through the endpoints, with requests sent by the frontend's
  form, both collections are well formed and every stored request has status pending,
  denied or accepted, and an accepted one carries the id of a movie.
\<close>

theorem reachable_db_inv: "reachable_db s \<Longrightarrow> db_inv s"
proof (induction rule: reachable_db.induct)
  case init
  then show ?case
    by (simp add: db_inv_def empty_db_def empty_coll_def coll_wf_def)
next
  case (step s op)
  then show ?case
    by (simp add: db_inv_step)
qed

theorem reachable_db_inv_witness:
  "reachable_db (db_step (SendReq 6 heat_request_body) empty_db)
   \<and> db_inv (db_step (SendReq 6 heat_request_body) empty_db)"
proof -
  have r: "reachable_db (db_step (SendReq 6 heat_request_body) empty_db)"
    by (rule reachable_db.step [OF reachable_db.init]) (simp add: frontend_send_def heat_request_body_def)
  show ?thesis
    using reachable_db_inv [OF r] r by simp
qed

section \<open>Traces\<close>

lemma reachable_db_run:
  "reachable_db s \<Longrightarrow> \<forall>op \<in> set ops. op_allowed op \<Longrightarrow> reachable_db (foldl (\<lambda>s op. db_step op s) s ops)"
  by (induction ops arbitrary: s) (auto intro: reachable_db.step)

lemma object_id_oid_hex_0 [simp]: "object_id (oid_hex 0) = Some 0"
  by (rule object_id_oid_hex) simp

lemma heat_movie_fields [simp]:
  "mv_title heat_movie = ''Heat''" "mv_year heat_movie = Some 1995" "mv_rated heat_movie = Some ''R''"
  "mv_genres heat_movie = [''Crime'']" "mv_released heat_movie = Date_ymd 1995 11 15"
  by (simp_all add: heat_movie_def heat_movie_body_def movie_of_body_sample)

lemma heat_request_fields [simp]:
  "rq_user_id heat_request = ''ann@mail.com''" "rq_status heat_request = ''pending''"
  "rq_movie_id heat_request = None" "rq_released heat_request = Date_ymd 1995 11 15"
  by (simp_all add: heat_request_def heat_request_body_def request_of_body_def Let_def js_eval)

lemma trace_s1: "db_step (AddMovieOp 5 heat_movie_body) empty_db =
   \<lparr>db_movies = \<lparr>docs = [(0, heat_movie)], next_oid = Suc 0\<rparr>, db_requests = empty_coll\<rparr>"
  by (simp add: empty_db_def apiAddMovie_def addMovie_def insertOne_def empty_coll_def bson_movie_id flip: heat_movie_def)

lemma trace_s2: "db_step (SendReq 6 heat_request_body) \<lparr>db_movies = ms, db_requests = empty_coll\<rparr> =
   \<lparr>db_movies = ms, db_requests = \<lparr>docs = [(0, heat_request)], next_oid = Suc 0\<rparr>\<rparr>"
  by (simp add: apiSendRequest_def addRequest_def insertOne_def empty_coll_def bson_request_id flip: heat_request_def)

lemma heat_accept_body_fields [simp]:
  "ab_id heat_accept_body = oid_hex 0" "ab_user_id heat_accept_body = ''ann@mail.com''"
  by (simp_all add: heat_accept_body_def)

lemma heat_cursor0:
  "movie_cursor (accept_filters heat_accept_body) \<lparr>docs = [(0, heat_movie)], next_oid = Suc 0\<rparr> = [(0, heat_movie)]"
  by (simp add: movie_query_def accept_filters_def qval_string_def js_String_num_parse heat_accept_body_def sort_desc_def find_coll_def text_phrase_match_def
      ascii_lower_def Let_def)

lemma trace_s3: "db_step (AcceptReq heat_accept_body)
     \<lparr>db_movies = \<lparr>docs = [(0, heat_movie)], next_oid = Suc 0\<rparr>, db_requests = \<lparr>docs = [(0, heat_request)], next_oid = Suc 0\<rparr>\<rparr> =
   \<lparr>db_movies = \<lparr>docs = [(0, heat_movie)], next_oid = Suc 0\<rparr>,
    db_requests = \<lparr>docs = [(0, accept_update 0 heat_request)], next_oid = Suc 0\<rparr>\<rparr>"
  by (simp add: apiAcceptRequest_def getMovies_first_page_20 heat_cursor0 acceptRequest_def
      updateOne_def accept_update_def)

lemma trace_s4: "db_step (DenyReq (oid_hex 0) ''ann@mail.com'')
     \<lparr>db_movies = ms, db_requests = \<lparr>docs = [(0, accept_update 0 heat_request)], next_oid = Suc 0\<rparr>\<rparr> =
   \<lparr>db_movies = ms,
    db_requests = \<lparr>docs = [(0, (accept_update 0 heat_request)\<lparr>rq_status := ''denied''\<rparr>)], next_oid = Suc 0\<rparr>\<rparr>"
  by (simp add: apiDenyRequest_def denyRequest_def updateOne_def accept_update_def)

text \<open>
  C19: nothing stops the admin from denying a request that was accepted: a reachable state
  has a denied request that still links a movie.  The status moves the interface shows
  (pending to accepted or denied) are not enforced by the backend.
\<close>

theorem accepted_then_denied_keeps_link:
  "\<exists>s k r. reachable_db s \<and> coll_map (db_requests s) k = Some r
           \<and> rq_status r = ''denied'' \<and> rq_movie_id r \<noteq> None"
proof -
  let ?s = "foldl (\<lambda>s op. db_step op s) empty_db accept_then_deny"
  have "\<forall>op \<in> set accept_then_deny. op_allowed op"
    by (simp add: accept_then_deny_def frontend_send_def heat_request_body_def)
  then have "reachable_db ?s"
    by (rule reachable_db_run [OF reachable_db.init])
  moreover have "coll_map (db_requests ?s) 0 = Some ((accept_update 0 heat_request)\<lparr>rq_status := ''denied''\<rparr>)"
    by (simp only: accept_then_deny_def foldl_Cons foldl_Nil trace_s1 trace_s2 trace_s3 trace_s4) simp
  moreover have "rq_status ((accept_update 0 heat_request)\<lparr>rq_status := ''denied''\<rparr>) = ''denied''"
    "rq_movie_id ((accept_update 0 heat_request)\<lparr>rq_status := ''denied''\<rparr>) \<noteq> None"
    by (simp_all add: accept_update_def)
  ultimately show ?thesis
    by blast
qed

end
