(* ===== verification/AddMovie.thy ===== *)
theory AddMovie
  imports Lifecycle
begin

text \<open>
  The request page of the profile, \<open>src/frontend/src/components/add-movie.js\<close>
  (component \<open>AddMovie\<close>): a user sees their own requests, an admin sees all of them and
  accepts, denies or deletes them.  The record \<open>admin_state\<close> holds the component's
  \<open>useState\<close> fields and a log of the alerts shown.  Each handler is composed with the
  backend it calls: its requests run the handlers of theory \<open>Lifecycle\<close> on the pair of
  collections, and their replies are applied at once (the page is used one action at a
  time; other users may change the collections between actions).  The effect runs after
  each action until its dependencies stop changing; \<open>add_movie_effect\<close> is that sequence
  of runs.  The role comes from Auth0 and is a parameter.  Dates are printed as UTC.
\<close>

section \<open>State\<close>

record admin_state =
  isAdmin :: bool
  roleRetrieved :: bool
  am_requests :: "(oid \<times> movie_request) list"
  allRequests :: "(oid \<times> movie_request) list"
  requestsRetrieved :: bool
  allRequestsRetrieved :: bool
  pendingRequests :: nat
  processedRequests :: nat
  acceptedRequest :: "(oid \<times> movie_request) option"
  am_imdb :: "string list"
  poster :: string
  alerts :: "string list"

text \<open>
  \<open>requests\<close> and \<open>allRequests\<close> start as \<open>{}\<close>, which has no \<open>length\<close>: no card is shown,
  as for an empty list.  \<open>imdb\<close> starts as \<open>""\<close> and becomes the array \<open>value.split(",")\<close>;
  both print to the same string, so it is kept as the array (\<open>[""]\<close> for \<open>""\<close>).
\<close>

definition add_movie_init :: admin_state where
  "add_movie_init =
     \<lparr>isAdmin = False, roleRetrieved = False, am_requests = [], allRequests = [],
      requestsRetrieved = False, allRequestsRetrieved = False, pendingRequests = 0, processedRequests = 0,
      acceptedRequest = None, am_imdb = [[]], poster = [], alerts = []\<rparr>"

section \<open>Loading the requests\<close>

text \<open>The loop of \<open>getUserRequests\<close>/\<open>getAllRequests\<close> that counts the active requests.\<close>

fun count_requests :: "(oid \<times> movie_request) list \<Rightarrow> nat \<Rightarrow> nat \<Rightarrow> nat \<times> nat" where
  "count_requests [] pending processed = (pending, processed)"
| "count_requests ((_, r) # rl) pending processed =
     (if rq_status r = ''pending'' \<and> rq_active r then count_requests rl (Suc pending) processed
      else if rq_active r then count_requests rl pending (Suc processed)
      else count_requests rl pending processed)"

definition getUserRole_ui :: "bool \<Rightarrow> admin_state \<Rightarrow> admin_state" where
  "getUserRole_ui role st = st\<lparr>roleRetrieved := True, isAdmin := role\<rparr>"

definition getUserRequests_ui :: "email \<Rightarrow> db \<Rightarrow> admin_state \<Rightarrow> admin_state" where
  "getUserRequests_ui email s st =
     (case apiGetRequests email (db_requests s) of
        Ok rl \<Rightarrow> (let (pending, processed) = count_requests rl 0 0
                 in st\<lparr>am_requests := rl, pendingRequests := pending, processedRequests := processed,
                       requestsRetrieved := True\<rparr>)
      | _ \<Rightarrow> st)"

definition getAllRequests_ui :: "db \<Rightarrow> admin_state \<Rightarrow> admin_state" where
  "getAllRequests_ui s st =
     (case apiGetAllRequests (db_requests s) of
        Ok rl \<Rightarrow> (let (pending, processed) = count_requests rl 0 0
                 in st\<lparr>allRequests := rl, pendingRequests := pending, processedRequests := processed,
                       allRequestsRetrieved := True\<rparr>)
      | _ \<Rightarrow> st)"

text \<open>
  The effect, re-run while \<open>roleRetrieved\<close>, \<open>requestsRetrieved\<close> and
  \<open>allRequestsRetrieved\<close> change: the role first, then the list the role may see.
  (\<open>!isAdmin & !requestsRetrieved\<close> is a bitwise and of booleans, truthy as \<open>&&\<close>.)
\<close>

definition add_movie_effect :: "email \<Rightarrow> bool \<Rightarrow> db \<Rightarrow> admin_state \<Rightarrow> admin_state" where
  "add_movie_effect email role s st =
     (let st1 = (if \<not> roleRetrieved st then getUserRole_ui role st else st);
          st2 = (if roleRetrieved st1 \<and> \<not> isAdmin st1 \<and> \<not> requestsRetrieved st1
                 then getUserRequests_ui email s st1 else st1)
      in if roleRetrieved st2 \<and> isAdmin st2 \<and> \<not> allRequestsRetrieved st2 then getAllRequests_ui s st2 else st2)"

section \<open>Actions on a request\<close>

text \<open>After a successful change the list the user sees is marked stale, so the effect reloads it.\<close>

definition reload :: "admin_state \<Rightarrow> admin_state" where
  "reload st = (if isAdmin st then st\<lparr>allRequestsRetrieved := False\<rparr> else st\<lparr>requestsRetrieved := False\<rparr>)"

definition alert :: "string \<Rightarrow> admin_state \<Rightarrow> admin_state" where
  "alert msg st = st\<lparr>alerts := alerts st @ [msg]\<rparr>"

text \<open>A request object carries its \<open>_id\<close> as the hex string of the id.\<close>

definition deleteRequest_ui :: "oid \<times> movie_request \<Rightarrow> admin_state \<times> db \<Rightarrow> admin_state \<times> db" where
  "deleteRequest_ui request ss =
     (let (st, s) = ss;
          (resp, rs') = apiDeleteRequest (oid_hex (fst request)) (rq_user_id (snd request)) (db_requests s)
      in (if resp = Ok ''success'' then reload st else alert ''Unable to delete request.'' st,
          s\<lparr>db_requests := rs'\<rparr>))"

definition denyRequest_ui :: "oid \<times> movie_request \<Rightarrow> admin_state \<times> db \<Rightarrow> admin_state \<times> db" where
  "denyRequest_ui request ss =
     (let (st, s) = ss;
          (resp, rs') = apiDenyRequest (oid_hex (fst request)) (rq_user_id (snd request)) (db_requests s)
      in (if resp = Ok ''success'' then (alert ''Request Denied'' st)\<lparr>allRequestsRetrieved := False\<rparr>
          else alert ''Unable to deny request'' st,
          s\<lparr>db_requests := rs'\<rparr>))"

definition deactivateRequest_ui :: "oid \<times> movie_request \<Rightarrow> admin_state \<times> db \<Rightarrow> admin_state \<times> db" where
  "deactivateRequest_ui request ss =
     (let (st, s) = ss;
          (resp, rs') = apiDeactivateRequest (oid_hex (fst request)) (rq_user_id (snd request)) (db_requests s)
      in (if resp = Ok ''success'' then reload (alert ''Request Deactivated'' st)
          else alert ''Unable to deactivate request'' st,
          s\<lparr>db_requests := rs'\<rparr>))"

section \<open>Accepting a request\<close>

text \<open>
  \<open>Date.prototype.toJSON\<close> of a stored date, in UTC, for a normalised date (month 0 to
  11); an invalid date gives \<open>null\<close>.  Years outside 0..9999 take a sign and six digits.
\<close>

definition pad_num :: "nat \<Rightarrow> int \<Rightarrow> string" where
  "pad_num w n = replicate (w - length (string_of_int n)) CHR ''0'' @ string_of_int n"

definition js_date_json :: "js_date \<Rightarrow> string option" where
  "js_date_json d =
     (case d of
        Date_ymd y m dd \<Rightarrow>
          Some ((if 0 \<le> y \<and> y \<le> 9999 then pad_num 4 y
                 else (if y < 0 then ''-'' else ''+'') @ pad_num 6 \<bar>y\<bar>)
                @ ''-'' @ pad_num 2 (m + 1) @ ''-'' @ pad_num 2 dd @ ''T00:00:00.000Z'')
      | Invalid_Date \<Rightarrow> None)"

text \<open>
  \<open>movieInfo\<close> of \<open>acceptRequest\<close>: the request's fields as JSON sends them (numbers as
  numbers, \<open>NaN\<close> as \<open>null\<close>, which the backend's \<open>parseInt\<close> reads back), the imdb array
  the admin typed, which the backend joins with commas, and the date part of the release
  date; \<open>null.split\<close> throws (\<open>None\<close>).  An Invalid Date is \<open>null\<close> in JSON, but a
  request read back from the collection never holds one: the driver stored it as the epoch
  (\<open>bson_request\<close>), so that branch is only reached by a request built in memory.
\<close>

definition movie_info_of :: "admin_state \<Rightarrow> movie_request \<Rightarrow> movie_body option" where
  "movie_info_of st r =
     (case js_date_json (rq_released r) of
        None \<Rightarrow> None
      | Some released \<Rightarrow>
          Some \<lparr>mb_title = rq_title r, mb_year = js_String_num (rq_year r), mb_fullplot = rq_fullplot r,
                mb_genres = rq_genres r, mb_imdb = join_with '','' (am_imdb st), mb_poster = poster st,
                mb_runtime = js_String_num (rq_runtime r), mb_released = hd (split_on CHR ''T'' released),
                mb_rated = rq_rated r\<rparr>)"

definition accept_data :: "oid \<times> movie_request \<Rightarrow> accept_body" where
  "accept_data request =
     \<lparr>ab_id = oid_hex (fst request), ab_user_id = rq_user_id (snd request), ab_title = rq_title (snd request),
      ab_year = rq_year (snd request), ab_genres = rq_genres (snd request), ab_rated = rq_rated (snd request)\<rparr>"

text \<open>
  \<open>acceptRequest\<close>: add the movie, and on \<open>{status: "success"}\<close> mark the request
  accepted; any answer of the second call, \<open>"fail"\<close> included, is reported as a success.
  A rejected call (status 500) only reaches \<open>catch\<close>.  With no request chosen
  (\<open>acceptedRequest\<close> is \<open>{}\<close>) \<open>released.split\<close> throws before any call.
\<close>

definition acceptRequest_ui :: "timestamp \<Rightarrow> admin_state \<times> db \<Rightarrow> admin_state \<times> db" where
  "acceptRequest_ui now ss =
     (let (st, s) = ss
      in case acceptedRequest st of
           None \<Rightarrow> (st, s)
         | Some request \<Rightarrow>
             (case movie_info_of st (snd request) of
                None \<Rightarrow> (st, s)
              | Some movieInfo \<Rightarrow>
                  (let (resp, ms') = apiAddMovie now movieInfo (db_movies s);
                       s1 = s\<lparr>db_movies := ms'\<rparr>
                   in if resp = Ok ''success'' then
                        (let (resp2, rs') = apiAcceptRequest (accept_data request) (db_movies s1) (db_requests s1);
                             s2 = s1\<lparr>db_requests := rs'\<rparr>
                         in case resp2 of
                              Ok _ \<Rightarrow> ((alert ''Successfully added to MovieDB!'' st)\<lparr>am_imdb := [[]], poster := [],
                                         allRequestsRetrieved := False\<rparr>, s2)
                            | _ \<Rightarrow> (st, s2))
                      else (st, s1))))"

section \<open>Events\<close>

text \<open>
  The controls of the page; a card's button is addressed by the position of its request
  in the list shown.  \<open>Submitted\<close> is the callback of the request form.
\<close>

datatype add_movie_event =
    ChangeImdb string | ChangePoster string
  | AcceptClick nat | DenyClick nat | DeleteClick nat | ConfirmClick nat
  | AddMovieClick | Submitted bool

definition pending_active :: "movie_request \<Rightarrow> bool" where
  "pending_active r \<longleftrightarrow> rq_status r = ''pending'' \<and> rq_active r"

definition processed_active :: "movie_request \<Rightarrow> bool" where
  "processed_active r \<longleftrightarrow> rq_status r \<noteq> ''pending'' \<and> rq_active r"

text \<open>
  Which buttons the page renders: nothing before the role and a list are loaded; an admin
  gets Accept and Deny on pending cards and Delete on processed ones, a user Delete on
  pending cards and Confirm on processed ones; a section shows its cards only when its
  counter is positive.
\<close>

definition offered :: "admin_state \<Rightarrow> add_movie_event \<Rightarrow> bool" where
  "offered st e \<longleftrightarrow>
     roleRetrieved st \<and> (requestsRetrieved st \<or> allRequestsRetrieved st) \<and>
     (case e of
        AcceptClick i \<Rightarrow> isAdmin st \<and> 0 < pendingRequests st \<and> i < length (allRequests st)
                          \<and> pending_active (snd (allRequests st ! i))
      | DenyClick i \<Rightarrow> isAdmin st \<and> 0 < pendingRequests st \<and> i < length (allRequests st)
                          \<and> pending_active (snd (allRequests st ! i))
      | DeleteClick i \<Rightarrow>
          (if isAdmin st then 0 < processedRequests st \<and> i < length (allRequests st)
                             \<and> processed_active (snd (allRequests st ! i))
           else 0 < pendingRequests st \<and> i < length (am_requests st) \<and> pending_active (snd (am_requests st ! i)))
      | ConfirmClick i \<Rightarrow> \<not> isAdmin st \<and> 0 < processedRequests st \<and> i < length (am_requests st)
                          \<and> processed_active (snd (am_requests st ! i))
      | AddMovieClick \<Rightarrow> isAdmin st \<and> 0 < pendingRequests st
      | _ \<Rightarrow> True)"

definition add_movie_handle :: "timestamp \<Rightarrow> add_movie_event \<Rightarrow> admin_state \<times> db \<Rightarrow> admin_state \<times> db" where
  "add_movie_handle now e ss =
     (let (st, s) = ss
      in case e of
           ChangeImdb v \<Rightarrow> (st\<lparr>am_imdb := split_on CHR '','' v\<rparr>, s)
         | ChangePoster v \<Rightarrow> (st\<lparr>poster := v\<rparr>, s)
         | AcceptClick i \<Rightarrow> (st\<lparr>acceptedRequest := Some (allRequests st ! i)\<rparr>, s)
         | DenyClick i \<Rightarrow> denyRequest_ui (allRequests st ! i) (st, s)
         | DeleteClick i \<Rightarrow> deleteRequest_ui (if isAdmin st then allRequests st ! i else am_requests st ! i) (st, s)
         | ConfirmClick i \<Rightarrow> deactivateRequest_ui (am_requests st ! i) (st, s)
         | AddMovieClick \<Rightarrow> acceptRequest_ui now (st, s)
         | Submitted status \<Rightarrow> (if status then st\<lparr>requestsRetrieved := False\<rparr> else st, s))"

definition add_movie_step ::
  "email \<Rightarrow> bool \<Rightarrow> timestamp \<Rightarrow> add_movie_event \<Rightarrow> admin_state \<times> db \<Rightarrow> admin_state \<times> db" where
  "add_movie_step email role now e ss =
     (let (st, s) = add_movie_handle now e ss in (add_movie_effect email role s st, s))"

text \<open>
  The states of the page of user \<open>email\<close> with role \<open>role\<close>: it opens on any database
  state with the invariant \<open>db_inv\<close> of theory \<open>Lifecycle\<close> (every state the endpoints
  reach has it); then the user acts on what is rendered, or another client runs an
  endpoint.
\<close>

text \<open>A pending request of the sample user, stored alone, for the accept flow below.\<close>

definition heat_pending :: movie_request where
  "heat_pending =
     \<lparr>rq_title = ''Heat'', rq_year = Some 1995, rq_fullplot = ''A heist.'', rq_genres = [''Crime''],
      rq_runtime = Some 170, rq_released = Date_ymd 1995 11 15, rq_rated = ''R'', rq_lastupdated = 6,
      rq_type = ''movie'', rq_user_id = ''ann@mail.com'', rq_status = ''pending'', rq_active = True,
      rq_movie_id = None\<rparr>"

definition heat_page_db :: db where
  "heat_page_db = \<lparr>db_movies = empty_coll, db_requests = \<lparr>docs = [(0, heat_pending)], next_oid = 1\<rparr>\<rparr>"

inductive am_reachable :: "email \<Rightarrow> bool \<Rightarrow> admin_state \<times> db \<Rightarrow> bool" for email role where
  open_page: "db_inv s \<Longrightarrow> am_reachable email role (add_movie_effect email role s add_movie_init, s)"
| act: "am_reachable email role (st, s) \<Longrightarrow> offered st e \<Longrightarrow>
        am_reachable email role (add_movie_step email role now e (st, s))"
| other: "am_reachable email role (st, s) \<Longrightarrow> op_allowed op \<Longrightarrow> am_reachable email role (st, db_step op s)"

section \<open>Lemmas\<close>

lemma count_requests_closed:
  "count_requests rl pending processed =
     (pending + length (filter (\<lambda>(_, r). pending_active r) rl),
      processed + length (filter (\<lambda>(_, r). processed_active r) rl))"
  by (induction rl pending processed rule: count_requests.induct)
     (auto simp: pending_active_def processed_active_def)

lemma snd_request_actions:
  "snd (denyRequest_ui req (st, s)) = db_step (DenyReq (oid_hex (fst req)) (rq_user_id (snd req))) s"
  "snd (deleteRequest_ui req (st, s)) = db_step (DeleteReq (oid_hex (fst req)) (rq_user_id (snd req))) s"
  "snd (deactivateRequest_ui req (st, s)) = db_step (DeactivateReq (oid_hex (fst req)) (rq_user_id (snd req))) s"
  by (simp_all add: denyRequest_ui_def deleteRequest_ui_def deactivateRequest_ui_def split: prod.splits)

lemma apiAddMovie_insert: "apiAddMovie now b ms = (Ok ''success'', snd (insertOne (bson_movie (movie_of_body now b)) ms))"
  by (cases "insertOne (bson_movie (movie_of_body now b)) ms") (simp add: apiAddMovie_def addMovie_def)

lemma snd_acceptRequest_ui:
  "snd (acceptRequest_ui now (st, s)) = s
   \<or> (\<exists>b a. snd (acceptRequest_ui now (st, s)) = db_step (AcceptReq a) (db_step (AddMovieOp now b) s))"
proof (cases "acceptedRequest st")
  case (Some req)
  show ?thesis
  proof (cases "movie_info_of st (snd req)")
    case (Some mi)
    obtain resp2 rs' where a: "apiAcceptRequest (accept_data req) (snd (insertOne (bson_movie (movie_of_body now mi)) (db_movies s)))
        (db_requests s) = (resp2, rs')"
      by fastforce
    have "snd (acceptRequest_ui now (st, s)) = db_step (AcceptReq (accept_data req)) (db_step (AddMovieOp now mi) s)"
      using \<open>acceptedRequest st = Some req\<close> Some a
      by (cases resp2) (simp_all add: acceptRequest_ui_def apiAddMovie_insert Let_def)
    then show ?thesis
      by blast
  qed (simp add: acceptRequest_ui_def \<open>acceptedRequest st = Some req\<close>)
qed (simp add: acceptRequest_ui_def)

lemma db_inv_foldl:
  "db_inv s \<Longrightarrow> \<forall>op \<in> set ops. op_allowed op \<Longrightarrow> db_inv (foldl (\<lambda>s op. db_step op s) s ops)"
  by (induction ops arbitrary: s) (simp_all add: db_inv_step)

lemma add_movie_handle_steps:
  "\<exists>ops. (\<forall>op \<in> set ops. op_allowed op) \<and> snd (add_movie_handle now e (st, s)) = foldl (\<lambda>s op. db_step op s) s ops"
proof (cases e)
  case AddMovieClick
  then show ?thesis
    using snd_acceptRequest_ui [of now st s]
  proof (elim disjE exE)
    assume "snd (acceptRequest_ui now (st, s)) = s"
    with AddMovieClick show ?thesis
      by (intro exI [of _ "[]"]) (simp add: add_movie_handle_def)
  next
    fix b a
    assume "snd (acceptRequest_ui now (st, s)) = db_step (AcceptReq a) (db_step (AddMovieOp now b) s)"
    with AddMovieClick show ?thesis
      by (intro exI [of _ "[AddMovieOp now b, AcceptReq a]"]) (simp add: add_movie_handle_def)
  qed
next
  case (DenyClick i)
  then show ?thesis
    by (intro exI [of _ "[DenyReq (oid_hex (fst (allRequests st ! i))) (rq_user_id (snd (allRequests st ! i)))]"])
       (simp add: add_movie_handle_def snd_request_actions)
next
  case (DeleteClick i)
  let ?r = "if isAdmin st then allRequests st ! i else am_requests st ! i"
  from DeleteClick show ?thesis
    by (intro exI [of _ "[DeleteReq (oid_hex (fst ?r)) (rq_user_id (snd ?r))]"])
       (simp add: add_movie_handle_def snd_request_actions)
next
  case (ConfirmClick i)
  then show ?thesis
    by (intro exI [of _ "[DeactivateReq (oid_hex (fst (am_requests st ! i))) (rq_user_id (snd (am_requests st ! i)))]"])
       (simp add: add_movie_handle_def snd_request_actions)
qed (intro exI [of _ "[]"]; simp add: add_movie_handle_def)+

lemma snd_add_movie_step: "snd (add_movie_step email role now e ss) = snd (add_movie_handle now e ss)"
  by (simp add: add_movie_step_def split: prod.splits)

lemma movie_info_of_fields:
  assumes "movie_info_of st r = Some mi"
  shows "mb_title mi = rq_title r" "mb_year mi = js_String_num (rq_year r)" "mb_genres mi = rq_genres r"
    "mb_rated mi = rq_rated r"
  using assms by (auto simp: movie_info_of_def split: option.splits)

lemma movie_info_of_valid:
  "rq_released r \<noteq> Invalid_Date \<Longrightarrow> \<exists>mi. movie_info_of st r = Some mi"
  by (cases "rq_released r") (simp_all add: movie_info_of_def js_date_json_def)

text \<open>The movie the accept flow adds always passes the filter \<open>apiAcceptRequest\<close> then uses.\<close>

lemma accept_new_movie_matches:
  assumes "rq_genres r \<noteq> []" "movie_info_of st r = Some mi"
  shows "movie_query (accept_filters (accept_data (rid, r))) (bson_movie (movie_of_body now mi))"
  using movie_info_of_fields [OF assms(2)] assms(1)
  by (auto simp: movie_query_def accept_filters_def accept_data_def movie_of_body_def text_phrase_match_def
      qval_string_def js_String_num_parse Let_def neq_Nil_conv)

lemma accept_genreless_matches_none:
  "rq_genres r = [] \<Longrightarrow> \<not> movie_query (accept_filters (accept_data (rid, r))) m"
  by (simp add: movie_query_def accept_filters_def accept_data_def)

lemma cursor_after_insert:
  assumes "\<forall>(i, d) \<in> set (docs ms). \<not> movie_query f d"
  shows "movie_cursor f (snd (insertOne m ms)) = (if movie_query f m then [(next_oid ms, m)] else [])"
proof -
  have "filter (\<lambda>(i, d). movie_query f d) (docs ms) = []"
    using assms by (auto simp: filter_empty_conv)
  then show ?thesis
    by (simp add: find_coll_def insertOne_def sort_desc_def)
qed

section \<open>Properties\<close>

text \<open>whatever the request page does (accept, deny, delete, confirm, in any order) and whatever other clients run in between, the collections keep the lifecycle invariant: both are well formed, every request is pending, denied or accepted, and an accepted request links a movie.\<close>

theorem am_reachable_db_inv:
  assumes "am_reachable email role ss"
  shows "db_inv (snd ss)"
  using assms
proof (induction rule: am_reachable.induct)
  case (act st s e now)
  obtain ops where "\<forall>op \<in> set ops. op_allowed op" "snd (add_movie_handle now e (st, s)) = foldl (\<lambda>s op. db_step op s) s ops"
    using add_movie_handle_steps by blast
  with act.IH show ?case
    by (simp add: snd_add_movie_step db_inv_foldl)
next
  case (other st s op)
  then show ?case
    by (simp add: db_inv_step)
qed simp

lemma am_reachable_db_inv_witness:
  "db_inv (snd (add_movie_effect ''ann@mail.com'' True heat_page_db add_movie_init, heat_page_db))"
proof -
  have "db_inv heat_page_db"
    by (simp add: db_inv_def heat_page_db_def heat_pending_def coll_wf_def empty_coll_def request_ok_def)
  then show ?thesis
    using am_reachable_db_inv [OF am_reachable.open_page] by blast
qed

text \<open>C31: when the admin accepts a stored pending request that has genres and a valid release date, and no movie in the collection already matches the request's lookup filter, the accept flow adds one movie with the request's title at a fresh id, marks the request accepted with a link to exactly that id, and reports success.\<close>

theorem admin_accept_links_new_movie:
  assumes wf: "coll_wf (db_movies s)" "coll_wf (db_requests s)"
    and acc: "acceptedRequest st = Some (rid, r)" and stored: "coll_map (db_requests s) rid = Some r"
    and pend: "rq_status r = ''pending''" and g: "rq_genres r \<noteq> []" and d: "rq_released r \<noteq> Invalid_Date"
    and bound: "rid < 16 ^ 24"
    and fresh: "\<forall>(i, m) \<in> set (docs (db_movies s)). \<not> movie_query (accept_filters (accept_data (rid, r))) m"
  shows "coll_map (db_requests (snd (acceptRequest_ui now (st, s))))
           = (coll_map (db_requests s))(rid \<mapsto> r\<lparr>rq_status := ''accepted'', rq_movie_id := Some (next_oid (db_movies s))\<rparr>)
         \<and> (\<exists>m. coll_map (db_movies (snd (acceptRequest_ui now (st, s)))) = (coll_map (db_movies s))(next_oid (db_movies s) \<mapsto> m)
                \<and> mv_title m = rq_title r)
         \<and> alerts (fst (acceptRequest_ui now (st, s))) = alerts st @ [''Successfully added to MovieDB!'']"
proof -
  obtain mi where mi: "movie_info_of st r = Some mi"
    using movie_info_of_valid [OF d] by blast
  let ?m = "bson_movie (movie_of_body now mi)" and ?k = "next_oid (db_movies s)" and ?ab = "accept_data (rid, r)"
  let ?ms' = "snd (insertOne ?m (db_movies s))"
  have cur: "movie_cursor (accept_filters ?ab) ?ms' = [(?k, ?m)]"
    using cursor_after_insert [OF fresh] accept_new_movie_matches [OF g mi] by simp
  have acc_eq: "acceptRequest (ab_id ?ab) (ab_user_id ?ab) ?k (db_requests s)
      = owner_updateOne rq_user_id (accept_update ?k) (oid_hex rid) (rq_user_id r) (db_requests s)"
    by (simp add: request_daos_owner_guarded accept_data_def accept_update_def [abs_def])
  have out: "owner_update_outcome rq_user_id (accept_update ?k) (oid_hex rid) (rq_user_id r) (coll_map (db_requests s))
      = (True, (coll_map (db_requests s))(rid \<mapsto> accept_update ?k r))"
    using object_id_oid_hex [OF bound] stored pend by (simp add: owner_update_outcome_def accept_update_def)
  note h = request_update_handler [OF wf(2), where f = "accept_update ?k" and s = "oid_hex rid" and u = "rq_user_id r"]
  have api: "fst (apiAcceptRequest ?ab ?ms' (db_requests s)) = Ok ''success''"
    "coll_map (snd (apiAcceptRequest ?ab ?ms' (db_requests s))) = (coll_map (db_requests s))(rid \<mapsto> accept_update ?k r)"
    using cur acc_eq out h
    by (simp_all add: apiAcceptRequest_def getMovies_first_page_20 let_pair_fst_snd success_or_fail_def)
  obtain resp2 rs' where a: "apiAcceptRequest ?ab ?ms' (db_requests s) = (resp2, rs')"
    by fastforce
  have ui: "acceptRequest_ui now (st, s)
      = ((alert ''Successfully added to MovieDB!'' st)\<lparr>am_imdb := [[]], poster := [], allRequestsRetrieved := False\<rparr>,
         s\<lparr>db_movies := ?ms', db_requests := rs'\<rparr>)"
    using acc mi api(1) a by (simp add: acceptRequest_ui_def apiAddMovie_insert)
  have title: "mv_title ?m = rq_title r"
    using movie_info_of_fields(1) [OF mi] by (simp add: movie_of_body_def Let_def)
  have req: "coll_map (db_requests (snd (acceptRequest_ui now (st, s))))
      = (coll_map (db_requests s))(rid \<mapsto> r\<lparr>rq_status := ''accepted'', rq_movie_id := Some ?k\<rparr>)"
    using ui a api(2) by (simp add: accept_update_def)
  have mov: "coll_map (db_movies (snd (acceptRequest_ui now (st, s)))) = (coll_map (db_movies s))(?k \<mapsto> ?m)"
    using ui coll_map_insertOne [OF wf(1)] by simp
  have al: "alerts (fst (acceptRequest_ui now (st, s))) = alerts st @ [''Successfully added to MovieDB!'']"
    using ui by (simp add: alert_def)
  show ?thesis
    using req mov al title by blast
qed

lemma admin_accept_links_new_movie_witness:
  "alerts (fst (acceptRequest_ui 9 (add_movie_init\<lparr>acceptedRequest := Some (0, heat_pending)\<rparr>, heat_page_db)))
     = [''Successfully added to MovieDB!'']"
  using admin_accept_links_new_movie [of heat_page_db "add_movie_init\<lparr>acceptedRequest := Some (0, heat_pending)\<rparr>"
      0 heat_pending 9]
  by (simp add: heat_page_db_def heat_pending_def add_movie_init_def coll_wf_def empty_coll_def)

text \<open>C32: accepting a request without genres adds the movie but leaves the request as it was: the lookup by first genre matches nothing, \<open>apiAcceptRequest\<close> answers 500, and the page shows no message and keeps its state.\<close>

theorem accept_without_genres_stays_pending:
  assumes "acceptedRequest st = Some (rid, r)" "rq_genres r = []" "rq_released r \<noteq> Invalid_Date"
  shows "fst (acceptRequest_ui now (st, s)) = st \<and> db_requests (snd (acceptRequest_ui now (st, s))) = db_requests s
    \<and> length (docs (db_movies (snd (acceptRequest_ui now (st, s))))) = Suc (length (docs (db_movies s)))"
proof -
  obtain mi where mi: "movie_info_of st r = Some mi"
    using movie_info_of_valid [OF assms(3)] by blast
  let ?ms' = "snd (insertOne (bson_movie (movie_of_body now mi)) (db_movies s))"
  have "movie_cursor (accept_filters (accept_data (rid, r))) ?ms' = []"
    using accept_genreless_matches_none [OF assms(2)] by (simp add: find_coll_def sort_desc_def)
  then have "apiAcceptRequest (accept_data (rid, r)) ?ms' (db_requests s) = (Http_error 500 accept_error_message, db_requests s)"
    by (simp add: apiAcceptRequest_def getMovies_first_page_20)
  then show ?thesis
    using assms(1) mi by (simp add: acceptRequest_ui_def apiAddMovie_insert insertOne_def)
qed

lemma accept_without_genres_stays_pending_witness:
  "db_requests (snd (acceptRequest_ui 9 (add_movie_init\<lparr>acceptedRequest := Some (0, heat_pending\<lparr>rq_genres := []\<rparr>)\<rparr>, heat_page_db)))
     = db_requests heat_page_db"
  using accept_without_genres_stays_pending [of "add_movie_init\<lparr>acceptedRequest := Some (0, heat_pending\<lparr>rq_genres := []\<rparr>)\<rparr>"
      0 "heat_pending\<lparr>rq_genres := []\<rparr>" 9 heat_page_db]
  by (simp add: heat_pending_def)

end
