(* ===== verification/Routes.thy ===== *)
theory Routes
  imports JS
begin

text \<open>
  The HTTP surface of the backend: \<open>src/backend/server.js\<close> mounts the router of
  \<open>src/backend/api/movies.route.js\<close> at \<open>/api/v1/movies\<close> and answers every other
  path with 404 \<open>{error: "not found"}\<close>.  An endpoint is named after its handler.  The
  router matches the path of a request (the part before \<open>?\<close>) against its routes in
  Express' default mode: case-insensitive and with an optional trailing slash; the only
  parameterised route is \<open>/id/:id\<close>, whose parameter is one non-empty path segment.
  A URL reaches the server without its fragment: the browser drops everything from \<open>#\<close>
  on.  A query string is split at \<open>&\<close> and each pair at its first \<open>=\<close>; keys and values
  are decoded as the \<open>qs\<close> parser of Express decodes them (\<open>+\<close> is a space, then
  \<open>decodeURIComponent\<close>).  The browser's own percent-encoding of the characters it may
  not send (spaces, quotes, non-ASCII) is undone by that decoding and is left out, and an
  escape of a non-ASCII (UTF-8) character is kept as written.
\<close>

datatype http_method = GET | POST | PUT | DELETE

datatype endpoint =
    EGetMovies | EGetGenres | EGetRated | EGetMovieById string
  | EUserData | EUserReviews | EMoviesReviewed | ERole
  | EChangeUserName | EChangePassword | EChangePfp | EAccount
  | EAddReview | EEditReview | EDeleteReview | EReviewsUpdateUserName
  | EDeleteDups | EAddMovie
  | EAddRequest | EGetRequests | EDeleteRequest | EReviewRequests
  | EDenyRequest | EDeactivateRequest | EAcceptRequest

text \<open>The static routes in the order \<open>movies.route.js\<close> declares them.\<close>

definition static_routes :: "(string \<times> http_method \<times> endpoint) list" where
  "static_routes =
     [(''/'', GET, EGetMovies), (''/genres'', GET, EGetGenres), (''/rated'', GET, EGetRated),
      (''/userdata'', GET, EUserData), (''/userreviews'', GET, EUserReviews),
      (''/moviesreviewed'', GET, EMoviesReviewed), (''/role'', GET, ERole),
      (''/changeusername'', PUT, EChangeUserName), (''/changepassword'', PUT, EChangePassword),
      (''/changepfp'', PUT, EChangePfp), (''/account'', PUT, EAccount),
      (''/reviews'', POST, EAddReview), (''/reviews'', PUT, EEditReview), (''/reviews'', DELETE, EDeleteReview),
      (''/reviewsupdateusername'', PUT, EReviewsUpdateUserName),
      (''/deletedups'', DELETE, EDeleteDups), (''/addmovie'', POST, EAddMovie),
      (''/addrequest'', POST, EAddRequest), (''/getrequests'', GET, EGetRequests),
      (''/deleterequest'', DELETE, EDeleteRequest), (''/reviewrequests'', GET, EReviewRequests),
      (''/denyrequest'', PUT, EDenyRequest), (''/deactivaterequest'', PUT, EDeactivateRequest),
      (''/acceptrequest'', PUT, EAcceptRequest)]"

text \<open>The URL the browser sends for \<open>u\<close>: without its fragment.\<close>

definition sent_url :: "string \<Rightarrow> string" where
  "sent_url u = takeWhile (\<lambda>c. c \<noteq> CHR ''#'') u"

text \<open>The path of a URL, with one trailing slash dropped (non-strict routing).\<close>

definition url_path :: "string \<Rightarrow> string" where
  "url_path u = takeWhile (\<lambda>c. c \<noteq> CHR ''?'') (sent_url u)"

definition strip_slash :: "string \<Rightarrow> string" where
  "strip_slash p = (if 1 < length p \<and> last p = CHR ''/'' then butlast p else p)"

definition route :: "http_method \<Rightarrow> string \<Rightarrow> endpoint option" where
  "route m u =
     (let p = strip_slash (url_path u)
      in if m = GET \<and> map ascii_lower (take 4 p) = ''/id/'' \<and> drop 4 p \<noteq> [] \<and> CHR ''/'' \<notin> set (drop 4 p)
         then Some (EGetMovieById (drop 4 p))
         else map_of (map (\<lambda>(q, m', e). ((q, m'), e)) static_routes) (map ascii_lower p, m))"

text \<open>\<open>app.use("/api/v1/movies", movies)\<close> and the catch-all 404 of \<open>server.js\<close>.\<close>

definition app_dispatch :: "http_method \<Rightarrow> string \<Rightarrow> endpoint option" where
  "app_dispatch m u =
     (let mount = ''/api/v1/movies''
      in if map ascii_lower (take (length mount) u) = mount
            \<and> (drop (length mount) u = [] \<or> hd (drop (length mount) u) \<in> {CHR ''/'', CHR ''?''})
         then route m (case drop (length mount) u of [] \<Rightarrow> ''/''
                         | c # cs \<Rightarrow> if c = CHR ''?'' then CHR ''/'' # c # cs else c # cs)
         else None)"

text \<open>The query string: pairs split at \<open>&\<close> and at the first \<open>=\<close>.\<close>

definition query_pairs :: "string \<Rightarrow> (string \<times> string) list" where
  "query_pairs u =
     (case dropWhile (\<lambda>c. c \<noteq> CHR ''?'') (sent_url u) of
        [] \<Rightarrow> []
      | _ # q \<Rightarrow> map (\<lambda>kv. (takeWhile (\<lambda>c. c \<noteq> CHR ''='') kv, drop 1 (dropWhile (\<lambda>c. c \<noteq> CHR ''='') kv)))
                   (filter (\<lambda>kv. kv \<noteq> []) (split_on CHR ''&'' q)))"

text \<open>
  \<open>decodeURIComponent\<close> on the escapes of ASCII characters: \<open>%hh\<close> with \<open>hh\<close> below
  hex 80 is that character.  Any other \<open>%\<close> throws: a malformed escape, and also the first
  byte of a UTF-8 sequence, whose character lies outside the 8-bit characters of the model.
\<close>

fun uri_decode :: "string \<Rightarrow> string option" where
  "uri_decode [] = Some []"
| "uri_decode (c # cs) =
     (if c = CHR ''%'' then
        (case cs of
           a # b # rest \<Rightarrow>
             (case (digit_value 16 a, digit_value 16 b) of
                (Some x, Some y) \<Rightarrow>
                  if x * 16 + y < 128 then map_option (Cons (char_of (x * 16 + y))) (uri_decode rest) else None
              | _ \<Rightarrow> None)
         | _ \<Rightarrow> None)
      else map_option (Cons c) (uri_decode cs))"

text \<open>
  The decoder of \<open>qs\<close>: \<open>+\<close> is a space, then \<open>decodeURIComponent\<close>; when that throws, the
  string with its spaces is kept.
\<close>

definition form_decode :: "string \<Rightarrow> string" where
  "form_decode v =
     (let v' = map (\<lambda>c. if c = CHR ''+'' then CHR '' '' else c) v
      in case uri_decode v' of Some d \<Rightarrow> d | None \<Rightarrow> v')"

text \<open>
  \<open>req.query.k\<close> read as a truthy string: the first pair whose decoded key is \<open>k\<close>
  (\<open>qs\<close> makes an array of a repeated key, which no request of the frontend sends), its
  value decoded; absent or empty is \<open>None\<close> (a non-empty value decodes to a non-empty one).
\<close>

definition query_param :: "string \<Rightarrow> string \<Rightarrow> string option" where
  "query_param u k =
     (case map_of (map (\<lambda>(k', v). (form_decode k', v)) (query_pairs u)) k of
        Some v \<Rightarrow> if v = [] then None else Some (form_decode v)
      | None \<Rightarrow> None)"

section \<open>Lemmas\<close>

lemma kv_split:
  "CHR ''='' \<notin> set k \<Longrightarrow>
   (takeWhile (\<lambda>c. c \<noteq> CHR ''='') (k @ ''='' @ v), drop 1 (dropWhile (\<lambda>c. c \<noteq> CHR ''='') (k @ ''='' @ v)))
   = (k, v)"
  by (induction k) auto

text \<open>Pairs printed as \<open>k=v\<close> parse back when no key holds \<open>=\<close>; values may.\<close>

lemma kv_parse_map:
  "\<forall>k \<in> fst ` set ps. CHR ''='' \<notin> set k \<Longrightarrow>
   map (\<lambda>kv. (takeWhile (\<lambda>c. c \<noteq> CHR ''='') kv, drop 1 (dropWhile (\<lambda>c. c \<noteq> CHR ''='') kv)))
       (map (\<lambda>(k, v). k @ ''='' @ v) ps) = ps"
proof (induction ps)
  case (Cons p ps)
  then show ?case
    using kv_split [of "fst p" "snd p"] by (cases p) simp
qed simp

lemma sent_url_plain: "CHR ''#'' \<notin> set u \<Longrightarrow> sent_url u = u"
  by (simp add: sent_url_def takeWhile_eq_all_conv) blast

lemma sent_url_cut: "CHR ''#'' \<notin> set u \<Longrightarrow> sent_url (u @ CHR ''#'' # w) = u"
  unfolding sent_url_def by (induction u) auto

text \<open>The query string of \<open>?k1=v1&...&kn=vn\<close> is the list of the pairs.\<close>

lemma query_pairs_join:
  assumes "ps \<noteq> []"
    and "\<forall>(k, v) \<in> set ps. CHR ''&'' \<notin> set k \<and> CHR ''='' \<notin> set k \<and> CHR ''#'' \<notin> set k
                          \<and> CHR ''&'' \<notin> set v \<and> CHR ''#'' \<notin> set v"
  shows "query_pairs (''?'' @ join_with ''&'' (map (\<lambda>(k, v). k @ ''='' @ v) ps)) = ps"
proof -
  let ?kvs = "map (\<lambda>(k, v). k @ ''='' @ v) ps"
  have amp: "\<forall>w \<in> set ?kvs. CHR ''&'' \<notin> set w"
    using assms(2) by auto
  have "\<forall>w \<in> set ?kvs. CHR ''#'' \<notin> set w"
    using assms(2) by auto
  then have "CHR ''#'' \<notin> set (''?'' @ join_with ''&'' ?kvs)"
    using set_join_with [of "''&''" ?kvs] by auto
  then have sent: "sent_url (''?'' @ join_with ''&'' ?kvs) = ''?'' @ join_with ''&'' ?kvs"
    by (rule sent_url_plain)
  have split: "split_on CHR ''&'' (join_with ''&'' ?kvs) = ?kvs"
    using split_on_join [OF _ amp] assms(1) by simp
  have ne: "filter (\<lambda>kv. kv \<noteq> []) ?kvs = ?kvs"
    by (auto simp: filter_id_conv)
  have eqk: "\<forall>k \<in> fst ` set ps. CHR ''='' \<notin> set k"
    using assms(2) by auto
  have "dropWhile (\<lambda>c. c \<noteq> CHR ''?'') (''?'' @ join_with ''&'' ?kvs) = CHR ''?'' # join_with ''&'' ?kvs"
    by simp
  with kv_parse_map [OF eqk] show ?thesis
    unfolding query_pairs_def sent by (simp only: list.case split ne)
qed

lemma uri_decode_plain: "CHR ''%'' \<notin> set v \<Longrightarrow> uri_decode v = Some v"
  by (induction v) auto

lemma form_decode_plain: "CHR ''+'' \<notin> set v \<Longrightarrow> CHR ''%'' \<notin> set v \<Longrightarrow> form_decode v = v"
proof -
  assume "CHR ''+'' \<notin> set v" "CHR ''%'' \<notin> set v"
  moreover have "map (\<lambda>c. if c = CHR ''+'' then CHR '' '' else c) v = v" if "CHR ''+'' \<notin> set v"
    using that by (induction v) auto
  ultimately show "form_decode v = v"
    by (simp add: form_decode_def uri_decode_plain)
qed

text \<open>Every pair of plain keys is looked up by its key, its value decoded.\<close>

lemma query_param_pairs:
  assumes "query_pairs u = ps"
    and "\<forall>(k', v) \<in> set ps. v \<noteq> [] \<and> CHR ''+'' \<notin> set k' \<and> CHR ''%'' \<notin> set k'"
  shows "query_param u k = map_option form_decode (map_of ps k)"
proof -
  have "map (\<lambda>(k', v). (form_decode k', v)) ps = ps"
    using assms(2) by (induction ps) (auto simp: form_decode_plain)
  moreover have "map_of ps k = Some v \<Longrightarrow> v \<noteq> []" for v
    using assms(2) by (auto dest!: map_of_SomeD)
  ultimately show ?thesis
    using assms(1) by (auto simp: query_param_def split: option.split)
qed

lemma query_pairs_single:
  assumes "CHR ''?'' \<notin> set p" "CHR ''#'' \<notin> set p" "CHR ''&'' \<notin> set k" "CHR ''='' \<notin> set k"
    "CHR ''#'' \<notin> set k" "CHR ''&'' \<notin> set v" "CHR ''#'' \<notin> set v"
  shows "query_pairs (p @ ''?'' @ k @ ''='' @ v) = [(k, v)]"
proof -
  have "sent_url (p @ ''?'' @ k @ ''='' @ v) = p @ ''?'' @ k @ ''='' @ v"
    using assms(2,5,7) by (intro sent_url_plain) simp
  moreover have "dropWhile (\<lambda>c. c \<noteq> CHR ''?'') (p @ ''?'' @ k @ ''='' @ v) = CHR ''?'' # k @ ''='' @ v"
    using assms(1) by (induction p) auto
  moreover have "split_on CHR ''&'' (k @ ''='' @ v) = [k @ ''='' @ v]"
    using assms(3,6) by (intro split_on_no_sep) simp
  ultimately show ?thesis
    using kv_split [OF assms(4)] by (simp add: query_pairs_def)
qed

lemma query_param_single:
  assumes "CHR ''?'' \<notin> set p" "CHR ''#'' \<notin> set p" "CHR ''&'' \<notin> set k" "CHR ''='' \<notin> set k"
    "CHR ''#'' \<notin> set k" "CHR ''+'' \<notin> set k" "CHR ''%'' \<notin> set k"
    "CHR ''&'' \<notin> set v" "CHR ''#'' \<notin> set v" "v \<noteq> []"
  shows "query_param (p @ ''?'' @ k @ ''='' @ v) k = Some (form_decode v)"
  using query_param_pairs [OF query_pairs_single [OF assms(1-5,8,9)]] assms(6,7,10) by simp

end
