(* ===== verification/Services.thy ===== *)
theory Services
  imports Routes Movies
begin

text \<open>
  The frontend's data service, \<open>src/frontend/src/services/movies.js\<close>
  (\<open>MoviesDataService\<close>): each method issues one HTTP request through an axios
  instance whose base URL is the backend's \<open>/api/v1/movies\<close>.  A method is modelled by
  the request it sends, a method and a URL relative to the base; the JSON body a method
  is given is sent unchanged and is not part of the model.  axios joins base and URL with
  exactly one slash (\<open>axios_rel\<close>).
\<close>

record http_request =
  hr_method :: http_method
  hr_url :: string

definition axios_rel :: "string \<Rightarrow> string" where
  "axios_rel u = CHR ''/'' # dropWhile (\<lambda>c. c = CHR ''/'') u"

definition service_route :: "http_request \<Rightarrow> endpoint option" where
  "service_route r = route (hr_method r) (axios_rel (hr_url r))"

section \<open>Search URLs\<close>

text \<open>
  \<open>formatFilteredSearch\<close>: \<open>filters.length = findBys.length\<close> is an assignment, not a
  comparison: it cuts or pads \<open>filters\<close> (a padded slot prints as \<open>"undefined"\<close>) and is
  false only when \<open>findBys\<close> is empty.
\<close>

definition formatFilteredSearch :: "string list \<Rightarrow> string list \<Rightarrow> string" where
  "formatFilteredSearch filters findBys =
     (let n = length findBys;
          filters' = take n filters @ replicate (n - length filters) ''undefined''
      in if n = 0 then []
         else ''?'' @ concat (map (\<lambda>i. findBys ! i @ ''='' @ filters' ! i @ ''&'') [0..<n - 1])
              @ findBys ! (n - 1) @ ''='' @ filters' ! (n - 1))"

definition getAll :: "int \<Rightarrow> http_request" where
  "getAll page = \<lparr>hr_method = GET, hr_url = ''?page='' @ string_of_int page\<rparr>"

text \<open>\<open>find(filters, page)\<close>: \<open>filters\<close> is the pair of lists, or a falsy value (\<open>None\<close>).\<close>

definition find :: "(string list \<times> string list) option \<Rightarrow> int \<Rightarrow> http_request" where
  "find filters page =
     (case filters of
        Some (fs, ks) \<Rightarrow> \<lparr>hr_method = GET, hr_url = formatFilteredSearch fs ks @ ''&page='' @ string_of_int page\<rparr>
      | None \<Rightarrow> \<lparr>hr_method = GET, hr_url = ''?page='' @ string_of_int page\<rparr>)"

definition getGenres_req :: http_request where
  "getGenres_req = \<lparr>hr_method = GET, hr_url = ''/genres''\<rparr>"

definition getRated_req :: http_request where
  "getRated_req = \<lparr>hr_method = GET, hr_url = ''/rated''\<rparr>"

definition get_movie :: "string \<Rightarrow> http_request" where
  "get_movie mid = \<lparr>hr_method = GET, hr_url = ''/id/'' @ mid\<rparr>"

section \<open>Reviews and profile\<close>

definition createReview :: http_request where
  "createReview = \<lparr>hr_method = POST, hr_url = ''/reviews''\<rparr>"

definition editReview_req :: http_request where
  "editReview_req = \<lparr>hr_method = PUT, hr_url = ''/reviews''\<rparr>"

definition deleteReview_req :: "string \<Rightarrow> http_request" where
  "deleteReview_req reviewId = \<lparr>hr_method = DELETE, hr_url = ''/reviews?id='' @ reviewId\<rparr>"

definition getUserReviews :: "string \<Rightarrow> http_request" where
  "getUserReviews email = \<lparr>hr_method = GET, hr_url = ''/userReviews?user_id='' @ email\<rparr>"

definition getMoviesReviewed :: "string \<Rightarrow> http_request" where
  "getMoviesReviewed email = \<lparr>hr_method = GET, hr_url = ''/moviesReviewed?user_id='' @ email\<rparr>"

definition getUserByEmail :: "string \<Rightarrow> http_request" where
  "getUserByEmail email = \<lparr>hr_method = GET, hr_url = ''/userData?email='' @ email\<rparr>"

definition getUserRole :: "string \<Rightarrow> http_request" where
  "getUserRole email = \<lparr>hr_method = GET, hr_url = ''/role?email='' @ email\<rparr>"

definition changeUserName :: http_request where
  "changeUserName = \<lparr>hr_method = PUT, hr_url = ''/changeUserName''\<rparr>"

definition changePassword :: http_request where
  "changePassword = \<lparr>hr_method = PUT, hr_url = ''/changePassword''\<rparr>"

definition changeProfilePic :: http_request where
  "changeProfilePic = \<lparr>hr_method = PUT, hr_url = ''/changepfp''\<rparr>"

definition deleteAccount :: http_request where
  "deleteAccount = \<lparr>hr_method = PUT, hr_url = ''/account''\<rparr>"

definition editReviewUserNames :: http_request where
  "editReviewUserNames = \<lparr>hr_method = PUT, hr_url = ''/reviewsUpdateUserName''\<rparr>"

section \<open>Movies and requests\<close>

definition addMovie_req :: http_request where
  "addMovie_req = \<lparr>hr_method = POST, hr_url = ''/addMovie''\<rparr>"

definition addRequest_req :: http_request where
  "addRequest_req = \<lparr>hr_method = POST, hr_url = ''/addRequest''\<rparr>"

definition getRequests :: "string \<Rightarrow> http_request" where
  "getRequests email = \<lparr>hr_method = GET, hr_url = ''/getRequests?email='' @ email\<rparr>"

definition getAllRequests_req :: http_request where
  "getAllRequests_req = \<lparr>hr_method = GET, hr_url = ''/reviewRequests''\<rparr>"

definition deleteRequest_req :: "string \<Rightarrow> http_request" where
  "deleteRequest_req request_id = \<lparr>hr_method = DELETE, hr_url = ''/deleteRequest?id='' @ request_id\<rparr>"

definition denyRequest_req :: http_request where
  "denyRequest_req = \<lparr>hr_method = PUT, hr_url = ''/denyRequest''\<rparr>"

definition deactivateRequest_req :: http_request where
  "deactivateRequest_req = \<lparr>hr_method = PUT, hr_url = ''/deactivateRequest''\<rparr>"

definition acceptRequest_req :: http_request where
  "acceptRequest_req = \<lparr>hr_method = PUT, hr_url = ''/acceptRequest''\<rparr>"

text \<open>The query \<open>apiGetMovies\<close> reads from a request URL.\<close>

definition movies_query_of_url :: "string \<Rightarrow> movies_query" where
  "movies_query_of_url u =
     \<lparr>q_moviesPerPage = query_param u ''moviesPerPage'', q_page = query_param u ''page'',
      q_title = query_param u ''title'', q_genres = query_param u ''genres'',
      q_rated = query_param u ''rated'', q_year = query_param u ''year''\<rparr>"

section \<open>Lemmas\<close>

lemma formatFilteredSearch_join:
  assumes "length fs = length ks" "ks \<noteq> []"
  shows "formatFilteredSearch fs ks = ''?'' @ join_with ''&'' (map (\<lambda>(k, v). k @ ''='' @ v) (zip ks fs))"
proof -
  let ?n = "length ks"
  have up: "[0..<?n] = [0..<?n - 1] @ [?n - 1]"
    using assms(2) by (metis Suc_diff_1 length_greater_0_conv upt_Suc_append zero_le)
  have "concat (map (\<lambda>i. ks ! i @ ''='' @ fs ! i @ ''&'') [0..<?n - 1]) @ ks ! (?n - 1) @ ''='' @ fs ! (?n - 1)
        = join_with ''&'' (map (\<lambda>i. ks ! i @ ''='' @ fs ! i) [0..<?n])"
    using concat_sep_join [of "\<lambda>i. ks ! i @ ''='' @ fs ! i" "''&''" "[0..<?n - 1]" "?n - 1"] up by simp
  moreover have "map (\<lambda>i. ks ! i @ ''='' @ fs ! i) [0..<?n] = map (\<lambda>(k, v). k @ ''='' @ v) (zip ks fs)"
    by (rule map_nth_zip [OF assms(1)])
  ultimately show ?thesis
    using assms by (simp add: formatFilteredSearch_def Let_def)
qed

text \<open>The URL \<open>find\<close> builds for a non-empty search: the pairs joined by \<open>&\<close>, then the page.\<close>

lemma find_url:
  assumes "length fs = length ks" "ks \<noteq> []"
  shows "hr_url (find (Some (fs, ks)) page)
         = ''?'' @ join_with ''&'' (map (\<lambda>(k, v). k @ ''='' @ v) (zip ks fs @ [(''page'', string_of_int page)]))"
proof -
  have "zip ks fs \<noteq> []"
    using assms by (cases ks; cases fs) simp_all
  then show ?thesis
    using assms by (simp add: find_def formatFilteredSearch_join join_with_snoc)
qed

lemma find_pairs_plain:
  assumes "\<forall>k \<in> set ks. CHR ''&'' \<notin> set k \<and> CHR ''='' \<notin> set k \<and> CHR ''#'' \<notin> set k"
    and "\<forall>v \<in> set fs. CHR ''&'' \<notin> set v \<and> CHR ''#'' \<notin> set v"
  shows "\<forall>(k, v) \<in> set (zip ks fs @ [(''page'', string_of_int page)]).
           CHR ''&'' \<notin> set k \<and> CHR ''='' \<notin> set k \<and> CHR ''#'' \<notin> set k
           \<and> CHR ''&'' \<notin> set v \<and> CHR ''#'' \<notin> set v"
  using assms string_of_int_no_sep by (auto dest: set_zip_leftD set_zip_rightD)

lemma find_query_lookup:
  assumes "length fs = length ks" "ks \<noteq> []" "''page'' \<notin> set ks"
    and "\<forall>k \<in> set ks. CHR ''&'' \<notin> set k \<and> CHR ''='' \<notin> set k \<and> CHR ''#'' \<notin> set k
                      \<and> CHR ''+'' \<notin> set k \<and> CHR ''%'' \<notin> set k"
    and "\<forall>v \<in> set fs. v \<noteq> [] \<and> CHR ''&'' \<notin> set v \<and> CHR ''#'' \<notin> set v"
  shows "query_param (hr_url (find (Some (fs, ks)) page))
         = (map_of (zip ks (map form_decode fs)))(''page'' \<mapsto> string_of_int page)"
proof
  fix k
  have "\<forall>k \<in> set ks. CHR ''&'' \<notin> set k \<and> CHR ''='' \<notin> set k \<and> CHR ''#'' \<notin> set k"
    "\<forall>v \<in> set fs. CHR ''&'' \<notin> set v \<and> CHR ''#'' \<notin> set v"
    using assms(4,5) by blast+
  note plain = find_pairs_plain [OF this, where page = page]
  have pairs: "query_pairs (hr_url (find (Some (fs, ks)) page)) = zip ks fs @ [(''page'', string_of_int page)]"
    unfolding find_url [OF assms(1,2)] by (rule query_pairs_join [OF _ plain]) simp
  have page_plain: "form_decode (string_of_int page) = string_of_int page"
    using string_of_int_no_sep by (blast intro: form_decode_plain)
  have "\<forall>(k', v) \<in> set (zip ks fs @ [(''page'', string_of_int page)]).
          v \<noteq> [] \<and> CHR ''+'' \<notin> set k' \<and> CHR ''%'' \<notin> set k'"
    using assms(4,5) by (auto dest: set_zip_leftD set_zip_rightD)
  from query_param_pairs [OF pairs this] show "query_param (hr_url (find (Some (fs, ks)) page)) k
    = ((map_of (zip ks (map form_decode fs)))(''page'' \<mapsto> string_of_int page)) k"
    by (cases "k = ''page''")
      (simp_all add: map_add_def map_of_zip_notin [OF assms(3)] map_of_zip_map_values page_plain
        split: option.splits)
qed

text \<open>A search request of the movie list, read by \<open>apiGetMovies\<close>.\<close>

lemma apiGetMovies_find:
  assumes "length fs = length ks" "ks \<noteq> []" "set ks \<subseteq> {''title'', ''year'', ''genres'', ''rated''}"
    and "\<forall>v \<in> set fs. v \<noteq> [] \<and> CHR ''&'' \<notin> set v \<and> CHR ''#'' \<notin> set v"
  shows "apiGetMovies (movies_query_of_url (hr_url (find (Some (fs, ks)) page))) c
         = Ok (getMovies \<lparr>f_title = map_option QStr (map_of (zip ks (map form_decode fs)) ''title''),
                          f_genres = map_option QStr (map_of (zip ks (map form_decode fs)) ''genres''),
                          f_rated = map_option QStr (map_of (zip ks (map form_decode fs)) ''rated''),
                          f_year = map_option QStr (map_of (zip ks (map form_decode fs)) ''year'')\<rparr>
                (Some page) (Some 21) c)"
proof -
  have keys: "\<forall>k \<in> set ks. CHR ''&'' \<notin> set k \<and> CHR ''='' \<notin> set k \<and> CHR ''#'' \<notin> set k
                             \<and> CHR ''+'' \<notin> set k \<and> CHR ''%'' \<notin> set k"
    "''page'' \<notin> set ks" "''moviesPerPage'' \<notin> set ks"
    using assms(3) by auto
  have q: "query_param (hr_url (find (Some (fs, ks)) page))
           = (map_of (zip ks (map form_decode fs)))(''page'' \<mapsto> string_of_int page)"
    by (rule find_query_lookup [OF assms(1,2) keys(2,1) assms(4)])
  have none: "map_of (zip ks (map form_decode fs)) ''moviesPerPage'' = None"
    by (rule map_of_zip_notin [OF keys(3)])
  show ?thesis
    by (simp add: apiGetMovies_def movies_query_of_url_def q none js_parseInt_10_string_of_int)
qed

lemma query_pairs_sent_url: "query_pairs (sent_url u) = query_pairs u"
  by (simp add: query_pairs_def sent_url_def takeWhile_idem)

section \<open>Properties\<close>

text \<open>each method of the data service other than \<open>find\<close> and \<open>get\<close> sends its request to the backend endpoint of the same name: method and path match a route of \<open>movies.route.js\<close> and no earlier route captures it.\<close>

theorem service_endpoints:
  "service_route getGenres_req = Some EGetGenres \<and> service_route getRated_req = Some EGetRated
   \<and> service_route createReview = Some EAddReview \<and> service_route editReview_req = Some EEditReview
   \<and> service_route (deleteReview_req r) = Some EDeleteReview
   \<and> service_route (getUserReviews e) = Some EUserReviews
   \<and> service_route (getMoviesReviewed e) = Some EMoviesReviewed
   \<and> service_route (getUserByEmail e) = Some EUserData \<and> service_route (getUserRole e) = Some ERole
   \<and> service_route changeUserName = Some EChangeUserName \<and> service_route changePassword = Some EChangePassword
   \<and> service_route changeProfilePic = Some EChangePfp \<and> service_route deleteAccount = Some EAccount
   \<and> service_route editReviewUserNames = Some EReviewsUpdateUserName
   \<and> service_route addMovie_req = Some EAddMovie \<and> service_route addRequest_req = Some EAddRequest
   \<and> service_route (getRequests e) = Some EGetRequests \<and> service_route getAllRequests_req = Some EReviewRequests
   \<and> service_route (deleteRequest_req r) = Some EDeleteRequest \<and> service_route denyRequest_req = Some EDenyRequest
   \<and> service_route deactivateRequest_req = Some EDeactivateRequest
   \<and> service_route acceptRequest_req = Some EAcceptRequest
   \<and> service_route (getAll p) = Some EGetMovies"
  by (simp add: service_route_def route_def static_routes_def url_path_def sent_url_def strip_slash_def axios_rel_def
      ascii_lower_def getGenres_req_def getRated_req_def createReview_def editReview_req_def deleteReview_req_def
      getUserReviews_def getMoviesReviewed_def getUserByEmail_def getUserRole_def changeUserName_def
      changePassword_def changeProfilePic_def deleteAccount_def editReviewUserNames_def addMovie_req_def
      addRequest_req_def getRequests_def getAllRequests_req_def deleteRequest_req_def denyRequest_req_def
      deactivateRequest_req_def acceptRequest_req_def getAll_def)

text \<open>C21: a user whose e-mail address holds a \<open>+\<close> is looked up under another address: the five requests that put the address in the query string (\<open>getUserReviews\<close>, \<open>getMoviesReviewed\<close>, \<open>getUserByEmail\<close>, \<open>getUserRole\<close>, \<open>getRequests\<close>) do not encode it, and the backend's query parser reads every \<open>+\<close> as a space.\<close>

theorem email_plus_decoded:
  assumes "e \<noteq> []" "CHR ''&'' \<notin> set e" "CHR ''#'' \<notin> set e"
  shows "query_param (hr_url (getUserReviews e)) ''user_id'' = Some (form_decode e)
    \<and> query_param (hr_url (getMoviesReviewed e)) ''user_id'' = Some (form_decode e)
    \<and> query_param (hr_url (getUserByEmail e)) ''email'' = Some (form_decode e)
    \<and> query_param (hr_url (getUserRole e)) ''email'' = Some (form_decode e)
    \<and> query_param (hr_url (getRequests e)) ''email'' = Some (form_decode e)"
  using query_param_single [of "''/userReviews''" "''user_id''" e] query_param_single [of "''/moviesReviewed''" "''user_id''" e]
    query_param_single [of "''/userData''" "''email''" e] query_param_single [of "''/role''" "''email''" e]
    query_param_single [of "''/getRequests''" "''email''" e] assms
  by (simp add: getUserReviews_def getMoviesReviewed_def getUserByEmail_def getUserRole_def getRequests_def)

lemma email_plus_decoded_witness:
  "query_param (hr_url (getUserReviews ''ann+1@mail.com'')) ''user_id'' = Some ''ann 1@mail.com''"
  using email_plus_decoded [of "''ann+1@mail.com''"] by (simp add: form_decode_def)



text \<open>C23: a search whose first filter holds a \<open>#\<close> loses the rest of its query: \<open>find\<close> does not encode the filter, the browser keeps the part after \<open>#\<close> as the URL fragment and does not send it, so the backend sees only the first category with the part of its filter before the \<open>#\<close>, and no page.\<close>

theorem hash_filter_cuts_search:
  assumes "length fs = length ks" "k \<in> {''title'', ''year'', ''genres'', ''rated''}"
    "CHR ''&'' \<notin> set a" "CHR ''#'' \<notin> set a"
  shows "query_pairs (hr_url (find (Some ((a @ ''#'' @ b) # fs, k # ks)) page)) = [(k, a)]
    \<and> query_param (hr_url (find (Some ((a @ ''#'' @ b) # fs, k # ks)) page)) ''page'' = None"
proof -
  let ?u = "hr_url (find (Some ((a @ ''#'' @ b) # fs, k # ks)) page)"
  have k: "CHR ''&'' \<notin> set k" "CHR ''='' \<notin> set k" "CHR ''#'' \<notin> set k"
    "CHR ''+'' \<notin> set k" "CHR ''%'' \<notin> set k" "k \<noteq> ''page''"
    using assms(2) by auto
  have u: "?u = (''?'' @ k @ ''='' @ a) @ CHR ''#'' # (b @ ''&'' @ join_with ''&'' (map (\<lambda>(k, v). k @ ''='' @ v)
              (zip ks fs @ [(''page'', string_of_int page)])))"
    using assms(1) by (simp add: find_url join_with_Cons)
  have "CHR ''#'' \<notin> set (''?'' @ k @ ''='' @ a)"
    using assms(4) k(3) by simp
  then have "sent_url ?u = ''?'' @ k @ ''='' @ a"
    unfolding u by (rule sent_url_cut)
  then have pairs: "query_pairs ?u = [(k, a)]"
    using query_pairs_single [of "[]" k a] query_pairs_sent_url [of ?u] assms(3,4) k(1-3) by simp
  moreover have "form_decode k = k"
    using k(4,5) by (rule form_decode_plain)
  ultimately show ?thesis
    using k(6) by (simp add: query_param_def)
qed

lemma hash_filter_cuts_search_witness:
  "query_pairs (hr_url (find (Some ([''#Alive''], [''title''])) 3)) = [(''title'', [])]
   \<and> query_param (hr_url (find (Some ([''#Alive''], [''title''])) 3)) ''page'' = None"
  using hash_filter_cuts_search [of "[]" "[]" "''title''" "[]" "''Alive''" 3] by simp

text \<open>\<open>get(id)\<close> reaches the \<open>/id/:id\<close> route with the id as its parameter, for a non-empty id without \<open>/\<close>, \<open>?\<close> or \<open>#\<close>.\<close>

theorem get_movie_routes:
  assumes "mid \<noteq> []" "CHR ''/'' \<notin> set mid" "CHR ''?'' \<notin> set mid" "CHR ''#'' \<notin> set mid"
  shows "service_route (get_movie mid) = Some (EGetMovieById mid)"
proof -
  have "\<forall>x \<in> set mid. x \<noteq> CHR ''?''"
    using assms(3) by blast
  moreover have "sent_url (''/id/'' @ mid) = ''/id/'' @ mid"
    using assms(4) by (simp add: sent_url_plain)
  ultimately have "url_path (''/id/'' @ mid) = ''/id/'' @ mid"
    by (simp add: url_path_def)
  moreover have "last (''/id/'' @ mid) \<noteq> CHR ''/''"
    using assms(1,2) last_in_set by fastforce
  ultimately show ?thesis
    using assms(1,2)
    by (simp add: service_route_def get_movie_def axios_rel_def route_def strip_slash_def ascii_lower_def)
qed

lemma get_movie_routes_witness: "service_route (get_movie ''000000000000000000000000'') = Some (EGetMovieById ''000000000000000000000000'')"
  using get_movie_routes [of "''000000000000000000000000''"] by simp

end
