(* ===== verification/MovieForm.thy ===== *)
theory MovieForm
  imports AddMovie Services
begin

text \<open>
  The request form of \<open>components/movie-form.js\<close> (\<open>MovieForm\<close>): its input fields, the
  check \<open>validateInputs\<close>, and \<open>addMovie\<close>, which looks the movie up with
  \<open>MoviesDataService.find\<close>, then either adds it (an admin) or, below the limit of five
  pending requests, sends a request (a user).  Each call is answered later: the page keeps
  the calls in flight with the field values they captured, a reply runs the backend
  handler on the database of theory \<open>Lifecycle\<close> and then the code's continuation, and
  \<open>setTimeout(resetFields, 10000)\<close> is a pending timer.  \<open>form_reachable\<close> interleaves the
  user's input, the replies in any order, the timers and any other client's endpoint call.
\<close>

section \<open>State\<close>

text \<open>
  The fields of the form.  \<open>genres\<close> and \<open>imdb\<close> hold the result of \<open>split(",")\<close>; their
  initial and reset value, the string \<open>""\<close>, has length 0 and is never read otherwise, so
  it is the empty list here.
\<close>

record form_fields =
  mf_title :: string
  mf_year :: string
  mf_fullPlot :: string
  mf_genres :: "string list"
  mf_imdb :: "string list"
  mf_poster :: string
  mf_runtime :: string
  mf_rated :: string
  mf_released :: string

text \<open>A call in flight, with the field values of the render that issued it.\<close>

datatype form_call =
    FindDup form_fields
  | GetRequestsCall form_fields
  | AddMovieCall form_fields
  | AddRequestCall form_fields

text \<open>
  \<open>submittedRequest\<close> lists the arguments the form passed to the parent's callback
  \<open>props.submittedRequest\<close> (the \<open>Submitted\<close> event of theory \<open>AddMovie\<close>).
\<close>

record form_state =
  mf_fields :: form_fields
  requestSubmitted :: bool
  mf_alerts :: "string list"
  mf_calls :: "form_call list"
  mf_timers :: nat
  submittedRequest :: "bool list"

definition empty_fields :: form_fields where
  "empty_fields = \<lparr>mf_title = [], mf_year = [], mf_fullPlot = [], mf_genres = [], mf_imdb = [],
     mf_poster = [], mf_runtime = [], mf_rated = [], mf_released = []\<rparr>"

definition movie_form_init :: form_state where
  "movie_form_init = \<lparr>mf_fields = empty_fields, requestSubmitted = False, mf_alerts = [], mf_calls = [],
     mf_timers = 0, submittedRequest = []\<rparr>"

section \<open>Validation\<close>

text \<open>
  \<open>a > n\<close> and \<open>a < n\<close> for a string \<open>a\<close> and a number \<open>n\<close> compare \<open>Number(a)\<close>;
  against \<open>NaN\<close> (\<open>None\<close>) both are false.
\<close>

definition js_gt :: "rat option \<Rightarrow> rat \<Rightarrow> bool" where
  "js_gt x n = (case x of Some v \<Rightarrow> n < v | None \<Rightarrow> False)"

definition js_lt :: "rat option \<Rightarrow> rat \<Rightarrow> bool" where
  "js_lt x n = (case x of Some v \<Rightarrow> v < n | None \<Rightarrow> False)"

definition isReleasedValid :: "string \<Rightarrow> bool" where
  "isReleasedValid released =
     (let releasedArr = split_on CHR ''-'' released
      in if length releasedArr \<noteq> 3 then False
         else if js_gt (js_Number (releasedArr ! 0)) 2050 \<or> js_lt (js_Number (releasedArr ! 0)) 1877 then False
         else if js_gt (js_Number (releasedArr ! 1)) 12 \<or> js_lt (js_Number (releasedArr ! 1)) 1 then False
         else if js_gt (js_Number (releasedArr ! 2)) 31 \<or> js_lt (js_Number (releasedArr ! 2)) 1 then False
         else True)"

text \<open>\<open>isNaN(parseInt(s)) || parseInt(s) > hi || parseInt(s) < lo\<close>, negated.\<close>

definition int_in :: "string \<Rightarrow> int \<Rightarrow> int \<Rightarrow> bool" where
  "int_in s lo hi = (case js_parseInt s of None \<Rightarrow> False | Some n \<Rightarrow> \<not> (hi < n) \<and> \<not> (n < lo))"

definition validateInputs :: "bool \<Rightarrow> form_fields \<Rightarrow> bool" where
  "validateInputs admin f =
     (if length (mf_title f) < 1 then False
      else if \<not> int_in (mf_year f) 1877 2050 then False
      else if length (mf_fullPlot f) < 1 then False
      else if length (mf_genres f) < 1 then False
      else if \<not> int_in (mf_runtime f) 30 300 then False
      else if 10 \<le> length (mf_rated f) then False
      else if length (split_on CHR ''-'' (mf_released f)) \<noteq> 3 \<or> \<not> isReleasedValid (mf_released f) then False
      else if admin \<and> length (mf_imdb f) < 3 then False
      else if admin \<and> length (mf_poster f) < 1 then False
      else True)"

section \<open>The bodies sent\<close>

text \<open>\<open>String.prototype.trim\<close>.\<close>

definition js_trim :: "string \<Rightarrow> string" where
  "js_trim s = rev (dropWhile js_ws (rev (dropWhile js_ws s)))"

text \<open>
  \<open>movieInfo\<close> of \<open>addMovie\<close> as \<open>POST /addMovie\<close> reads it: the trimmed genres, and the
  imdb array, which the backend turns into a string by joining it with commas.
\<close>

definition movie_info :: "form_fields \<Rightarrow> movie_body" where
  "movie_info f =
     \<lparr>mb_title = mf_title f, mb_year = mf_year f, mb_fullplot = mf_fullPlot f,
      mb_genres = map js_trim (mf_genres f), mb_imdb = join_with '','' (mf_imdb f),
      mb_poster = mf_poster f, mb_runtime = mf_runtime f, mb_released = mf_released f,
      mb_rated = mf_rated f\<rparr>"

text \<open>\<open>movieInfo\<close> with \<open>user_id\<close>, \<open>status\<close> and \<open>active\<close> set, as \<open>POST /addRequest\<close> reads it.\<close>

definition request_info :: "email \<Rightarrow> form_fields \<Rightarrow> request_body" where
  "request_info email f =
     \<lparr>b_title = mf_title f, b_year = mf_year f, b_fullplot = mf_fullPlot f,
      b_genres = map js_trim (mf_genres f), b_runtime = mf_runtime f, b_released = mf_released f,
      b_rated = mf_rated f, b_user_id = email, b_status = ''pending'', b_active = True\<rparr>"

text \<open>
  The duplicate search: \<open>title\<close>, \<open>year\<close>, \<open>genres[0]\<close> (untrimmed; \<open>undefined\<close> prints
  as \<open>"undefined"\<close>) and \<open>rated\<close>, page 0.
\<close>

definition dup_search :: "form_fields \<Rightarrow> http_request" where
  "dup_search f =
     find (Some ([mf_title f, mf_year f, case js_index (mf_genres f) 0 of Some g \<Rightarrow> g | None \<Rightarrow> ''undefined'',
                  mf_rated f], [''title'', ''year'', ''genres'', ''rated''])) 0"

text \<open>
  \<open>currMovie.year == year\<close>: a stored number against the typed string, compared as
  numbers; a \<open>NaN\<close> year is sent as \<open>null\<close>, which equals no string.
\<close>

definition loose_eq_year :: "int option \<Rightarrow> string \<Rightarrow> bool" where
  "loose_eq_year y s = (case (y, js_Number s) of (Some n, Some v) \<Rightarrow> v = of_int n | _ \<Rightarrow> False)"

text \<open>The loop over \<open>moviesList\<close> that sets \<open>duplicate\<close> and breaks.\<close>

definition has_duplicate :: "form_fields \<Rightarrow> (oid \<times> movie) list \<Rightarrow> bool" where
  "has_duplicate f ml = list_ex (\<lambda>(_, m). mv_title m = mf_title f \<and> loose_eq_year (mv_year m) (mf_year f)) ml"

text \<open>The loop that counts the user's pending active requests.\<close>

fun count_pending :: "(oid \<times> movie_request) list \<Rightarrow> nat" where
  "count_pending [] = 0"
| "count_pending ((_, r) # rl) = (if rq_status r = ''pending'' \<and> rq_active r then Suc (count_pending rl) else count_pending rl)"

section \<open>Handlers\<close>

definition form_alert :: "string \<Rightarrow> form_state \<Rightarrow> form_state" where
  "form_alert msg st = st\<lparr>mf_alerts := mf_alerts st @ [msg]\<rparr>"

definition form_issue :: "form_call \<Rightarrow> form_state \<Rightarrow> form_state" where
  "form_issue c st = st\<lparr>mf_calls := mf_calls st @ [c]\<rparr>"

text \<open>\<open>resetFields\<close>: the admin's imdb and poster fields are cleared only for an admin.\<close>

definition resetFields :: "bool \<Rightarrow> form_state \<Rightarrow> form_state" where
  "resetFields admin st =
     st\<lparr>mf_fields := (mf_fields st)\<lparr>mf_title := [], mf_year := [], mf_fullPlot := [], mf_genres := [],
                               mf_runtime := [], mf_rated := [], mf_released := [],
                               mf_imdb := (if admin then [] else mf_imdb (mf_fields st)),
                               mf_poster := (if admin then [] else mf_poster (mf_fields st))\<rparr>,
        requestSubmitted := False\<rparr>"

text \<open>\<open>setTimeout(resetFields, 10000)\<close>.\<close>

definition set_timer :: "form_state \<Rightarrow> form_state" where
  "set_timer st = st\<lparr>mf_timers := Suc (mf_timers st)\<rparr>"

text \<open>
  The continuation of each call, run when its reply arrives; the backend handler runs
  then.  A rejected call (status 500) reaches only \<open>catch\<close>.
\<close>

fun form_reply :: "email \<Rightarrow> bool \<Rightarrow> timestamp \<Rightarrow> form_call \<Rightarrow> form_state \<times> db \<Rightarrow> form_state \<times> db" where
  "form_reply email admin now (FindDup f) (st, s) =
     (case apiGetMovies (movies_query_of_url (hr_url (dup_search f))) (db_movies s) of
        Ok moviesList \<Rightarrow>
          (if has_duplicate f moviesList
           then (resetFields admin (form_alert ''This movie is already available in MovieDB!'' st), s)
           else if admin then (form_issue (AddMovieCall f) st, s)
           else (form_issue (GetRequestsCall f) st, s))
      | _ \<Rightarrow> (st, s))"
| "form_reply email admin now (AddMovieCall f) (st, s) =
     (let (resp, ms') = apiAddMovie now (movie_info f) (db_movies s);
          s' = s\<lparr>db_movies := ms'\<rparr>
      in if resp = Ok ''success'' then (set_timer (form_alert ''Movie added successfully!'' st), s')
         else (st, s'))"
| "form_reply email admin now (GetRequestsCall f) (st, s) =
     (case apiGetRequests email (db_requests s) of
        Ok requestList \<Rightarrow>
          (if 5 \<le> count_pending requestList
           then (form_alert ''You've reached your request limit for now! Please give the admin some time to review your pending requests. Thank you!'' st, s)
           else (form_issue (AddRequestCall f) st, s))
      | _ \<Rightarrow> (st, s))"
| "form_reply email admin now (AddRequestCall f) (st, s) =
     (let (resp, rs') = apiSendRequest now (request_info email f) (db_requests s);
          s' = s\<lparr>db_requests := rs'\<rparr>
      in case resp of
           Ok r \<Rightarrow> (if r = ''success'' then (set_timer (st\<lparr>requestSubmitted := True\<rparr>), s')
                    else (form_alert ''Unable to submit request. Please try again or contact the admin.'' st, s'))
         | _ \<Rightarrow> (st, s'))"

text \<open>The reply to the \<open>i\<close>-th call in flight arrives.\<close>

definition form_deliver :: "email \<Rightarrow> bool \<Rightarrow> timestamp \<Rightarrow> nat \<Rightarrow> form_state \<times> db \<Rightarrow> form_state \<times> db" where
  "form_deliver email admin now i ss =
     (let (st, s) = ss
      in form_reply email admin now (mf_calls st ! i)
           (st\<lparr>mf_calls := take i (mf_calls st) @ drop (Suc i) (mf_calls st)\<rparr>, s))"

text \<open>A pending \<open>resetFields\<close> timer fires.\<close>

definition fire_timer :: "bool \<Rightarrow> form_state \<Rightarrow> form_state" where
  "fire_timer admin st = resetFields admin (st\<lparr>mf_timers := mf_timers st - 1\<rparr>)"

section \<open>Events\<close>

datatype form_event =
    ChangeTitle string | ChangeYear string | ChangeFullPlot string | ChangeGenres string
  | ChangeImdb string | ChangePoster string | ChangeRuntime string | ChangeReleased string
  | ChangeRated string | SubmitClick | CloseSubmitted

definition set_fields :: "(form_fields \<Rightarrow> form_fields) \<Rightarrow> form_state \<Rightarrow> form_state" where
  "set_fields u st = st\<lparr>mf_fields := u (mf_fields st)\<rparr>"

text \<open>\<open>addMovie\<close>, the submit button's handler, up to its first call.\<close>

definition addMovie_click :: "bool \<Rightarrow> form_state \<Rightarrow> form_state" where
  "addMovie_click admin st =
     (if \<not> validateInputs admin (mf_fields st)
      then form_alert ''Please fill out all fields with valid information.'' st
      else form_issue (FindDup (mf_fields st)) st)"

definition form_handle :: "bool \<Rightarrow> form_event \<Rightarrow> form_state \<Rightarrow> form_state" where
  "form_handle admin e st =
     (case e of
        ChangeTitle v \<Rightarrow> set_fields (\<lambda>f. f\<lparr>mf_title := v\<rparr>) st
      | ChangeYear v \<Rightarrow> set_fields (\<lambda>f. f\<lparr>mf_year := v\<rparr>) st
      | ChangeFullPlot v \<Rightarrow> set_fields (\<lambda>f. f\<lparr>mf_fullPlot := v\<rparr>) st
      | ChangeGenres v \<Rightarrow> set_fields (\<lambda>f. f\<lparr>mf_genres := split_on CHR '','' v\<rparr>) st
      | ChangeImdb v \<Rightarrow> set_fields (\<lambda>f. f\<lparr>mf_imdb := split_on CHR '','' v\<rparr>) st
      | ChangePoster v \<Rightarrow> set_fields (\<lambda>f. f\<lparr>mf_poster := v\<rparr>) st
      | ChangeRuntime v \<Rightarrow> set_fields (\<lambda>f. f\<lparr>mf_runtime := v\<rparr>) st
      | ChangeReleased v \<Rightarrow> set_fields (\<lambda>f. f\<lparr>mf_released := v\<rparr>) st
      | ChangeRated v \<Rightarrow> set_fields (\<lambda>f. f\<lparr>mf_rated := v\<rparr>) st
      | SubmitClick \<Rightarrow> addMovie_click admin st
      | CloseSubmitted \<Rightarrow> st\<lparr>submittedRequest := submittedRequest st @ [True]\<rparr>)"

text \<open>
  The controls rendered: the \<open>Request Submitted!\<close> dialog, whose close button calls the
  parent, replaces the form while \<open>requestSubmitted\<close> holds; the poster and imdb inputs
  are shown to admins only.
\<close>

definition form_offered :: "bool \<Rightarrow> form_state \<Rightarrow> form_event \<Rightarrow> bool" where
  "form_offered admin st e =
     (case e of
        CloseSubmitted \<Rightarrow> requestSubmitted st
      | ChangeImdb _ \<Rightarrow> admin \<and> \<not> requestSubmitted st
      | ChangePoster _ \<Rightarrow> admin \<and> \<not> requestSubmitted st
      | _ \<Rightarrow> \<not> requestSubmitted st)"

section \<open>Runs\<close>

text \<open>
  The states of the form of user \<open>email\<close> (an admin when \<open>admin\<close>, \<open>props.isAdmin\<close>): it opens on any
  database with the lifecycle invariant; then the user acts on a rendered control, a reply
  or a timer arrives, or another client runs an endpoint.
\<close>

inductive form_reachable :: "email \<Rightarrow> bool \<Rightarrow> form_state \<times> db \<Rightarrow> bool" for email admin where
  open_form: "db_inv s \<Longrightarrow> form_reachable email admin (movie_form_init, s)"
| user: "form_reachable email admin (st, s) \<Longrightarrow> form_offered admin st e \<Longrightarrow>
         form_reachable email admin (form_handle admin e st, s)"
| reply: "form_reachable email admin (st, s) \<Longrightarrow> i < length (mf_calls st) \<Longrightarrow>
          form_reachable email admin (form_deliver email admin now i (st, s))"
| timer: "form_reachable email admin (st, s) \<Longrightarrow> 0 < mf_timers st \<Longrightarrow>
          form_reachable email admin (fire_timer admin st, s)"
| other: "form_reachable email admin (st, s) \<Longrightarrow> op_allowed op \<Longrightarrow>
          form_reachable email admin (st, db_step op s)"

text \<open>The steps the page takes without the user: a reply or a timer.\<close>

inductive form_internal :: "email \<Rightarrow> bool \<Rightarrow> form_state \<times> db \<Rightarrow> form_state \<times> db \<Rightarrow> bool"
  for email admin where
  reply: "i < length (mf_calls st) \<Longrightarrow> form_internal email admin (st, s) (form_deliver email admin now i (st, s))"
| timer: "0 < mf_timers st \<Longrightarrow> form_internal email admin (st, s) (fire_timer admin st, s)"

definition form_quiet :: "form_state \<Rightarrow> bool" where
  "form_quiet st \<longleftrightarrow> mf_calls st = [] \<and> mf_timers st = 0"

text \<open>
  The work still outstanding: a call weighs the calls its continuation may still make
  and the timer it may set; a timer weighs one.
\<close>

fun call_weight :: "form_call \<Rightarrow> nat" where
  "call_weight (FindDup _) = 4"
| "call_weight (GetRequestsCall _) = 3"
| "call_weight (AddRequestCall _) = 2"
| "call_weight (AddMovieCall _) = 2"

definition form_weight :: "form_state \<Rightarrow> nat" where
  "form_weight st = sum_list (map call_weight (mf_calls st)) + mf_timers st"

text \<open>
  The runs in which the user submits only when no call of an earlier submission is in
  flight and no other client sends requests in the user's name.
\<close>

fun sent_for :: "email \<Rightarrow> request_op \<Rightarrow> bool" where
  "sent_for email (SendReq _ b) = (b_user_id b = email)"
| "sent_for email _ = False"

inductive form_seq_reachable :: "email \<Rightarrow> form_state \<times> db \<Rightarrow> bool" for email where
  open_form: "db_inv s \<Longrightarrow> count_pending (getUserRequests email (db_requests s)) \<le> 5 \<Longrightarrow>
              form_seq_reachable email (movie_form_init, s)"
| user: "form_seq_reachable email (st, s) \<Longrightarrow> form_offered False st e \<Longrightarrow> (e = SubmitClick \<longrightarrow> mf_calls st = []) \<Longrightarrow>
         form_seq_reachable email (form_handle False e st, s)"
| reply: "form_seq_reachable email (st, s) \<Longrightarrow> i < length (mf_calls st) \<Longrightarrow>
          form_seq_reachable email (form_deliver email False now i (st, s))"
| timer: "form_seq_reachable email (st, s) \<Longrightarrow> 0 < mf_timers st \<Longrightarrow>
          form_seq_reachable email (fire_timer False st, s)"
| other: "form_seq_reachable email (st, s) \<Longrightarrow> op_allowed op \<Longrightarrow> \<not> sent_for email op \<Longrightarrow>
          form_seq_reachable email (st, db_step op s)"

text \<open>A pending active request of the user.\<close>

definition user_pending :: "email \<Rightarrow> oid \<times> movie_request \<Rightarrow> bool" where
  "user_pending email x \<longleftrightarrow> rq_user_id (snd x) = email \<and> rq_status (snd x) = ''pending'' \<and> rq_active (snd x)"

text \<open>
  The field values a call carries, and what every call in flight satisfies: its values
  passed \<open>validateInputs\<close>, and only an admin's form adds movies.
\<close>

definition call_fields :: "form_call \<Rightarrow> form_fields" where
  "call_fields c = (case c of FindDup f \<Rightarrow> f | GetRequestsCall f \<Rightarrow> f | AddMovieCall f \<Rightarrow> f | AddRequestCall f \<Rightarrow> f)"

definition call_ok :: "bool \<Rightarrow> form_call \<Rightarrow> bool" where
  "call_ok admin c \<longleftrightarrow> validateInputs admin (call_fields c)
     \<and> (case c of FindDup _ \<Rightarrow> True | AddMovieCall _ \<Rightarrow> admin | _ \<Rightarrow> \<not> admin)"

text \<open>
  The shape of the documents the form writes: what \<open>validateInputs\<close> promises, as the
  backend stores it.
\<close>

definition request_typed :: "email \<Rightarrow> movie_request \<Rightarrow> bool" where
  "request_typed email r \<longleftrightarrow> rq_title r \<noteq> [] \<and> rq_fullplot r \<noteq> [] \<and> rq_genres r \<noteq> []
     \<and> (case rq_year r of Some y \<Rightarrow> 1877 \<le> y \<and> y \<le> 2050 | None \<Rightarrow> False)
     \<and> (case rq_runtime r of Some n \<Rightarrow> 30 \<le> n \<and> n \<le> 300 | None \<Rightarrow> False)
     \<and> length (rq_rated r) < 10 \<and> rq_user_id r = email \<and> rq_status r = ''pending'' \<and> rq_active r
     \<and> rq_movie_id r = None"

definition movie_typed :: "movie \<Rightarrow> bool" where
  "movie_typed m \<longleftrightarrow> mv_title m \<noteq> [] \<and> mv_genres m \<noteq> []
     \<and> (case mv_fullplot m of Some p \<Rightarrow> p \<noteq> [] | None \<Rightarrow> False)
     \<and> (case mv_year m of Some y \<Rightarrow> 1877 \<le> y \<and> y \<le> 2050 | None \<Rightarrow> False)
     \<and> (case mv_runtime m of Some n \<Rightarrow> 30 \<le> n \<and> n \<le> 300 | None \<Rightarrow> False)
     \<and> (case mv_poster m of Some p \<Rightarrow> p \<noteq> [] | None \<Rightarrow> False)
     \<and> (case mv_rated m of Some r \<Rightarrow> length r < 10 | None \<Rightarrow> False)"

section \<open>Samples\<close>

text \<open>A user's filled-in form, and a database holding four pending requests of that user.\<close>

definition heat_fields :: form_fields where
  "heat_fields = empty_fields\<lparr>mf_title := ''Heat'', mf_year := ''1995'', mf_fullPlot := ''A heist.'',
     mf_genres := [''Crime''], mf_runtime := ''170'', mf_rated := ''R'', mf_released := ''1995-12-15''\<rparr>"

definition heat_form :: form_state where
  "heat_form = movie_form_init\<lparr>mf_fields := heat_fields\<rparr>"

definition heat_typing :: "form_event list" where
  "heat_typing = [ChangeTitle ''Heat'', ChangeYear ''1995'', ChangeFullPlot ''A heist.'', ChangeGenres ''Crime'',
     ChangeRuntime ''170'', ChangeRated ''R'', ChangeReleased ''1995-12-15'']"

definition four_pending_db :: db where
  "four_pending_db = \<lparr>db_movies = empty_coll,
     db_requests = \<lparr>docs = [(0, heat_request), (1, heat_request), (2, heat_request), (3, heat_request)],
                    next_oid = 4\<rparr>\<rparr>"

text \<open>The events that only edit a field the form shows.\<close>

definition typing_event :: "bool \<Rightarrow> form_event \<Rightarrow> bool" where
  "typing_event a e =
     (case e of SubmitClick \<Rightarrow> False | CloseSubmitted \<Rightarrow> False | ChangeImdb _ \<Rightarrow> a | ChangePoster _ \<Rightarrow> a | _ \<Rightarrow> True)"

section \<open>Lemmas\<close>

subsection \<open>Outstanding work decreases\<close>

lemma form_weight_simps [simp]:
  "form_weight (form_alert msg st) = form_weight st"
  "form_weight (resetFields a st) = form_weight st"
  "form_weight (form_issue c st) = form_weight st + call_weight c"
  "form_weight (set_timer st) = Suc (form_weight st)"
  "form_weight (st\<lparr>requestSubmitted := b\<rparr>) = form_weight st"
  by (simp_all add: form_weight_def form_alert_def resetFields_def form_issue_def set_timer_def)

lemma apiSendRequest_insert:
  "apiSendRequest now b rs = (Ok ''success'', snd (insertOne (bson_request (request_of_body now b)) rs))"
  by (simp add: apiSendRequest_def addRequest_def insertOne_def success_or_fail_def inserted_one_def)

lemma form_reply_weight:
  "form_weight (fst (form_reply email a now c (st, s))) < call_weight c + form_weight st"
  by (cases c) (simp_all add: apiAddMovie_insert apiSendRequest_insert split: http_response.split)

lemma sum_list_remove_nth:
  "i < length xs \<Longrightarrow> sum_list (map f (take i xs @ drop (Suc i) xs)) + (f (xs ! i) :: nat) = sum_list (map f xs)"
proof (induction xs arbitrary: i)
  case (Cons x xs)
  then show ?case
    by (cases i) (auto simp: add.assoc)
qed simp

lemma form_deliver_weight:
  assumes "i < length (mf_calls st)"
  shows "form_weight (fst (form_deliver email a now i (st, s))) < form_weight st"
proof -
  let ?st' = "st\<lparr>mf_calls := take i (mf_calls st) @ drop (Suc i) (mf_calls st)\<rparr>"
  have "call_weight (mf_calls st ! i) + form_weight ?st' = form_weight st"
    using sum_list_remove_nth [OF assms, of call_weight] by (simp add: form_weight_def)
  then show ?thesis
    using form_reply_weight [of email a now "mf_calls st ! i" ?st' s] by (simp add: form_deliver_def)
qed

lemma fire_timer_weight: "0 < mf_timers st \<Longrightarrow> form_weight (fire_timer a st) < form_weight st"
  by (simp add: fire_timer_def form_weight_def resetFields_def)

lemma form_internal_weight:
  "form_internal email a ss ss' \<Longrightarrow> form_weight (fst ss') < form_weight (fst ss)"
  by (induction rule: form_internal.induct) (simp_all add: form_deliver_weight fire_timer_weight)

text \<open>No run of replies and timers is infinite.\<close>

lemma form_internal_wf: "wfP (\<lambda>ss' ss. form_internal email a ss ss')"
proof -
  have "{(ss', ss). form_internal email a ss ss'} \<subseteq> measure (\<lambda>ss. form_weight (fst ss))"
    using form_internal_weight by auto
  then show ?thesis
    unfolding wfp_def by (rule wf_subset [OF wf_measure])
qed

text \<open>A state with a call in flight or a timer set always has a next step.\<close>

lemma form_progress:
  assumes "\<not> form_quiet st"
  shows "\<exists>ss'. form_internal email a (st, s) ss'"
proof (cases "mf_calls st = []")
  case True
  then have "0 < mf_timers st"
    using assms by (simp add: form_quiet_def)
  then show ?thesis
    by (blast intro: form_internal.timer)
next
  case False
  then show ?thesis
    by (blast intro: form_internal.reply)
qed

lemma form_settles: "\<exists>ss'. (form_internal email a)\<^sup>*\<^sup>* ss ss' \<and> form_quiet (fst ss')"
proof (induction "form_weight (fst ss)" arbitrary: ss rule: less_induct)
  case less
  obtain st s where ss: "ss = (st, s)"
    by fastforce
  show ?case
  proof (cases "form_quiet st")
    case True
    then show ?thesis
      using ss by auto
  next
    case False
    then obtain ss1 where step: "form_internal email a ss ss1"
      using form_progress ss by blast
    then obtain ss2 where "(form_internal email a)\<^sup>*\<^sup>* ss1 ss2" "form_quiet (fst ss2)"
      using less form_internal_weight by blast
    then show ?thesis
      using step by (meson converse_rtranclp_into_rtranclp)
  qed
qed

subsection \<open>The replies of one submission\<close>

lemma getMovies_stored: "x \<in> set (getMovies filters page n c) \<Longrightarrow> x \<in> set (docs c)"
  using cursor_window_subset [of n _ "sort_desc imdb_key (find_coll (\<lambda>_ m. movie_query filters m) c)"]
  by (auto simp: getMovies_def Let_def find_coll_def)

lemma apiGetMovies_stored: "apiGetMovies q c = Ok ml \<Longrightarrow> x \<in> set ml \<Longrightarrow> x \<in> set (docs c)"
  by (auto simp: apiGetMovies_def Let_def dest: getMovies_stored)

lemma new_title_no_duplicate:
  assumes "\<forall>(i, m) \<in> set (docs c). mv_title m \<noteq> mf_title f" "apiGetMovies q c = Ok ml"
  shows "\<not> has_duplicate f ml"
  using assms apiGetMovies_stored [OF assms(2)] by (fastforce simp: has_duplicate_def list_ex_iff)

lemma form_reply_FindDup_new:
  assumes "\<forall>(i, m) \<in> set (docs (db_movies s)). mv_title m \<noteq> mf_title f"
  shows "form_reply email a now (FindDup f) (st, s) =
           (if a then form_issue (AddMovieCall f) st else form_issue (GetRequestsCall f) st, s)"
proof -
  obtain ml where ml: "apiGetMovies (movies_query_of_url (hr_url (dup_search f))) (db_movies s) = Ok ml"
    by (simp add: apiGetMovies_def)
  then show ?thesis
    using new_title_no_duplicate [OF assms ml] by simp
qed

lemma form_reply_GetRequests_below:
  "count_pending (getUserRequests email (db_requests s)) < 5 \<Longrightarrow>
   form_reply email a now (GetRequestsCall f) (st, s) = (form_issue (AddRequestCall f) st, s)"
  by (simp add: apiGetRequests_def)

lemma form_reply_AddRequest:
  "form_reply email a now (AddRequestCall f) (st, s) =
     (set_timer (st\<lparr>requestSubmitted := True\<rparr>),
      s\<lparr>db_requests := snd (insertOne (bson_request (request_of_body now (request_info email f))) (db_requests s))\<rparr>)"
  by (simp add: apiSendRequest_insert)

lemma form_deliver_single:
  "mf_calls st = [c] \<Longrightarrow> form_deliver email a now 0 (st, s) = form_reply email a now c (st\<lparr>mf_calls := []\<rparr>, s)"
  by (simp add: form_deliver_def)

inductive_cases form_internalE: "form_internal email a (st, s) ss'"

lemma submit_stages:
  fixes st :: form_state and s :: db and email :: email and f :: form_fields
  defines "s_at \<equiv> \<lambda>now. s\<lparr>db_requests := snd (insertOne (bson_request (request_of_body now (request_info email f))) (db_requests s))\<rparr>"
  assumes calls: "mf_calls st = []" and timers: "mf_timers st = 0"
    and new: "\<forall>(i, m) \<in> set (docs (db_movies s)). mv_title m \<noteq> mf_title f"
    and below: "count_pending (getUserRequests email (db_requests s)) < 5"
    and run: "(form_internal email False)\<^sup>*\<^sup>* (st\<lparr>mf_calls := [FindDup f]\<rparr>, s) ss'"
  shows "ss' = (st\<lparr>mf_calls := [FindDup f]\<rparr>, s) \<or> ss' = (st\<lparr>mf_calls := [GetRequestsCall f]\<rparr>, s)
       \<or> ss' = (st\<lparr>mf_calls := [AddRequestCall f]\<rparr>, s)
       \<or> (\<exists>now. ss' = (st\<lparr>requestSubmitted := True, mf_timers := 1\<rparr>, s_at now))
       \<or> (\<exists>now. ss' = (resetFields False (st\<lparr>requestSubmitted := True\<rparr>), s_at now))"
  using run
proof (induction rule: rtranclp_induct)
  case base
  then show ?case by simp
next
  case (step y z)
  have st0: "st\<lparr>mf_calls := []\<rparr> = st"
    using calls by simp
  have t0: "st\<lparr>requestSubmitted := True, mf_timers := 0\<rparr> = st\<lparr>requestSubmitted := True\<rparr>"
    using timers by (cases st) auto
  from step.IH show ?case
  proof (elim disjE exE)
    assume "y = (st\<lparr>mf_calls := [FindDup f]\<rparr>, s)"
    with step.hyps(2) show ?thesis
      using calls timers by (auto elim!: form_internalE simp del: form_reply.simps simp: form_deliver_single form_reply_FindDup_new [OF new] form_issue_def st0)
  next
    assume "y = (st\<lparr>mf_calls := [GetRequestsCall f]\<rparr>, s)"
    with step.hyps(2) show ?thesis
      using calls timers by (auto elim!: form_internalE simp del: form_reply.simps simp: form_deliver_single form_reply_GetRequests_below [OF below] form_issue_def st0)
  next
    assume "y = (st\<lparr>mf_calls := [AddRequestCall f]\<rparr>, s)"
    with step.hyps(2) show ?thesis
      using calls timers by (auto elim!: form_internalE simp del: form_reply.simps simp: form_deliver_single form_reply_AddRequest set_timer_def st0 s_at_def)
  next
    fix now assume "y = (st\<lparr>requestSubmitted := True, mf_timers := 1\<rparr>, s_at now)"
    with step.hyps(2) show ?thesis
      using calls timers by (auto elim!: form_internalE simp: fire_timer_def t0)
  next
    fix now assume "y = (resetFields False (st\<lparr>requestSubmitted := True\<rparr>), s_at now)"
    with step.hyps(2) show ?thesis
      using calls timers by (auto elim!: form_internalE simp: resetFields_def)
  qed
qed

subsection \<open>The limit of five pending requests\<close>

lemma count_pending_filter:
  "count_pending rl = length (filter (\<lambda>(_, r). rq_status r = ''pending'' \<and> rq_active r) rl)"
  by (induction rl rule: count_pending.induct) simp_all

lemma count_pending_user:
  "count_pending (getUserRequests email c) = length (filter (user_pending email) (docs c))"
  unfolding count_pending_filter getUserRequests_def find_coll_def filter_filter
  by (rule arg_cong [where f = length], rule filter_cong) (auto simp: user_pending_def)

lemma filter_upd_first_le:
  assumes "\<forall>i d. P (i, u d) \<longrightarrow> P (i, d)"
  shows "length (filter P (upd_first p u ds)) \<le> length (filter P ds)"
proof (induction ds)
  case (Cons x ds)
  then show ?case
    using assms by (cases x) auto
qed simp

lemma filter_del_first_le: "length (filter P (del_first p ds)) \<le> length (filter P ds)"
  by (induction p ds rule: del_first.induct) auto

lemma docs_owner_updateOne:
  "docs (snd (owner_updateOne own f s u c)) = docs c \<or> (\<exists>p. docs (snd (owner_updateOne own f s u c)) = upd_first p f (docs c))"
  by (auto simp: owner_updateOne_def updateOne_def split: option.splits)

lemma docs_owner_deleteOne:
  "docs (snd (owner_deleteOne own s u c)) = docs c \<or> (\<exists>p. docs (snd (owner_deleteOne own s u c)) = del_first p (docs c))"
  by (auto simp: owner_deleteOne_def deleteOne_def split: option.splits)


lemma owner_update_pending_le:
  assumes "\<forall>i d. user_pending email (i, f d) \<longrightarrow> user_pending email (i, d)"
  shows "length (filter (user_pending email) (docs (snd (owner_updateOne rq_user_id f s u c))))
         \<le> length (filter (user_pending email) (docs c))"
  using docs_owner_updateOne [of rq_user_id f s u c] filter_upd_first_le [OF assms] by auto

lemma owner_delete_pending_le:
  "length (filter (user_pending email) (docs (snd (owner_deleteOne rq_user_id s u c))))
   \<le> length (filter (user_pending email) (docs c))"
  using docs_owner_deleteOne [of rq_user_id s u c] filter_del_first_le by auto

lemma rq_user_id_request_of_body [simp]: "rq_user_id (request_of_body now b) = b_user_id b"
  by (simp add: request_of_body_def Let_def)

lemma pending_db_step:
  assumes "\<not> sent_for email op"
  shows "count_pending (getUserRequests email (db_requests (db_step op s)))
         \<le> count_pending (getUserRequests email (db_requests s))"
proof (cases op)
  case (SendReq now b)
  then show ?thesis
    using assms by (simp add: count_pending_user apiSendRequest_insert insertOne_def user_pending_def)
next
  case (DenyReq i u)
  then show ?thesis
    using owner_update_pending_le [of email "\<lambda>d. d\<lparr>rq_status := ''denied''\<rparr>" i u "db_requests s"]
    by (simp add: count_pending_user apiDenyRequest_def request_daos_owner_guarded let_pair_fst_snd user_pending_def)
next
  case (DeactivateReq i u)
  then show ?thesis
    using owner_update_pending_le [of email "\<lambda>d. d\<lparr>rq_active := False\<rparr>" i u "db_requests s"]
    by (simp add: count_pending_user apiDeactivateRequest_def request_daos_owner_guarded let_pair_fst_snd user_pending_def)
next
  case (AcceptReq b)
  then show ?thesis
    using owner_update_pending_le [of email "accept_update _" "ab_id b" "ab_user_id b" "db_requests s"]
    by (simp add: count_pending_user apiAcceptRequest_def request_daos_owner_guarded let_pair_fst_snd user_pending_def
        accept_update_def [abs_def] split: list.split prod.split)
next
  case (DeleteReq i u)
  then show ?thesis
    using owner_delete_pending_le [of email i u "db_requests s"]
    by (simp add: count_pending_user apiDeleteRequest_def request_daos_owner_guarded let_pair_fst_snd)
qed simp


lemma mf_calls_simps [simp]:
  "mf_calls (form_alert msg st) = mf_calls st"
  "mf_calls (resetFields a st) = mf_calls st"
  "mf_calls (form_issue c st) = mf_calls st @ [c]"
  "mf_calls (set_timer st) = mf_calls st"
  "mf_calls (fire_timer a st) = mf_calls st"
  by (simp_all add: form_alert_def resetFields_def form_issue_def set_timer_def fire_timer_def)

lemma mf_calls_form_handle:
  "mf_calls (form_handle a e st) =
     (if e = SubmitClick \<and> validateInputs a (mf_fields st) then mf_calls st @ [FindDup (mf_fields st)] else mf_calls st)"
  by (cases e) (simp_all add: form_handle_def set_fields_def addMovie_click_def)

lemma count_pending_append: "count_pending (xs @ ys) = count_pending xs + count_pending ys"
  by (induction xs rule: count_pending.induct) simp_all

lemma pending_own_request:
  "count_pending (getUserRequests email (snd (insertOne (bson_request (request_of_body now (request_info email f))) c)))
   = Suc (count_pending (getUserRequests email c))"
  by (simp add: getUserRequests_def find_coll_def insertOne_def request_info_def request_of_body_def Let_def
      count_pending_append)

lemma form_seq_inv:
  assumes "form_seq_reachable email ss"
  shows "count_pending (getUserRequests email (db_requests (snd ss))) \<le> 5 \<and> length (mf_calls (fst ss)) \<le> 1
         \<and> (\<forall>f. AddRequestCall f \<in> set (mf_calls (fst ss)) \<longrightarrow> count_pending (getUserRequests email (db_requests (snd ss))) < 5)"
  using assms
proof (induction rule: form_seq_reachable.induct)
  case (open_form s)
  then show ?case
    by (simp add: movie_form_init_def)
next
  case (user st s e)
  then show ?case
    by (auto simp: mf_calls_form_handle)
next
  case (reply st s i now)
  then obtain c where c: "mf_calls st = [c]" and i: "i = 0"
    by (cases "mf_calls st") auto
  let ?pc = "count_pending (getUserRequests email (db_requests s))"
  have "?pc \<le> 5" "\<forall>f. c = AddRequestCall f \<longrightarrow> ?pc < 5"
    using reply.IH c by auto
  then show ?case
    using c i by (cases c) (auto simp: form_deliver_single apiGetMovies_def apiGetRequests_def apiAddMovie_insert
        apiSendRequest_insert pending_own_request Let_def)
next
  case (timer st s)
  then show ?case
    by simp
next
  case (other st s op)
  then show ?case
    using pending_db_step [OF other.hyps(3), of s] by auto
qed

subsection \<open>Samples\<close>

lemma heat_fields_valid: "validateInputs False heat_fields"
  by (simp add: validateInputs_def heat_fields_def empty_fields_def int_in_def isReleasedValid_def js_eval
      js_gt_def js_lt_def)

lemma requestSubmitted_typing:
  "typing_event a e \<Longrightarrow> requestSubmitted (form_handle a e st) = requestSubmitted st"
  by (cases e) (simp_all add: typing_event_def form_handle_def set_fields_def)

lemma form_reachable_typing:
  "form_reachable email a (st, s) \<Longrightarrow> \<not> requestSubmitted st \<Longrightarrow> list_all (typing_event a) es \<Longrightarrow>
   form_reachable email a (foldl (\<lambda>st e. form_handle a e st) st es, s)"
proof (induction es arbitrary: st)
  case (Cons e es)
  have "form_offered a st e"
    using Cons.prems by (cases e) (simp_all add: form_offered_def typing_event_def)
  with Cons.prems(1) have "form_reachable email a (form_handle a e st, s)"
    by (rule form_reachable.user)
  then show ?case
    using Cons by (simp add: requestSubmitted_typing)
qed simp

lemma heat_typing_fills: "foldl (\<lambda>st e. form_handle False e st) movie_form_init heat_typing = heat_form"
  by (simp add: heat_typing_def heat_form_def heat_fields_def movie_form_init_def empty_fields_def
      form_handle_def set_fields_def)

lemma four_pending_db_inv: "db_inv four_pending_db"
proof -
  have "request_ok heat_request"
    by (simp add: request_ok_def request_of_body_status heat_request_def heat_request_body_def)
  moreover have "ran (coll_map (db_requests four_pending_db)) = {heat_request}"
    by (simp add: four_pending_db_def ran_distinct)
  ultimately show ?thesis
    by (auto simp: db_inv_def four_pending_db_def coll_wf_def empty_coll_def)
qed

lemma heat_form_reachable: "form_reachable ''ann@mail.com'' False (heat_form, four_pending_db)"
proof -
  have "list_all (typing_event False) heat_typing"
    by (simp add: heat_typing_def typing_event_def)
  moreover have "\<not> requestSubmitted movie_form_init"
    by (simp add: movie_form_init_def)
  ultimately show ?thesis
    using form_reachable_typing [OF form_reachable.open_form [OF four_pending_db_inv]] heat_typing_fills by metis
qed

subsection \<open>The race of two submissions\<close>

lemma form_deliver_first:
  "mf_calls st = c # cs \<Longrightarrow> form_deliver email a now 0 (st, s) = form_reply email a now c (st\<lparr>mf_calls := cs\<rparr>, s)"
  by (simp add: form_deliver_def)

lemma form_reachable_reply_first:
  "form_reachable email a (st, s) \<Longrightarrow> mf_calls st = c # cs \<Longrightarrow>
   form_reachable email a (form_reply email a now c (st\<lparr>mf_calls := cs\<rparr>, s))"
  using form_reachable.reply [of email a st s 0 now] by (simp add: form_deliver_first)

subsection \<open>Release dates\<close>

lemma split_on_three:
  "CHR ''-'' \<notin> set x \<Longrightarrow> CHR ''-'' \<notin> set y \<Longrightarrow> CHR ''-'' \<notin> set z \<Longrightarrow>
   split_on CHR ''-'' (x @ ''-'' @ y @ ''-'' @ z) = [x, y, z]"
  by (simp add: split_on_sep split_on_no_sep)

lemma released_real_date: "isReleasedValid ''2000-01-01'' \<and> length (split_on CHR ''-'' ''2000-01-01'') = 3"
  by (simp add: isReleasedValid_def js_eval js_gt_def js_lt_def)

lemma validateInputs_released:
  "length (split_on CHR ''-'' d) = 3 \<and> isReleasedValid d \<Longrightarrow> length (split_on CHR ''-'' d') = 3 \<and> isReleasedValid d' \<Longrightarrow>
   validateInputs a (f\<lparr>mf_released := d\<rparr>) = validateInputs a (f\<lparr>mf_released := d'\<rparr>)"
  by (simp add: validateInputs_def)

subsection \<open>What the form writes\<close>

lemma int_in_some: "int_in s lo hi \<Longrightarrow> \<exists>n. js_parseInt s = Some n \<and> lo \<le> n \<and> n \<le> hi"
  by (auto simp: int_in_def not_less split: option.splits)

lemma request_of_form_typed:
  assumes "validateInputs a f"
  shows "request_typed email (bson_request (request_of_body now (request_info email f)))"
proof -
  have "mf_title f \<noteq> []" "mf_fullPlot f \<noteq> []" "mf_genres f \<noteq> []" "int_in (mf_year f) 1877 2050"
    "int_in (mf_runtime f) 30 300" "length (mf_rated f) < 10"
    using assms by (simp_all add: validateInputs_def split: if_splits)
  then show ?thesis
    by (auto simp: request_typed_def request_of_body_def request_info_def Let_def dest!: int_in_some)
qed

lemma movie_of_form_typed:
  assumes "validateInputs True f"
  shows "movie_typed (bson_movie (movie_of_body now (movie_info f)))"
proof -
  have "mf_title f \<noteq> []" "mf_fullPlot f \<noteq> []" "mf_genres f \<noteq> []" "int_in (mf_year f) 1877 2050"
    "int_in (mf_runtime f) 30 300" "length (mf_rated f) < 10" "mf_poster f \<noteq> []"
    using assms by (simp_all add: validateInputs_def split: if_splits)
  then show ?thesis
    by (auto simp: movie_typed_def movie_of_body_def movie_info_def Let_def dest!: int_in_some)
qed

lemma form_reply_effect:
  "(mf_calls (fst (form_reply email a now c (st, s))) = mf_calls st
    \<or> (\<exists>c'. mf_calls (fst (form_reply email a now c (st, s))) = mf_calls st @ [c'] \<and> (call_ok a c \<longrightarrow> call_ok a c')))
   \<and> (snd (form_reply email a now c (st, s)) = s
    \<or> (\<exists>f. c = AddRequestCall f \<and> snd (form_reply email a now c (st, s)) = db_step (SendReq now (request_info email f)) s)
    \<or> (\<exists>f. c = AddMovieCall f \<and> snd (form_reply email a now c (st, s)) = db_step (AddMovieOp now (movie_info f)) s))"
  by (cases c) (auto simp: apiAddMovie_insert apiSendRequest_insert call_ok_def call_fields_def split: http_response.split)


lemma frontend_send_request_info [simp]: "frontend_send (request_info email f)"
  by (simp add: frontend_send_def request_info_def)

lemma set_remove_nth: "set (take i xs @ drop (Suc i) xs) \<subseteq> set xs"
  by (auto dest: in_set_takeD in_set_dropD)

lemma form_deliver_effect:
  assumes "i < length (mf_calls st)"
  defines "c \<equiv> mf_calls st ! i"
  shows "(\<forall>c' \<in> set (mf_calls (fst (form_deliver email a now i (st, s)))). c' \<in> set (mf_calls st) \<or> (call_ok a c \<longrightarrow> call_ok a c'))
   \<and> (snd (form_deliver email a now i (st, s)) = s
    \<or> (\<exists>f. c = AddRequestCall f \<and> snd (form_deliver email a now i (st, s)) = db_step (SendReq now (request_info email f)) s)
    \<or> (\<exists>f. c = AddMovieCall f \<and> snd (form_deliver email a now i (st, s)) = db_step (AddMovieOp now (movie_info f)) s))"
  using form_reply_effect [of email a now c "st\<lparr>mf_calls := take i (mf_calls st) @ drop (Suc i) (mf_calls st)\<rparr>" s]
    set_remove_nth [of i "mf_calls st"]
  unfolding form_deliver_def c_def by auto

lemma db_inv_form_writes:
  "db_inv s \<Longrightarrow> db_inv (s\<lparr>db_requests := snd (apiSendRequest now (request_info email f) (db_requests s))\<rparr>)"
  "db_inv s \<Longrightarrow> db_inv (s\<lparr>db_movies := snd (apiAddMovie now b (db_movies s))\<rparr>)"
  using db_inv_step [of s "SendReq now (request_info email f)"] db_inv_step [of s "AddMovieOp now b"] by simp_all

lemma form_reachable_inv:
  assumes "form_reachable email a ss"
  shows "(\<forall>c \<in> set (mf_calls (fst ss)). call_ok a c) \<and> db_inv (snd ss)"
  using assms
proof (induction rule: form_reachable.induct)
  case (open_form s)
  then show ?case
    by (simp add: movie_form_init_def)
next
  case (user st s e)
  then show ?case
    by (auto simp: mf_calls_form_handle call_ok_def call_fields_def)
next
  case (reply st s i now)
  have ok: "call_ok a (mf_calls st ! i)"
    using reply.IH reply.hyps(2) by simp
  then show ?case
    using form_deliver_effect [OF reply.hyps(2), of email a now s] reply.IH
    by (auto intro: db_inv_form_writes)
next
  case (timer st s)
  then show ?case
    by simp
next
  case (other st s op)
  then show ?case
    by (simp add: db_inv_step)
qed

section \<open>Properties\<close>

text \<open>C33: a valid request of a user below the limit, for a movie not yet in the collection, is stored: the replies and the timer always come to an end (the relation of their steps is well founded, so every run of them is finite, and one run reaches a quiet state), and every way they end leaves the request stored as \<open>POST /addRequest\<close> builds it, the dialog closed and the fields cleared.\<close>

theorem valid_request_submitted:
  assumes calls: "mf_calls st = []" and timers: "mf_timers st = 0" and valid: "validateInputs False (mf_fields st)"
    and new: "\<forall>(i, m) \<in> set (docs (db_movies s)). mv_title m \<noteq> mf_title (mf_fields st)"
    and below: "count_pending (getUserRequests email (db_requests s)) < 5"
  shows "wfP (\<lambda>ss' ss. form_internal email False ss ss')
       \<and> (\<exists>ss'. (form_internal email False)\<^sup>*\<^sup>* (addMovie_click False st, s) ss' \<and> form_quiet (fst ss'))
       \<and> (\<forall>ss'. (form_internal email False)\<^sup>*\<^sup>* (addMovie_click False st, s) ss' \<and> form_quiet (fst ss') \<longrightarrow>
            (\<exists>now. db_requests (snd ss') = snd (insertOne (bson_request (request_of_body now (request_info email (mf_fields st)))) (db_requests s)))
            \<and> db_movies (snd ss') = db_movies s \<and> \<not> requestSubmitted (fst ss')
            \<and> mf_fields (fst ss') = mf_fields (resetFields False st))"
proof (intro conjI)
  show "wfP (\<lambda>ss' ss. form_internal email False ss ss')"
    by (rule form_internal_wf)
  show "\<exists>ss'. (form_internal email False)\<^sup>*\<^sup>* (addMovie_click False st, s) ss' \<and> form_quiet (fst ss')"
    by (rule form_settles)
  have click: "addMovie_click False st = st\<lparr>mf_calls := [FindDup (mf_fields st)]\<rparr>"
    using calls valid by (simp add: addMovie_click_def form_issue_def)
  show "\<forall>ss'. (form_internal email False)\<^sup>*\<^sup>* (addMovie_click False st, s) ss' \<and> form_quiet (fst ss') \<longrightarrow>
            (\<exists>now. db_requests (snd ss') = snd (insertOne (bson_request (request_of_body now (request_info email (mf_fields st)))) (db_requests s)))
            \<and> db_movies (snd ss') = db_movies s \<and> \<not> requestSubmitted (fst ss')
            \<and> mf_fields (fst ss') = mf_fields (resetFields False st)"
  proof (intro allI impI, elim conjE)
    fix ss' assume run: "(form_internal email False)\<^sup>*\<^sup>* (addMovie_click False st, s) ss'" and quiet: "form_quiet (fst ss')"
    from submit_stages [OF calls timers new below run [unfolded click]] quiet calls
    show "(\<exists>now. db_requests (snd ss') = snd (insertOne (bson_request (request_of_body now (request_info email (mf_fields st)))) (db_requests s)))
            \<and> db_movies (snd ss') = db_movies s \<and> \<not> requestSubmitted (fst ss')
            \<and> mf_fields (fst ss') = mf_fields (resetFields False st)"
      by (auto simp: form_quiet_def resetFields_def)
  qed
qed

theorem valid_request_submitted_witness:
  "wfP (\<lambda>ss' ss. form_internal ''ann@mail.com'' False ss ss')
   \<and> (\<exists>ss'. (form_internal ''ann@mail.com'' False)\<^sup>*\<^sup>* (addMovie_click False heat_form, empty_db) ss' \<and> form_quiet (fst ss'))"
  using valid_request_submitted [of heat_form empty_db "''ann@mail.com''"]
  using heat_fields_valid by (simp add: heat_form_def movie_form_init_def empty_db_def empty_coll_def
      getUserRequests_def find_coll_def)

text \<open>C34: a user who submits only when no earlier submission is in flight, while no other client sends requests in the user's name, never has more than five pending active requests.\<close>

theorem pending_limit_kept:
  "form_seq_reachable email (st, s) \<Longrightarrow> count_pending (getUserRequests email (db_requests s)) \<le> 5"
  using form_seq_inv [of email "(st, s)"] by simp

theorem pending_limit_kept_witness:
  "count_pending (getUserRequests ''ann@mail.com'' (db_requests four_pending_db)) \<le> 5"
  using pending_limit_kept [OF form_seq_reachable.open_form [OF four_pending_db_inv]]
  by (simp add: four_pending_db_def getUserRequests_def find_coll_def heat_request_def request_of_body_def
      heat_request_body_def Let_def)

text \<open>C35: the limit is checked before the request is sent, not when it is stored: two quick clicks on Submit by a user with four pending requests can leave six.\<close>

theorem double_submit_passes_limit:
  assumes reach: "form_reachable email False (st, s)" and calls: "mf_calls st = []"
    and open_: "\<not> requestSubmitted st" and valid: "validateInputs False (mf_fields st)"
    and new: "\<forall>(i, m) \<in> set (docs (db_movies s)). mv_title m \<noteq> mf_title (mf_fields st)"
    and four: "count_pending (getUserRequests email (db_requests s)) = 4"
  shows "\<exists>ss'. form_reachable email False ss' \<and> count_pending (getUserRequests email (db_requests (snd ss'))) = 6"
proof -
  let ?f = "mf_fields st"
  let ?R = "form_reachable email False"
  let ?ins = "\<lambda>c. snd (insertOne (bson_request (request_of_body 0 (request_info email ?f))) c)"
  have offered: "form_offered False (st\<lparr>mf_calls := cs\<rparr>) SubmitClick" for cs
    using open_ by (simp add: form_offered_def)
  have click: "form_handle False SubmitClick (st\<lparr>mf_calls := cs\<rparr>) = st\<lparr>mf_calls := cs @ [FindDup ?f]\<rparr>" for cs
    using valid by (simp add: form_handle_def addMovie_click_def form_issue_def)
  have click0: "form_handle False SubmitClick st = st\<lparr>mf_calls := [FindDup ?f]\<rparr>"
    using calls valid by (simp add: form_handle_def addMovie_click_def form_issue_def)
  have "form_offered False st SubmitClick"
    using open_ by (simp add: form_offered_def)
  with reach have "?R (st\<lparr>mf_calls := [FindDup ?f]\<rparr>, s)"
    unfolding click0 [symmetric] by (rule form_reachable.user)
  then have "?R (st\<lparr>mf_calls := [FindDup ?f, FindDup ?f]\<rparr>, s)"
    using form_reachable.user [OF _ offered] click [of "[FindDup ?f]"] by fastforce
  have step: "?R (st'\<lparr>mf_calls := c # cs\<rparr>, s') \<Longrightarrow> ?R (form_reply email False 0 c (st'\<lparr>mf_calls := cs\<rparr>, s'))"
    for st' s' c cs
    using form_reachable_reply_first [of email False "st'\<lparr>mf_calls := c # cs\<rparr>" s' c cs 0] by simp
  note simps = form_reply_FindDup_new [OF new] form_reply_GetRequests_below form_reply_AddRequest form_issue_def
    set_timer_def four
  have "?R (st\<lparr>mf_calls := [FindDup ?f, GetRequestsCall ?f]\<rparr>, s)"
    using step [OF \<open>?R (st\<lparr>mf_calls := [FindDup ?f, FindDup ?f]\<rparr>, s)\<close>] by (simp add: simps del: form_reply.simps)
  then have "?R (st\<lparr>mf_calls := [GetRequestsCall ?f, GetRequestsCall ?f]\<rparr>, s)"
    using step by (fastforce simp add: simps simp del: form_reply.simps)
  then have "?R (st\<lparr>mf_calls := [GetRequestsCall ?f, AddRequestCall ?f]\<rparr>, s)"
    using step by (fastforce simp add: simps simp del: form_reply.simps)
  then have "?R (st\<lparr>mf_calls := [AddRequestCall ?f, AddRequestCall ?f]\<rparr>, s)"
    using step by (fastforce simp add: simps simp del: form_reply.simps)
  then have "?R (form_reply email False 0 (AddRequestCall ?f) (st\<lparr>mf_calls := [AddRequestCall ?f]\<rparr>, s))"
    by (rule step)
  then have "?R (set_timer ((st\<lparr>mf_calls := [AddRequestCall ?f]\<rparr>)\<lparr>requestSubmitted := True\<rparr>),
                 s\<lparr>db_requests := ?ins (db_requests s)\<rparr>)"
    by (simp only: form_reply_AddRequest)
  then have "?R (form_reply email False 0 (AddRequestCall ?f)
                  ((set_timer ((st\<lparr>mf_calls := [AddRequestCall ?f]\<rparr>)\<lparr>requestSubmitted := True\<rparr>))\<lparr>mf_calls := []\<rparr>,
                   s\<lparr>db_requests := ?ins (db_requests s)\<rparr>))"
    by (rule form_reachable_reply_first) (simp add: set_timer_def)
  moreover have "count_pending (getUserRequests email (?ins (?ins (db_requests s)))) = 6"
    using four by (simp add: pending_own_request)
  ultimately show ?thesis
    unfolding form_reply_AddRequest by (intro exI [where x = "(_, _)"] conjI) (assumption, simp)
qed

theorem double_submit_passes_limit_witness:
  "\<exists>ss'. form_reachable ''ann@mail.com'' False ss'
         \<and> count_pending (getUserRequests ''ann@mail.com'' (db_requests (snd ss'))) = 6"
  using double_submit_passes_limit [OF heat_form_reachable] heat_fields_valid
  by (simp add: heat_form_def movie_form_init_def four_pending_db_def empty_coll_def getUserRequests_def
      find_coll_def heat_request_def request_of_body_def heat_request_body_def Let_def)

text \<open>C36: every document a reply of the form adds has the shape the form validated: a non-empty title, plot and genre list, a year between 1877 and 2050, a runtime between 30 and 300, a rating shorter than 10 characters, and for a request the user's id, status pending and the active flag.\<close>

theorem form_writes_typed:
  assumes "form_reachable email a (st, s)" "i < length (mf_calls st)"
  shows "(db_requests (snd (form_deliver email a now i (st, s))) = db_requests s
          \<or> (\<exists>r. db_requests (snd (form_deliver email a now i (st, s))) = snd (insertOne r (db_requests s))
                 \<and> request_typed email r))
       \<and> (db_movies (snd (form_deliver email a now i (st, s))) = db_movies s
          \<or> (\<exists>m. db_movies (snd (form_deliver email a now i (st, s))) = snd (insertOne m (db_movies s))
                 \<and> movie_typed m))"
proof -
  have ok: "call_ok a (mf_calls st ! i)"
    using form_reachable_inv [OF assms(1)] assms(2) by simp
  show ?thesis
    using form_deliver_effect [OF assms(2), of email a now s]
  proof (elim conjE disjE exE)
    fix f assume c: "mf_calls st ! i = AddRequestCall f"
      and eq: "snd (form_deliver email a now i (st, s)) = db_step (SendReq now (request_info email f)) s"
    have "validateInputs a f"
      using ok c by (auto simp: call_ok_def call_fields_def)
    then show ?thesis
      using eq request_of_form_typed by (auto simp: apiSendRequest_insert)
  next
    fix f assume c: "mf_calls st ! i = AddMovieCall f"
      and eq: "snd (form_deliver email a now i (st, s)) = db_step (AddMovieOp now (movie_info f)) s"
    have "validateInputs True f"
      using ok c by (auto simp: call_ok_def call_fields_def)
    then show ?thesis
      using eq movie_of_form_typed by (auto simp: apiAddMovie_insert)
  qed simp_all
qed

theorem form_writes_typed_witness:
  "(db_requests (snd (form_deliver ''ann@mail.com'' False 0 0 (form_handle False SubmitClick heat_form, four_pending_db)))
       = db_requests four_pending_db
     \<or> (\<exists>r. db_requests (snd (form_deliver ''ann@mail.com'' False 0 0 (form_handle False SubmitClick heat_form, four_pending_db)))
             = snd (insertOne r (db_requests four_pending_db)) \<and> request_typed ''ann@mail.com'' r))
   \<and> (db_movies (snd (form_deliver ''ann@mail.com'' False 0 0 (form_handle False SubmitClick heat_form, four_pending_db)))
       = db_movies four_pending_db
     \<or> (\<exists>m. db_movies (snd (form_deliver ''ann@mail.com'' False 0 0 (form_handle False SubmitClick heat_form, four_pending_db)))
             = snd (insertOne m (db_movies four_pending_db)) \<and> movie_typed m))"
proof -
  have reach: "form_reachable ''ann@mail.com'' False (form_handle False SubmitClick heat_form, four_pending_db)"
    by (rule form_reachable.user [OF heat_form_reachable]) (simp add: form_offered_def heat_form_def movie_form_init_def)
  have len: "0 < length (mf_calls (form_handle False SubmitClick heat_form))"
    using heat_fields_valid by (simp add: form_handle_def addMovie_click_def form_issue_def heat_form_def movie_form_init_def)
  show ?thesis
    by (rule form_writes_typed [OF reach len])
qed

text \<open>C37: a release date whose three parts are not numbers passes the form's check like a real date; the controller builds an Invalid Date, which the driver stores as the epoch, so the admin's accept sends \<open>1970-01-01\<close> and adds the movie released on 1 January 1970.\<close>

theorem nonnumeric_date_accepted_as_epoch:
  assumes nan: "js_Number x = None" "js_Number y = None" "js_Number z = None"
    and nodash: "CHR ''-'' \<notin> set x" "CHR ''-'' \<notin> set y" "CHR ''-'' \<notin> set z"
    and rel: "mf_released f = x @ ''-'' @ y @ ''-'' @ z"
    and acc: "acceptedRequest st = Some (rid, bson_request (request_of_body now (request_info email f)))"
  shows "validateInputs a f = validateInputs a (f\<lparr>mf_released := ''2000-01-01''\<rparr>)
       \<and> rq_released (bson_request (request_of_body now (request_info email f))) = Date_ymd 1970 0 1
       \<and> (\<exists>mi. movie_info_of st (bson_request (request_of_body now (request_info email f))) = Some mi
              \<and> mb_released mi = ''1970-01-01'' \<and> mv_released (movie_of_body now' mi) = Date_ymd 1970 0 1
              \<and> db_movies (snd (acceptRequest_ui now' (st, s)))
                  = snd (insertOne (bson_movie (movie_of_body now' mi)) (db_movies s)))"
proof -
  let ?r = "bson_request (request_of_body now (request_info email f))"
  have parts: "split_on CHR ''-'' (mf_released f) = [x, y, z]"
    using rel split_on_three [OF nodash] by simp
  have valid: "isReleasedValid (mf_released f)"
    using parts nan by (simp add: isReleasedValid_def js_gt_def js_lt_def)
  have "validateInputs a f = validateInputs a (f\<lparr>mf_released := ''2000-01-01''\<rparr>)"
    using parts valid released_real_date by (simp add: validateInputs_def)
  moreover have epoch: "rq_released ?r = Date_ymd 1970 0 1"
    using parts nan
    by (simp add: request_of_body_def request_info_def Let_def js_index_def js_Number_opt_def new_Date3_def bson_date_def)
  moreover obtain mi where mi: "movie_info_of st ?r = Some mi"
    using movie_info_of_valid [of ?r st] epoch by auto
  moreover have mi_rel: "mb_released mi = ''1970-01-01''"
  proof -
    have "mb_released mi = hd (split_on CHR ''T'' (the (js_date_json (rq_released ?r))))"
      using mi by (auto simp: movie_info_of_def split: option.splits)
    then show ?thesis
      using epoch by (simp add: js_date_json_def pad_num_def string_of_int_def string_of_nat_unfold digit_char_def)
  qed
  moreover have "mv_released (movie_of_body now' mi) = Date_ymd 1970 0 1"
    using mi_rel by (simp add: movie_of_body_def Let_def js_index_def js_Number_opt_def new_Date3_def js_eval)
  moreover have "db_movies (snd (acceptRequest_ui now' (st, s))) = snd (insertOne (bson_movie (movie_of_body now' mi)) (db_movies s))"
    using acc mi by (simp add: acceptRequest_ui_def apiAddMovie_insert Let_def split: prod.split http_response.split)
  ultimately show ?thesis
    by blast
qed

theorem nonnumeric_date_accepted_as_epoch_witness:
  "validateInputs False (heat_fields\<lparr>mf_released := ''a-b-c''\<rparr>)
   \<and> rq_released (bson_request (request_of_body 0 (request_info ''ann@mail.com'' (heat_fields\<lparr>mf_released := ''a-b-c''\<rparr>))))
     = Date_ymd 1970 0 1"
proof -
  have "validateInputs False (heat_fields\<lparr>mf_released := ''2000-01-01''\<rparr>)
        = validateInputs False (heat_fields\<lparr>mf_released := ''1995-12-15''\<rparr>)"
    by (rule validateInputs_released) (simp_all add: isReleasedValid_def js_eval js_gt_def js_lt_def)
  moreover have "heat_fields\<lparr>mf_released := ''1995-12-15''\<rparr> = heat_fields"
    by (simp add: heat_fields_def empty_fields_def)
  ultimately have "validateInputs False (heat_fields\<lparr>mf_released := ''2000-01-01''\<rparr>)"
    using heat_fields_valid by simp
  then show ?thesis
    using nonnumeric_date_accepted_as_epoch [of "''a''" "''b''" "''c''" "heat_fields\<lparr>mf_released := ''a-b-c''\<rparr>"
        "add_movie_init\<lparr>acceptedRequest :=
           Some (0, bson_request (request_of_body 0 (request_info ''ann@mail.com'' (heat_fields\<lparr>mf_released := ''a-b-c''\<rparr>))))\<rparr>"
        0 0 "''ann@mail.com''" False 9 empty_db]
    by (simp add: js_eval)
qed

end
