(* ===== verification/Dedup.thy ===== *)
theory Dedup
  imports Movies
begin

text \<open>
  \<open>MoviesDAO.deleteDuplicateMovies\<close> (\<open>src/backend/dao/moviesDAO.js\<close>) and its handler
  \<open>apiDeleteDuplicates\<close>.  The aggregation groups the movies by \<open>fullplot\<close> and collects
  with \<open>$addToSet\<close> the distinct \<open>lastupdated\<close> values, ids, titles and years of each group;
  a group holds duplicates when it has more than one distinct \<open>lastupdated\<close>, one title
  and one year, and then every id but the first is deleted.  \<open>$addToSet\<close> skips a missing
  field (the \<open>lastupdated\<close> of a movie added through \<open>apiAddMovie\<close>); a \<open>NaN\<close> year is a
  value (\<open>None\<close> here).  The server gives no order to the groups nor to the elements of a
  set; the model takes both in the collection's natural order, so the movie that is kept
  is the first stored one.
\<close>

record dedup_group =
  g_key :: "string option"
  g_count :: "string list"
  g_movieId :: "oid list"
  g_movieTitle :: "string list"
  g_year :: "int option list"

text \<open>The movies of one \<open>$group\<close> stage group: those whose \<open>fullplot\<close> is the key.\<close>

definition group_members :: "(oid \<times> movie) list \<Rightarrow> string option \<Rightarrow> (oid \<times> movie) list" where
  "group_members ds k = filter (\<lambda>(_, m). mv_fullplot m = k) ds"

definition group_of :: "(oid \<times> movie) list \<Rightarrow> string option \<Rightarrow> dedup_group" where
  "group_of ds k =
     (let members = group_members ds k
      in \<lparr>g_key = k,
          g_count = remdups (List.map_filter (\<lambda>(_, m). mv_lastupdated m) members),
          g_movieId = remdups (map fst members),
          g_movieTitle = remdups (map (\<lambda>(_, m). mv_title m) members),
          g_year = remdups (map (\<lambda>(_, m). mv_year m) members)\<rparr>)"

definition group_movies :: "(oid \<times> movie) list \<Rightarrow> dedup_group list" where
  "group_movies ds = map (group_of ds) (remdups (map (\<lambda>(_, m). mv_fullplot m) ds))"

definition is_dup :: "dedup_group \<Rightarrow> bool" where
  "is_dup g \<longleftrightarrow> 1 < length (g_count g) \<and> length (g_movieTitle g) = 1 \<and> length (g_year g) = 1"

text \<open>The inner loop: \<open>deleteCount\<close> is the \<open>deletedCount\<close> of the last \<open>deleteOne\<close>.\<close>

fun delete_ids :: "oid list \<Rightarrow> nat \<Rightarrow> movies \<Rightarrow> nat \<times> movies" where
  "delete_ids [] deleteCount c = (deleteCount, c)"
| "delete_ids (i # is) deleteCount c =
     (let (deleteMovie, c') = deleteOne (\<lambda>j _. j = i) c in delete_ids is (deletedCount deleteMovie) c')"

text \<open>The outer loop: one status per group, \<open>deleteCount > 0\<close>.\<close>

fun delete_groups :: "dedup_group list \<Rightarrow> movies \<Rightarrow> bool list \<times> movies" where
  "delete_groups [] c = ([], c)"
| "delete_groups (g # gs) c =
     (let (deleteCount, c') = delete_ids (tl (g_movieId g)) 0 c;
          (delStatus, c'') = delete_groups gs c'
      in ((0 < deleteCount) # delStatus, c''))"

datatype dedup_result = No_duplicates | Dedup_done bool

definition deleteDuplicateMovies :: "movies \<Rightarrow> dedup_result \<times> movies" where
  "deleteDuplicateMovies c =
     (let dups = filter is_dup (group_movies (docs c))
      in if dups = [] then (No_duplicates, c)
         else let (delStatus, c') = delete_groups dups c in (Dedup_done (list_all id delStatus), c'))"

definition apiDeleteDuplicates :: "movies \<Rightarrow> dedup_result http_response \<times> movies" where
  "apiDeleteDuplicates c = apfst Ok (deleteDuplicateMovies c)"

text \<open>The ids the run deletes: all but the first of each duplicate group.\<close>

definition doomed_ids :: "(oid \<times> movie) list \<Rightarrow> oid list" where
  "doomed_ids ds = concat (map (\<lambda>g. tl (g_movieId g)) (filter is_dup (group_movies ds)))"

text \<open>Samples: a preloaded movie and a second copy with another \<open>lastupdated\<close>, and the
  same movie next to a copy added through \<open>apiAddMovie\<close>.\<close>

definition dup_copy :: movie where
  "dup_copy = sample_movie\<lparr>mv_lastupdated := Some ''2016-01-01''\<rparr>"

definition dup_movies :: movies where
  "dup_movies = \<lparr>docs = [(7, sample_movie), (8, dup_copy)], next_oid = 9\<rparr>"

definition admin_dup_movies :: movies where
  "admin_dup_movies =
     \<lparr>docs = [(7, sample_movie), (8, sample_movie\<lparr>mv_lastupdated := None, mv_lastUpdated := Some 5\<rparr>)],
      next_oid = 9\<rparr>"

definition single_movie :: movies where
  "single_movie = \<lparr>docs = [(7, sample_movie)], next_oid = 8\<rparr>"

definition heat_copy_body :: movie_body where
  "heat_copy_body = \<lparr>mb_title = ''Heat'', mb_year = ''1995'', mb_fullplot = ''A heist.'', mb_genres = [''Crime''],
     mb_imdb = ''8.3,500,113277'', mb_poster = '''', mb_runtime = ''170'', mb_released = ''1995-12-15'',
     mb_rated = ''R''\<rparr>"

section \<open>The samples evaluated\<close>

lemma single_movie_coll_wf: "coll_wf single_movie"
  by (simp add: single_movie_def coll_wf_def)

lemma single_movie_group:
  "length (remdups (List.map_filter (\<lambda>(_, m). mv_lastupdated m) (group_members (docs single_movie) (Some ''A heist.'')))) \<le> 1"
  by (simp add: single_movie_def group_members_def List.map_filter_def sample_movie_def)


lemma dup_copy_fields [simp]:
  "mv_fullplot dup_copy = Some ''A heist.''" "mv_title dup_copy = ''Heat''"
  "mv_year dup_copy = Some 1995" "mv_lastupdated dup_copy = Some ''2016-01-01''"
  by (simp_all add: dup_copy_def)

lemma dup_movies_coll_wf: "coll_wf dup_movies"
  by (simp add: dup_movies_def coll_wf_def)

lemma dup_movies_groups:
  "filter is_dup (group_movies (docs dup_movies)) =
     [\<lparr>g_key = Some ''A heist.'', g_count = [''2015-09-01'', ''2016-01-01''], g_movieId = [7, 8],
       g_movieTitle = [''Heat''], g_year = [Some 1995]\<rparr>]"
  by (simp add: dup_movies_def group_movies_def group_of_def group_members_def is_dup_def Let_def
      List.map_filter_def)

lemma doomed_dup_movies: "doomed_ids (docs dup_movies) = [8]"
  by (simp add: doomed_ids_def dup_movies_groups)

lemma dedup_run_sample:
  "deleteDuplicateMovies dup_movies = (Dedup_done True, \<lparr>docs = [(7, sample_movie)], next_oid = 9\<rparr>)"
  by (simp add: deleteDuplicateMovies_def dup_movies_groups deleteOne_def) (simp add: dup_movies_def)

section \<open>The deletion loops\<close>

lemma delete_ids_docs:
  "distinct (map fst (docs c)) \<Longrightarrow>
   snd (delete_ids is n c) = c\<lparr>docs := filter (\<lambda>(j, _). j \<notin> set is) (docs c)\<rparr>"
proof (induction "is" arbitrary: n c)
  case Nil
  then show ?case by simp
next
  case (Cons i "is")
  have "distinct (map fst (filter (\<lambda>(j, _). j \<noteq> i) (docs c)))"
    using Cons.prems by simp
  with Cons show ?case
    by (simp add: deleteOne_id filter_filter conj_commute split_beta)
qed

lemma delete_groups_docs:
  "distinct (map fst (docs c)) \<Longrightarrow>
   snd (delete_groups gs c) = c\<lparr>docs := filter (\<lambda>(j, _). j \<notin> set (concat (map (\<lambda>g. tl (g_movieId g)) gs))) (docs c)\<rparr>"
proof (induction gs arbitrary: c)
  case Nil
  then show ?case by simp
next
  case (Cons g gs)
  let ?c' = "c\<lparr>docs := filter (\<lambda>(j, _). j \<notin> set (tl (g_movieId g))) (docs c)\<rparr>"
  have "snd (delete_ids (tl (g_movieId g)) 0 c) = ?c'"
    using Cons.prems by (rule delete_ids_docs)
  moreover have "distinct (map fst (docs ?c'))"
    using Cons.prems by simp
  ultimately show ?case
    using Cons.IH by (simp add: split_beta filter_filter conj_commute)
qed

section \<open>Which ids are deleted\<close>

lemma g_movieId_group_of:
  "distinct (map fst ds) \<Longrightarrow> g_movieId (group_of ds k) = map fst (group_members ds k)"
  by (simp add: group_of_def group_members_def Let_def)

lemma group_members_mem [simp]:
  "(j, m) \<in> set (group_members ds k) \<longleftrightarrow> (j, m) \<in> set ds \<and> mv_fullplot m = k"
  by (auto simp: group_members_def)

lemma hd_map_fst_members:
  "group_members ds k \<noteq> [] \<Longrightarrow> hd (map fst (group_members ds k)) = fst (hd (group_members ds k))"
  by (simp add: hd_map)

lemma tl_members_iff:
  assumes "distinct (map fst ds)"
  shows "j \<in> set (tl (map fst (group_members ds k))) \<longleftrightarrow>
      (\<exists>m. (j, m) \<in> set ds \<and> mv_fullplot m = k) \<and> j \<noteq> fst (hd (group_members ds k))"
proof (rule tl_distinct_iff)
  show "distinct (map fst (group_members ds k))"
    using assms by (simp add: group_members_def)
  show "j \<in> set (map fst (group_members ds k)) \<longleftrightarrow> (\<exists>m. (j, m) \<in> set ds \<and> mv_fullplot m = k)"
    by (simp add: mem_map_fst)
  show "hd (map fst (group_members ds k)) = fst (hd (group_members ds k))"
    if "j \<in> set (map fst (group_members ds k))"
    using that by (intro hd_map_fst_members) auto
qed

lemma doomed_ids_iff_keys:
  assumes "distinct (map fst ds)"
  shows "j \<in> set (doomed_ids ds) \<longleftrightarrow>
        (\<exists>k \<in> set (map (\<lambda>(_, m). mv_fullplot m) ds). is_dup (group_of ds k)
            \<and> j \<in> set (tl (map fst (group_members ds k))))"
  using assms by (auto simp: doomed_ids_def group_movies_def g_movieId_group_of)

lemma key_in_keys:
  "(j, m) \<in> set ds \<Longrightarrow> mv_fullplot m \<in> set (map (\<lambda>(_, m). mv_fullplot m) ds)"
  unfolding set_map by (rule image_eqI [where x = "(j, m)"]) simp_all

lemma doomed_iff:
  assumes "distinct (map fst ds)"
  shows "j \<in> set (doomed_ids ds) \<longleftrightarrow>
         (\<exists>m. (j, m) \<in> set ds \<and> is_dup (group_of ds (mv_fullplot m))
              \<and> j \<noteq> fst (hd (group_members ds (mv_fullplot m))))"
  (is "_ \<longleftrightarrow> ?R")
proof
  assume "j \<in> set (doomed_ids ds)"
  then obtain k m where "is_dup (group_of ds k)" "(j, m) \<in> set ds" "mv_fullplot m = k"
      "j \<noteq> fst (hd (group_members ds k))"
    using assms by (auto simp: doomed_ids_iff_keys tl_members_iff)
  then show ?R
    by blast
next
  assume ?R
  then obtain m where "(j, m) \<in> set ds" "is_dup (group_of ds (mv_fullplot m))"
      "j \<noteq> fst (hd (group_members ds (mv_fullplot m)))"
    by blast
  with assms show "j \<in> set (doomed_ids ds)"
    unfolding doomed_ids_iff_keys [OF assms] tl_members_iff [OF assms]
    by (intro bexI [OF _ key_in_keys]) auto
qed

lemma is_dup_same:
  assumes "is_dup (group_of ds k)" "(i, m) \<in> set (group_members ds k)" "(j, m') \<in> set (group_members ds k)"
  shows "mv_title m' = mv_title m \<and> mv_year m' = mv_year m"
proof
  have "length (remdups (map (\<lambda>(_, m). mv_title m) (group_members ds k))) = 1"
    using assms(1) by (simp add: is_dup_def group_of_def Let_def)
  then show "mv_title m' = mv_title m"
    by (rule remdups_single_eq) (use assms(2,3) in \<open>force simp del: group_members_mem\<close>)+
  have "length (remdups (map (\<lambda>(_, m). mv_year m) (group_members ds k))) = 1"
    using assms(1) by (simp add: is_dup_def group_of_def Let_def)
  then show "mv_year m' = mv_year m"
    by (rule remdups_single_eq) (use assms(2,3) in \<open>force simp del: group_members_mem\<close>)+
qed

lemma dedup_docs:
  assumes "coll_wf c"
  shows "snd (deleteDuplicateMovies c) = c\<lparr>docs := filter (\<lambda>(j, _). j \<notin> set (doomed_ids (docs c))) (docs c)\<rparr>"
proof -
  have "distinct (map fst (docs c))"
    using assms by (simp add: coll_wf_def)
  then show ?thesis
  proof (cases "filter is_dup (group_movies (docs c)) = []")
    case True
    then show ?thesis
      by (simp add: deleteDuplicateMovies_def doomed_ids_def)
  next
    case False
    with \<open>distinct (map fst (docs c))\<close> show ?thesis
      by (simp add: deleteDuplicateMovies_def doomed_ids_def Let_def split_beta delete_groups_docs)
  qed
qed

text \<open>A group with at most one \<open>lastupdated\<close> value is not a duplicate group: its movies stay.\<close>

lemma dedup_keeps_group:
  assumes "coll_wf c" "(i, m) \<in> set (docs c)"
    and "length (remdups (List.map_filter (\<lambda>(_, m'). mv_lastupdated m') (group_members (docs c) (mv_fullplot m)))) \<le> 1"
  shows "(i, m) \<in> set (docs (snd (deleteDuplicateMovies c)))"
proof -
  have D: "distinct (map fst (docs c))"
    using assms(1) by (simp add: coll_wf_def)
  have nd: "\<not> is_dup (group_of (docs c) (mv_fullplot m))"
    using assms(3) by (simp add: group_of_def is_dup_def Let_def)
  have "i \<notin> set (doomed_ids (docs c))"
  proof
    assume "i \<in> set (doomed_ids (docs c))"
    then obtain m0 where "(i, m0) \<in> set (docs c)" "is_dup (group_of (docs c) (mv_fullplot m0))"
      using doomed_iff [OF D] by blast
    with nd eq_key_imp_eq_value [OF D _ assms(2)] show False
      by metis
  qed
  then show ?thesis
    using dedup_docs [OF assms(1)] assms(2) by simp
qed

text \<open>C3: on a well-formed collection the run deletes exactly the ids of \<open>doomed_ids\<close>, all but the first of each duplicate group, and keeps the others in order; it answers \<open>"No duplicates to delete"\<close> exactly when there is nothing to delete.\<close>

theorem deleteDuplicateMovies_docs:
  assumes "coll_wf c"
  shows "snd (deleteDuplicateMovies c) = c\<lparr>docs := filter (\<lambda>(j, _). j \<notin> set (doomed_ids (docs c))) (docs c)\<rparr>
         \<and> (fst (deleteDuplicateMovies c) = No_duplicates \<longleftrightarrow> doomed_ids (docs c) = [])"
proof
  show "snd (deleteDuplicateMovies c) = c\<lparr>docs := filter (\<lambda>(j, _). j \<notin> set (doomed_ids (docs c))) (docs c)\<rparr>"
    using assms by (rule dedup_docs)
  have D: "distinct (map fst (docs c))"
    using assms by (simp add: coll_wf_def)
  have tl_ne: "tl (g_movieId g) \<noteq> []" if "g \<in> set (filter is_dup (group_movies (docs c)))" for g
  proof -
    from that obtain k where g: "g = group_of (docs c) k"
      by (auto simp: group_movies_def)
    from that have "is_dup g"
      by simp
    then have "1 < length (g_count g)"
      by (simp add: is_dup_def)
    also have "length (g_count g) \<le> length (List.map_filter (\<lambda>(_, m). mv_lastupdated m) (group_members (docs c) k))"
      by (simp add: g group_of_def Let_def length_remdups_leq)
    also have "\<dots> \<le> length (group_members (docs c) k)"
      by (rule length_map_filter_le)
    also have "\<dots> = length (g_movieId g)"
      using D g by (simp add: g_movieId_group_of)
    finally show ?thesis
      by (cases "g_movieId g") auto
  qed
  show "fst (deleteDuplicateMovies c) = No_duplicates \<longleftrightarrow> doomed_ids (docs c) = []"
  proof (cases "filter is_dup (group_movies (docs c)) = []")
    case True
    then show ?thesis
      by (simp add: deleteDuplicateMovies_def doomed_ids_def)
  next
    case False
    then obtain g where g: "g \<in> set (filter is_dup (group_movies (docs c)))"
      by (metis list.set_intros(1) neq_Nil_conv)
    with tl_ne have "doomed_ids (docs c) \<noteq> []"
      by (auto simp: doomed_ids_def)
    moreover have "fst (deleteDuplicateMovies c) \<noteq> No_duplicates"
      using False by (simp add: deleteDuplicateMovies_def Let_def split_beta)
    ultimately show ?thesis
      by simp
  qed
qed

theorem deleteDuplicateMovies_docs_witness:
  "coll_wf dup_movies \<and> doomed_ids (docs dup_movies) = [8]
   \<and> snd (deleteDuplicateMovies dup_movies) = \<lparr>docs = [(7, sample_movie)], next_oid = 9\<rparr>"
proof -
  have "snd (deleteDuplicateMovies dup_movies) = dup_movies\<lparr>docs := [(7, sample_movie)]\<rparr>"
    using deleteDuplicateMovies_docs [OF dup_movies_coll_wf]
    by (simp add: doomed_dup_movies) (simp add: dup_movies_def)
  then show ?thesis
    by (simp add: doomed_dup_movies dup_movies_coll_wf) (simp add: dup_movies_def)
qed

text \<open>C4: every movie the run deletes has a kept copy with another id and the same plot, title and year.\<close>

theorem dedup_keeps_a_copy:
  assumes wf: "coll_wf c" and old: "(i, m) \<in> set (docs c)"
    and gone: "(i, m) \<notin> set (docs (snd (deleteDuplicateMovies c)))"
  shows "\<exists>j m'. j \<noteq> i \<and> (j, m') \<in> set (docs (snd (deleteDuplicateMovies c)))
           \<and> mv_fullplot m' = mv_fullplot m \<and> mv_title m' = mv_title m \<and> mv_year m' = mv_year m"
proof -
  let ?ds = "docs c" and ?k = "mv_fullplot m"
  have D: "distinct (map fst ?ds)"
    using wf by (simp add: coll_wf_def)
  have after: "docs (snd (deleteDuplicateMovies c)) = filter (\<lambda>(j, _). j \<notin> set (doomed_ids ?ds)) ?ds"
    using dedup_docs [OF wf] by simp
  with old gone have "i \<in> set (doomed_ids ?ds)"
    by auto
  then obtain m0 where m0: "(i, m0) \<in> set ?ds" "is_dup (group_of ?ds (mv_fullplot m0))"
      "i \<noteq> fst (hd (group_members ?ds (mv_fullplot m0)))"
    using doomed_iff [OF D] by blast
  have "m0 = m"
    using eq_key_imp_eq_value [OF D m0(1) old] .
  with m0 have dup: "is_dup (group_of ?ds ?k)" and ne: "i \<noteq> fst (hd (group_members ?ds ?k))"
    by simp_all
  have "(i, m) \<in> set (group_members ?ds ?k)"
    using old by simp
  then have "group_members ?ds ?k \<noteq> []"
    by (metis empty_iff list.set(1))
  then obtain j m' where hd: "hd (group_members ?ds ?k) = (j, m')" and jm: "(j, m') \<in> set (group_members ?ds ?k)"
    by (metis hd_in_set surj_pair)
  then have jm': "(j, m') \<in> set ?ds" "mv_fullplot m' = ?k"
    by simp_all
  have "j \<notin> set (doomed_ids ?ds)"
  proof
    assume "j \<in> set (doomed_ids ?ds)"
    then obtain m'' where "(j, m'') \<in> set ?ds" "j \<noteq> fst (hd (group_members ?ds (mv_fullplot m'')))"
      using doomed_iff [OF D] by blast
    moreover from this(1) have "m'' = m'"
      using eq_key_imp_eq_value [OF D _ jm'(1)] by blast
    ultimately show False
      using hd jm'(2) by simp
  qed
  with jm'(1) after have "(j, m') \<in> set (docs (snd (deleteDuplicateMovies c)))"
    by simp
  moreover have "j \<noteq> i"
    using ne hd by simp
  moreover have "mv_title m' = mv_title m \<and> mv_year m' = mv_year m"
    using is_dup_same [OF dup \<open>(i, m) \<in> set (group_members ?ds ?k)\<close> jm] .
  ultimately show ?thesis
    using jm'(2) by blast
qed

theorem dedup_keeps_a_copy_witness:
  "coll_wf dup_movies \<and> (8, dup_copy) \<in> set (docs dup_movies)
   \<and> (8, dup_copy) \<notin> set (docs (snd (deleteDuplicateMovies dup_movies)))
   \<and> (\<exists>j m'. j \<noteq> 8 \<and> (j, m') \<in> set (docs (snd (deleteDuplicateMovies dup_movies)))
        \<and> mv_fullplot m' = mv_fullplot dup_copy \<and> mv_title m' = mv_title dup_copy \<and> mv_year m' = mv_year dup_copy)"
proof -
  have run: "snd (deleteDuplicateMovies dup_movies) = \<lparr>docs = [(7, sample_movie)], next_oid = 9\<rparr>"
    by (simp add: dedup_run_sample)
  have wf: "coll_wf dup_movies"
    by (rule dup_movies_coll_wf)
  have mem: "(8, dup_copy) \<in> set (docs dup_movies)"
    by (simp add: dup_movies_def)
  have gone: "(8, dup_copy) \<notin> set (docs (snd (deleteDuplicateMovies dup_movies)))"
    by (simp add: run)
  show ?thesis
    using dedup_keeps_a_copy [OF wf mem gone] wf mem gone by blast
qed

section \<open>A second run finds nothing\<close>

lemma group_of_cong: "group_members ds k = group_members ds' k \<Longrightarrow> group_of ds k = group_of ds' k"
  by (simp add: group_of_def)

lemma not_dup_short:
  "length (group_members ds k) \<le> 1 \<Longrightarrow> \<not> is_dup (group_of ds k)"
proof -
  assume "length (group_members ds k) \<le> 1"
  then have "length (remdups (List.map_filter (\<lambda>(_, m). mv_lastupdated m) (group_members ds k))) \<le> 1"
    using length_remdups_leq length_map_filter_le order_trans by metis
  then show ?thesis
    by (simp add: is_dup_def group_of_def Let_def)
qed

lemma dedup_groups_clean:
  assumes D: "distinct (map fst ds)"
  shows "\<not> is_dup (group_of (filter (\<lambda>(j, _). j \<notin> set (doomed_ids ds)) ds) k)"
proof -
  let ?keep = "\<lambda>(j, _). j \<notin> set (doomed_ids ds)"
  have gm: "group_members (filter ?keep ds) k = filter ?keep (group_members ds k)"
    by (simp add: group_members_def filter_filter conj_commute split_beta)
  show ?thesis
  proof (cases "is_dup (group_of ds k)")
    case True
    have "\<not> ?keep x" if "x \<in> set (tl (group_members ds k))" for x
    proof -
      obtain j m where x: "x = (j, m)" by fastforce
      have "distinct (map fst (group_members ds k))"
        using D by (simp add: group_members_def)
      with that x have "j \<noteq> fst (hd (group_members ds k))"
        by (simp add: tl_distinct_fst)
      moreover have "(j, m) \<in> set (group_members ds k)"
        using that x by (metis list.sel(2) list.set_sel(2))
      ultimately show ?thesis
        using True doomed_iff [OF D, of j] x by auto
    qed
    then have "length (group_members (filter ?keep ds) k) \<le> 1"
      unfolding gm by (intro length_filter_tl_le) blast
    then show ?thesis
      by (rule not_dup_short)
  next
    case False
    have "filter ?keep (group_members ds k) = group_members ds k"
    proof (rule filter_True, clarify)
      fix j m
      assume "(j, m) \<in> set (group_members ds k)" "j \<in> set (doomed_ids ds)"
      then show False
        using False doomed_iff [OF D, of j] eq_key_imp_eq_value [OF D] by auto
    qed
    with False gm show ?thesis
      by (metis group_of_cong)
  qed
qed

text \<open>C10: the run is idempotent: on a well-formed collection a second run answers \<open>"No duplicates to delete"\<close> and changes nothing.\<close>

theorem dedup_idempotent:
  assumes "coll_wf c"
  shows "deleteDuplicateMovies (snd (deleteDuplicateMovies c)) = (No_duplicates, snd (deleteDuplicateMovies c))"
proof -
  have D: "distinct (map fst (docs c))"
    using assms by (simp add: coll_wf_def)
  have "filter is_dup (group_movies (filter (\<lambda>(j, _). j \<notin> set (doomed_ids (docs c))) (docs c))) = []"
    using dedup_groups_clean [OF D] by (simp add: group_movies_def filter_empty_conv)
  moreover have "docs (snd (deleteDuplicateMovies c)) = filter (\<lambda>(j, _). j \<notin> set (doomed_ids (docs c))) (docs c)"
    by (simp add: dedup_docs [OF assms])
  ultimately show ?thesis
    unfolding deleteDuplicateMovies_def [of "snd (deleteDuplicateMovies c)"] by (simp add: Let_def)
qed

theorem dedup_idempotent_witness:
  "coll_wf dup_movies \<and>
   deleteDuplicateMovies (snd (deleteDuplicateMovies dup_movies)) = (No_duplicates, \<lparr>docs = [(7, sample_movie)], next_oid = 9\<rparr>)"
proof -
  have run: "snd (deleteDuplicateMovies dup_movies) = \<lparr>docs = [(7, sample_movie)], next_oid = 9\<rparr>"
    by (simp add: dedup_run_sample)
  have wf: "coll_wf dup_movies"
    by (rule dup_movies_coll_wf)
  show ?thesis
    using dedup_idempotent [OF wf] wf by (simp only: run)
qed

section \<open>What counts as a duplicate\<close>

text \<open>C13: a plot group is only treated when its movies carry at least two distinct \<open>lastupdated\<close> values: in a well-formed collection, every movie of a group whose movies share one value, or carry none, is kept; and a movie added by \<open>apiAddMovie\<close> (which writes \<open>lastUpdated\<close>, not \<open>lastupdated\<close>) to such a group leaves it untreated, so the new movie and all its copies are kept.\<close>

theorem dedup_needs_distinct_lastupdated:
  assumes wf: "coll_wf c"
    and grp: "length (remdups (List.map_filter (\<lambda>(_, m). mv_lastupdated m) (group_members (docs c) k))) \<le> 1"
  shows "(\<forall>(i, m) \<in> set (docs c). mv_fullplot m = k \<longrightarrow> (i, m) \<in> set (docs (snd (deleteDuplicateMovies c))))
    \<and> (k = Some (mb_fullplot b) \<longrightarrow>
        (\<forall>(i, m) \<in> set (docs (snd (apiAddMovie now b c))). mv_fullplot m = k \<longrightarrow>
            (i, m) \<in> set (docs (snd (deleteDuplicateMovies (snd (apiAddMovie now b c)))))))"
proof
  show "\<forall>(i, m) \<in> set (docs c). mv_fullplot m = k \<longrightarrow> (i, m) \<in> set (docs (snd (deleteDuplicateMovies c)))"
    using dedup_keeps_group [OF wf] grp by blast
  show "k = Some (mb_fullplot b) \<longrightarrow>
        (\<forall>(i, m) \<in> set (docs (snd (apiAddMovie now b c))). mv_fullplot m = k \<longrightarrow>
            (i, m) \<in> set (docs (snd (deleteDuplicateMovies (snd (apiAddMovie now b c))))))"
  proof (intro impI)
    assume k: "k = Some (mb_fullplot b)"
    let ?c = "snd (apiAddMovie now b c)"
    have c': "?c = snd (insertOne (bson_movie (movie_of_body now b)) c)"
      by (simp add: apiAddMovie_def addMovie_def split_beta)
    have "group_members (docs ?c) k = group_members (docs c) k @ [(next_oid c, bson_movie (movie_of_body now b))]"
      using k by (simp add: c' insertOne_def group_members_def movie_of_body_def Let_def)
    moreover have "mv_lastupdated (bson_movie (movie_of_body now b)) = None"
      by (simp add: movie_of_body_def Let_def)
    ultimately have "List.map_filter (\<lambda>(_, m). mv_lastupdated m) (group_members (docs ?c) k)
        = List.map_filter (\<lambda>(_, m). mv_lastupdated m) (group_members (docs c) k)"
      by (simp add: List.map_filter_def)
    with grp have "length (remdups (List.map_filter (\<lambda>(_, m). mv_lastupdated m) (group_members (docs ?c) k))) \<le> 1"
      by simp
    moreover have "coll_wf ?c"
      unfolding c' by (rule coll_wf_insertOne [OF wf])
    ultimately show "\<forall>(i, m) \<in> set (docs ?c). mv_fullplot m = k \<longrightarrow> (i, m) \<in> set (docs (snd (deleteDuplicateMovies ?c)))"
      using dedup_keeps_group by blast
  qed
qed

theorem dedup_needs_distinct_lastupdated_witness:
  "(8, bson_movie (movie_of_body 5 heat_copy_body))
     \<in> set (docs (snd (deleteDuplicateMovies (snd (apiAddMovie 5 heat_copy_body single_movie)))))"
proof -
  have "(8, bson_movie (movie_of_body 5 heat_copy_body)) \<in> set (docs (snd (apiAddMovie 5 heat_copy_body single_movie)))"
    by (simp add: apiAddMovie_def addMovie_def insertOne_def single_movie_def)
  moreover have "mv_fullplot (bson_movie (movie_of_body 5 heat_copy_body)) = Some ''A heist.''"
    by (simp add: movie_of_body_def Let_def heat_copy_body_def)
  moreover have "Some ''A heist.'' = Some (mb_fullplot heat_copy_body)"
    by (simp add: heat_copy_body_def)
  ultimately show ?thesis
    using dedup_needs_distinct_lastupdated [OF single_movie_coll_wf single_movie_group, of heat_copy_body 5]
    by blast
qed

end
