(* ===== verification/MoviesList.thy ===== *)
theory MoviesList
  imports Services "HOL-Library.While_Combinator"
begin

text \<open>
  The movie list page, \<open>src/frontend/src/components/movies-list.js\<close> (component
  \<open>MoviesList\<close>).  Its React state is the record \<open>ml_state\<close>, one field per
  \<open>useState\<close>.  An event handler returns the state React renders next.  The effect of
  the component runs after each render whose dependencies changed.  It issues the page
  requests (\<open>pageScoutDirector\<close>, \<open>retrieveMovies\<close>/\<open>find\<close>, \<open>retrieveGenres\<close>,
  \<open>retrieveRated\<close>).  Each request joins the list \<open>pending\<close>; its reply arrives later, in
  any order, and its \<open>then\<close> callback updates the state.  The dependency list compares
  \<open>searchParams\<close> by identity, and every \<open>setSearchParams\<close> passes a new object; the
  counter \<open>paramsVersion\<close> stands for that identity.  The backend is a parameter: a
  function from a request to its reply.
\<close>

section \<open>State\<close>

datatype direction = Previous | Next

text \<open>What a reply is used for: the list shown, the two option lists, or a page scout.\<close>

datatype ml_purpose = ForMovies | ForGenres | ForRated | ForScout direction

datatype ml_reply = MoviesReply "(oid \<times> movie) list" | ListReply "string list" | ReplyError

record ml_state =
  ml_movies :: "(oid \<times> movie) list"
  searchTitle :: string
  searchYear :: string
  searchGenre :: string
  ml_genres :: "string list"
  searchRated :: string
  ml_rated :: "string list"
  currPage :: int
  findByFilter :: bool
  searchParams :: "string list \<times> string list"
  paramsVersion :: nat
  prevPageExists :: bool
  nextPageExists :: bool
  pending :: "(ml_purpose \<times> http_request) list"
  lastDeps :: "(int \<times> bool \<times> nat \<times> bool \<times> bool) option"

definition movies_list_init :: ml_state where
  "movies_list_init =
     \<lparr>ml_movies = [], searchTitle = [], searchYear = [], searchGenre = [], ml_genres = [''All Genres''],
      searchRated = [], ml_rated = [''All Ratings''], currPage = 1, findByFilter = False,
      searchParams = ([], []), paramsVersion = 0, prevPageExists = False, nextPageExists = False,
      pending = [], lastDeps = None\<rparr>"

text \<open>The dependency list \<open>[currPage, findByFilter, searchParams, prevPageExists, nextPageExists]\<close>.\<close>

definition ml_deps :: "ml_state \<Rightarrow> int \<times> bool \<times> nat \<times> bool \<times> bool" where
  "ml_deps st = (currPage st, findByFilter st, paramsVersion st, prevPageExists st, nextPageExists st)"

section \<open>Requests and the effect\<close>

definition issue :: "ml_purpose \<Rightarrow> http_request \<Rightarrow> ml_state \<Rightarrow> ml_state" where
  "issue p r st = st\<lparr>pending := pending st @ [(p, r)]\<rparr>"

text \<open>The filters a scout sends: \<open>searchParams\<close> when the search is on, else \<open>""\<close> (falsy).\<close>

definition ml_params :: "ml_state \<Rightarrow> (string list \<times> string list) option" where
  "ml_params st = (if findByFilter st then Some (searchParams st) else None)"

definition pageScout :: "(string list \<times> string list) option \<Rightarrow> int \<Rightarrow> direction \<Rightarrow> ml_state \<Rightarrow> ml_state" where
  "pageScout params changedPage direction st = issue (ForScout direction) (find params changedPage) st"

definition pageScoutDirector :: "direction \<Rightarrow> ml_state \<Rightarrow> ml_state" where
  "pageScoutDirector direction st =
     (if direction = Previous then
        (if currPage st = 1 then st\<lparr>prevPageExists := False\<rparr>
         else pageScout (ml_params st) (currPage st - 1) direction st)
      else pageScout (ml_params st) (currPage st + 1) direction st)"

text \<open>The body of \<open>useEffect\<close>; it reads the state of the render it follows.\<close>

definition ml_effect :: "ml_state \<Rightarrow> ml_state" where
  "ml_effect st =
     (let st1 = pageScoutDirector Next (pageScoutDirector Previous st);
          list_req = (if findByFilter st then find (Some (searchParams st)) (currPage st) else getAll (currPage st))
      in issue ForRated getRated_req (issue ForGenres getGenres_req (issue ForMovies list_req st1)))"

text \<open>
  React after a state change: while the dependencies differ from those of the last run
  of the effect, record them and run the effect.  \<open>ml_settle_closed\<close> shows the loop
  stops after at most two runs.
\<close>

definition ml_settle :: "ml_state \<Rightarrow> ml_state option" where
  "ml_settle st =
     while_option (\<lambda>s. lastDeps s \<noteq> Some (ml_deps s)) (\<lambda>s. ml_effect (s\<lparr>lastDeps := Some (ml_deps s)\<rparr>)) st"

text \<open>One run of the effect, recording its dependencies.\<close>

abbreviation ml_run :: "ml_state \<Rightarrow> ml_state" where
  "ml_run s \<equiv> ml_effect (s\<lparr>lastDeps := Some (ml_deps s)\<rparr>)"

section \<open>Search handlers\<close>

text \<open>One \<open>if (search && !tempFindBys.includes(k))\<close> block of \<open>activateFindByFilter\<close>.\<close>

definition add_filter :: "string \<Rightarrow> string \<Rightarrow> string list \<times> string list \<Rightarrow> string list \<times> string list" where
  "add_filter v k p = (if v \<noteq> [] \<and> k \<notin> set (snd p) then (fst p @ [v], snd p @ [k]) else p)"

definition activateFindByFilter :: "string \<Rightarrow> string \<Rightarrow> ml_state \<Rightarrow> ml_state" where
  "activateFindByFilter searchFilter searchFindBy st =
     (let p = add_filter (searchRated st) ''rated'' (add_filter (searchGenre st) ''genres''
                (add_filter (searchYear st) ''year'' (add_filter (searchTitle st) ''title''
                  ([searchFilter], [searchFindBy]))))
      in st\<lparr>findByFilter := True, searchParams := p, paramsVersion := Suc (paramsVersion st), currPage := 1\<rparr>)"

text \<open>\<open>indexOf\<close>: the first position of the element, or -1.\<close>

definition js_indexOf :: "'a list \<Rightarrow> 'a \<Rightarrow> int" where
  "js_indexOf xs x = (if x \<in> set xs then int (length (takeWhile (\<lambda>y. y \<noteq> x) xs)) else -1)"

text \<open>\<open>splice(i, 1)\<close>: drop the element at \<open>i\<close>; an index out of range leaves the list as it is.\<close>

definition splice1 :: "nat \<Rightarrow> 'a list \<Rightarrow> 'a list" where
  "splice1 i xs = take i xs @ drop (Suc i) xs"

definition deactivateFindByFilter :: "string \<Rightarrow> ml_state \<Rightarrow> ml_state" where
  "deactivateFindByFilter deactivatedFindBy st =
     (let (fs, ks) = searchParams st;
          findByIndex = js_indexOf ks deactivatedFindBy
      in if findByIndex \<noteq> -1 \<and> 1 < length ks
         then st\<lparr>searchParams := (splice1 (nat findByIndex) fs, splice1 (nat findByIndex) ks),
                 paramsVersion := Suc (paramsVersion st), currPage := 1\<rparr>
         else st\<lparr>findByFilter := False, searchParams := ([], []),
                 paramsVersion := Suc (paramsVersion st), currPage := 1\<rparr>)"

definition findByTitle :: "ml_state \<Rightarrow> ml_state" where
  "findByTitle st =
     (if searchTitle st \<noteq> [] then activateFindByFilter (searchTitle st) ''title'' st
      else deactivateFindByFilter ''title'' st)"

definition findByYear :: "ml_state \<Rightarrow> ml_state" where
  "findByYear st =
     (if searchYear st \<noteq> [] then activateFindByFilter (searchYear st) ''year'' st
      else deactivateFindByFilter ''year'' st)"

definition findByGenre :: "ml_state \<Rightarrow> ml_state" where
  "findByGenre st =
     (if searchGenre st = ''All Genres'' then (deactivateFindByFilter ''genres'' st)\<lparr>searchGenre := []\<rparr>
      else activateFindByFilter (searchGenre st) ''genres'' st)"

definition findByRated :: "ml_state \<Rightarrow> ml_state" where
  "findByRated st =
     (if searchRated st = ''All Rated'' then (deactivateFindByFilter ''rated'' st)\<lparr>searchRated := []\<rparr>
      else activateFindByFilter (searchRated st) ''rated'' st)"

section \<open>Pagination and replies\<close>

definition pagination :: "direction \<Rightarrow> ml_state \<Rightarrow> ml_state" where
  "pagination direction st =
     (if direction = Previous \<and> prevPageExists st then st\<lparr>currPage := currPage st - 1\<rparr>
      else if direction = Next \<and> nextPageExists st then st\<lparr>currPage := currPage st + 1\<rparr>
      else st)"

text \<open>
  The \<open>then\<close> callback of a request; a reply of the wrong shape or a failed request only
  reaches \<open>catch\<close>, which logs.  A scout counts a page as existing when its
  \<open>moviesList\<close> is non-empty.
\<close>

definition ml_receive :: "ml_purpose \<Rightarrow> ml_reply \<Rightarrow> ml_state \<Rightarrow> ml_state" where
  "ml_receive p r st =
     (case (p, r) of
        (ForMovies, MoviesReply ms) \<Rightarrow> st\<lparr>ml_movies := ms\<rparr>
      | (ForGenres, ListReply gs) \<Rightarrow> st\<lparr>ml_genres := ''All Genres'' # gs\<rparr>
      | (ForRated, ListReply rs) \<Rightarrow> st\<lparr>ml_rated := ''All Rated'' # rs\<rparr>
      | (ForScout Previous, MoviesReply ms) \<Rightarrow> st\<lparr>prevPageExists := (ms \<noteq> [])\<rparr>
      | (ForScout Next, MoviesReply ms) \<Rightarrow> st\<lparr>nextPageExists := (ms \<noteq> [])\<rparr>
      | _ \<Rightarrow> st)"

text \<open>The events: typing or choosing in a search field, a search button (or Enter), a page link, a reply.\<close>

datatype ml_event =
    ChangeSearchTitle string | ChangeSearchYear string | ChangeSearchGenre string | ChangeSearchRated string
  | FindByTitle | FindByYear | FindByGenre | FindByRated
  | Pagination direction
  | Deliver nat

definition ml_handle :: "(http_request \<Rightarrow> ml_reply) \<Rightarrow> ml_event \<Rightarrow> ml_state \<Rightarrow> ml_state" where
  "ml_handle backend e st =
     (case e of
        ChangeSearchTitle v \<Rightarrow> st\<lparr>searchTitle := v\<rparr>
      | ChangeSearchYear v \<Rightarrow> st\<lparr>searchYear := v\<rparr>
      | ChangeSearchGenre v \<Rightarrow> st\<lparr>searchGenre := v\<rparr>
      | ChangeSearchRated v \<Rightarrow> st\<lparr>searchRated := v\<rparr>
      | FindByTitle \<Rightarrow> findByTitle st
      | FindByYear \<Rightarrow> findByYear st
      | FindByGenre \<Rightarrow> findByGenre st
      | FindByRated \<Rightarrow> findByRated st
      | Pagination d \<Rightarrow> pagination d st
      | Deliver i \<Rightarrow>
          (if i < length (pending st)
           then ml_receive (fst (pending st ! i)) (backend (snd (pending st ! i)))
                  (st\<lparr>pending := splice1 i (pending st)\<rparr>)
           else st))"

definition ml_step :: "(http_request \<Rightarrow> ml_reply) \<Rightarrow> ml_event \<Rightarrow> ml_state \<Rightarrow> ml_state option" where
  "ml_step backend e st = ml_settle (ml_handle backend e st)"

section \<open>Rendering a movie card\<close>

text \<open>
  \<open>formatGenre\<close>: the loop appends \<open>genres[i] + ", "\<close> for \<open>i < genres.length - 1\<close> and
  breaks after the append once \<open>i > 4\<close>; the last genre follows (\<open>undefined\<close> for an empty
  list, which is truthy and passes the \<open>!genres\<close> test).
\<close>

function formatGenre_loop :: "string list \<Rightarrow> nat \<Rightarrow> string \<Rightarrow> string" where
  "formatGenre_loop genres i formatted =
     (if int i < int (length genres) - 1 then
        (let formatted' = formatted @ genres ! i @ '', ''
         in if 4 < i then formatted' else formatGenre_loop genres (Suc i) formatted')
      else formatted)"
  by pat_completeness auto
termination
  by (relation "measure (\<lambda>(genres, i, _). length genres - i)") auto

definition formatGenre :: "string list \<Rightarrow> string" where
  "formatGenre genres =
     (let formatted = formatGenre_loop genres 0 [];
          formatted' = (if 1 < length genres then ''Genres: '' @ formatted else ''Genre: '' @ formatted)
      in formatted' @ (case js_index genres (length genres - 1) of Some g \<Rightarrow> g | None \<Rightarrow> ''undefined''))"

text \<open>\<open>n.toString()\<close> for a number that may be \<open>NaN\<close>.\<close>

definition js_number_str :: "int option \<Rightarrow> string" where
  "js_number_str n = (case n of Some i \<Rightarrow> string_of_int i | None \<Rightarrow> ''NaN'')"

text \<open>The \<open>while (formattedID.length < 7)\<close> loop of \<open>formatIMDbID\<close>.\<close>

function pad_imdb :: "string \<Rightarrow> string" where
  "pad_imdb formattedID = (if length formattedID < 7 then pad_imdb (''0'' @ formattedID) else formattedID)"
  by pat_completeness auto
termination
  by (relation "measure (\<lambda>s. 7 - length s)") auto

definition formatIMDbID :: "int option \<Rightarrow> string" where
  "formatIMDbID movieID = pad_imdb (js_number_str movieID)"

text \<open>
  The text and links of a card.  \<open>movie.imdb.id\<close> is read without a guard: a movie
  without \<open>imdb\<close> throws a \<open>TypeError\<close> (\<open>None\<close>), and the list is not rendered.
\<close>

record movie_card =
  mc_title :: string
  mc_genres :: string
  mc_rated :: string
  mc_reviews :: string
  mc_imdb :: string

definition card_title :: "movie \<Rightarrow> string" where
  "card_title m =
     (if 30 < length (mv_title m) then take 42 (mv_title m) @ ''...('' @ js_number_str (mv_year m) @ '')''
      else mv_title m @ '' ('' @ js_number_str (mv_year m) @ '')'')"

definition movie_card :: "oid \<times> movie \<Rightarrow> movie_card option" where
  "movie_card km =
     (case mv_imdb (snd km) of
        None \<Rightarrow> None
      | Some i \<Rightarrow> Some \<lparr>mc_title = card_title (snd km), mc_genres = formatGenre (mv_genres (snd km)),
                       mc_rated = (case mv_rated (snd km) of Some r \<Rightarrow> if r \<noteq> [] then r else ''NOT RATED''
                                   | None \<Rightarrow> ''NOT RATED''),
                       mc_reviews = ''/movies/id/'' @ oid_hex (fst km),
                       mc_imdb = ''https://www.imdb.com/title/tt'' @ formatIMDbID (im_id i)\<rparr>)"

definition render_movies :: "(oid \<times> movie) list \<Rightarrow> movie_card list option" where
  "render_movies ms = those (map movie_card ms)"

text \<open>A backend whose movie list fills two pages, for the interleaving below.\<close>

definition two_pages :: "http_request \<Rightarrow> ml_reply" where
  "two_pages r =
     (if r = getGenres_req \<or> r = getRated_req then ListReply []
      else if hr_url r = ''?page=1'' \<or> hr_url r = ''?page=2'' then MoviesReply [(0, sample_movie)]
      else MoviesReply [])"

section \<open>Invariants\<close>

text \<open>
  The search parameters: as many filters as categories, each category at most once and
  one of the four the page offers, and the search on exactly when a category is set.
\<close>

definition ml_search_inv :: "ml_state \<Rightarrow> bool" where
  "ml_search_inv st \<longleftrightarrow>
     length (fst (searchParams st)) = length (snd (searchParams st)) \<and> distinct (snd (searchParams st))
     \<and> set (snd (searchParams st)) \<subseteq> {''title'', ''year'', ''genres'', ''rated''}
     \<and> (findByFilter st \<longleftrightarrow> snd (searchParams st) \<noteq> [])"

text \<open>
  For a user who waits for the replies: the page shown has movies (or is the first), every
  scout outstanding asks for a neighbour of the current page under the current filters,
  and a page link that is on points to a page with movies or waits for the scout that
  will tell.
\<close>

definition page_has_movies :: "(http_request \<Rightarrow> ml_reply) \<Rightarrow> (string list \<times> string list) option \<Rightarrow> int \<Rightarrow> bool" where
  "page_has_movies backend params p = (case backend (find params p) of MoviesReply ms \<Rightarrow> ms \<noteq> [] | _ \<Rightarrow> False)"

definition neighbour :: "direction \<Rightarrow> int \<Rightarrow> int" where
  "neighbour d p = (if d = Next then p + 1 else p - 1)"

definition scouts_current :: "ml_state \<Rightarrow> bool" where
  "scouts_current st \<longleftrightarrow>
     (\<forall>(q, r) \<in> set (pending st). \<forall>d. q = ForScout d \<longrightarrow> r = find (ml_params st) (neighbour d (currPage st)))"

definition flag_ok :: "(http_request \<Rightarrow> ml_reply) \<Rightarrow> direction \<Rightarrow> ml_state \<Rightarrow> bool" where
  "flag_ok backend d st \<longleftrightarrow>
     page_has_movies backend (ml_params st) (neighbour d (currPage st))
     \<or> (ForScout d, find (ml_params st) (neighbour d (currPage st))) \<in> set (pending st)"

definition ml_seq_inv :: "(http_request \<Rightarrow> ml_reply) \<Rightarrow> ml_state \<Rightarrow> bool" where
  "ml_seq_inv backend st \<longleftrightarrow>
     (currPage st = 1 \<or> page_has_movies backend (ml_params st) (currPage st)) \<and> scouts_current st
     \<and> (nextPageExists st \<longrightarrow> flag_ok backend Next st) \<and> (prevPageExists st \<longrightarrow> flag_ok backend Previous st)"

text \<open>
  The states of the page: after the mount, any event in any order (\<open>ml_reachable\<close>); or
  a user who acts only when no request is outstanding (\<open>ml_seq_reachable\<close>).
\<close>

definition user_event :: "ml_event \<Rightarrow> bool" where
  "user_event e = (case e of Deliver _ \<Rightarrow> False | _ \<Rightarrow> True)"

inductive ml_reachable :: "(http_request \<Rightarrow> ml_reply) \<Rightarrow> ml_state \<Rightarrow> bool" for backend where
  mount: "ml_settle movies_list_init = Some st \<Longrightarrow> ml_reachable backend st"
| step: "ml_reachable backend st \<Longrightarrow> ml_step backend e st = Some st' \<Longrightarrow> ml_reachable backend st'"

inductive ml_seq_reachable :: "(http_request \<Rightarrow> ml_reply) \<Rightarrow> ml_state \<Rightarrow> bool" for backend where
  mount: "ml_settle movies_list_init = Some st \<Longrightarrow> ml_seq_reachable backend st"
| step: "ml_seq_reachable backend st \<Longrightarrow> (user_event e \<Longrightarrow> pending st = []) \<Longrightarrow>
         ml_step backend e st = Some st' \<Longrightarrow> ml_seq_reachable backend st'"

section \<open>Lemmas\<close>

lemma ml_effect_frame [simp]:
  "searchParams (ml_effect st) = searchParams st" "findByFilter (ml_effect st) = findByFilter st"
  "currPage (ml_effect st) = currPage st" "paramsVersion (ml_effect st) = paramsVersion st"
  "nextPageExists (ml_effect st) = nextPageExists st" "lastDeps (ml_effect st) = lastDeps st"
  "ml_movies (ml_effect st) = ml_movies st" "ml_genres (ml_effect st) = ml_genres st"
  "ml_rated (ml_effect st) = ml_rated st" "searchTitle (ml_effect st) = searchTitle st"
  "searchYear (ml_effect st) = searchYear st" "searchGenre (ml_effect st) = searchGenre st"
  "searchRated (ml_effect st) = searchRated st"
  by (simp_all add: ml_effect_def Let_def pageScoutDirector_def pageScout_def issue_def)

lemma prev_ml_effect [simp]: "prevPageExists (ml_effect st) = (prevPageExists st \<and> currPage st \<noteq> 1)"
  by (simp add: ml_effect_def Let_def pageScoutDirector_def pageScout_def issue_def)

lemma pending_ml_effect:
  "pending (ml_effect st) = pending st
     @ (if currPage st = 1 then [] else [(ForScout Previous, find (ml_params st) (currPage st - 1))])
     @ [(ForScout Next, find (ml_params st) (currPage st + 1)),
        (ForMovies, if findByFilter st then find (Some (searchParams st)) (currPage st) else getAll (currPage st)),
        (ForGenres, getGenres_req), (ForRated, getRated_req)]"
  by (simp add: ml_effect_def Let_def pageScoutDirector_def pageScout_def issue_def ml_params_def)

lemma ml_deps_effect:
  "ml_deps (ml_effect st) = (currPage st, findByFilter st, paramsVersion st, prevPageExists st \<and> currPage st \<noteq> 1,
     nextPageExists st)"
  by (simp add: ml_deps_def)

lemma ml_settle_closed:
  "ml_settle st = Some (if lastDeps st = Some (ml_deps st) then st
                        else if prevPageExists st \<and> currPage st = 1 then ml_run (ml_run st)
                        else ml_run st)"
proof -
  let ?b = "\<lambda>s. lastDeps s \<noteq> Some (ml_deps s)"
  have stop1: "\<not> ?b (ml_run st)" if "\<not> (prevPageExists st \<and> currPage st = 1)"
    using that by (auto simp: ml_deps_effect ml_deps_def)
  have go1: "?b (ml_run st)" if "prevPageExists st \<and> currPage st = 1"
    using that by (simp add: ml_deps_effect ml_deps_def)
  have stop2: "\<not> ?b (ml_run (ml_run st))"
    by (simp add: ml_deps_effect ml_deps_def)
  have w_stop: "\<not> ?b s \<Longrightarrow> while_option ?b ml_run s = Some s" for s
    by (subst while_option_unfold) simp
  have w_go: "?b s \<Longrightarrow> while_option ?b ml_run s = while_option ?b ml_run (ml_run s)" for s
    by (subst while_option_unfold) simp
  show ?thesis
  proof (cases "?b st")
    case b: True
    show ?thesis
    proof (cases "prevPageExists st \<and> currPage st = 1")
      case True
      then show ?thesis
        unfolding ml_settle_def w_go [OF b] w_go [OF go1 [OF True]] w_stop [OF stop2]
        using b True by (simp only: if_not_P if_P if_False)
    next
      case False
      then show ?thesis
        unfolding ml_settle_def w_go [OF b] w_stop [OF stop1 [OF False]]
        using b False by (simp only: if_not_P)
    qed
  next
    case False
    then show ?thesis
      unfolding ml_settle_def w_stop [OF False] using False by (simp only: not_not if_P)
  qed
qed

lemma ml_settle_frame:
  assumes "ml_settle st = Some st'"
  shows "searchParams st' = searchParams st \<and> findByFilter st' = findByFilter st \<and> currPage st' = currPage st
    \<and> paramsVersion st' = paramsVersion st \<and> nextPageExists st' = nextPageExists st
    \<and> (prevPageExists st' \<longleftrightarrow> prevPageExists st \<and> (lastDeps st \<noteq> Some (ml_deps st) \<longrightarrow> currPage st \<noteq> 1))
    \<and> lastDeps st' = Some (ml_deps st')"
proof -
  have "st' = (if lastDeps st = Some (ml_deps st) then st
               else if prevPageExists st \<and> currPage st = 1 then ml_run (ml_run st) else ml_run st)"
    using assms ml_settle_closed [of st] by simp
  then show ?thesis
    by (auto simp: ml_deps_effect ml_deps_def split: if_splits)
qed

lemma add_filter_inv:
  assumes "length (fst p) = length (snd p)" "distinct (snd p)"
  shows "length (fst (add_filter v k p)) = length (snd (add_filter v k p))" "distinct (snd (add_filter v k p))"
    "set (snd (add_filter v k p)) \<subseteq> insert k (set (snd p))" "snd p \<noteq> [] \<Longrightarrow> snd (add_filter v k p) \<noteq> []"
  using assms by (auto simp: add_filter_def)

lemma activate_inv:
  assumes "searchFindBy \<in> {''title'', ''year'', ''genres'', ''rated''}"
  shows "ml_search_inv (activateFindByFilter searchFilter searchFindBy st)"
proof -
  let ?p0 = "([searchFilter], [searchFindBy])"
  let ?p1 = "add_filter (searchTitle st) ''title'' ?p0"
  let ?p2 = "add_filter (searchYear st) ''year'' ?p1"
  let ?p3 = "add_filter (searchGenre st) ''genres'' ?p2"
  let ?p4 = "add_filter (searchRated st) ''rated'' ?p3"
  note i1 = add_filter_inv [of ?p0 "searchTitle st" "''title''"]
  note i2 = add_filter_inv [OF i1(1,2), of "searchYear st" "''year''"]
  note i3 = add_filter_inv [OF i2(1,2), of "searchGenre st" "''genres''"]
  note i4 = add_filter_inv [OF i3(1,2), of "searchRated st" "''rated''"]
  have "set (snd ?p4) \<subseteq> {''title'', ''year'', ''genres'', ''rated''}"
    using i1(3) i2(3) i3(3) i4(3) assms by auto
  moreover have "snd ?p4 \<noteq> []"
    using i1(4) i2(4) i3(4) i4(4) by simp
  ultimately show ?thesis
    using i4(1,2) by (simp add: activateFindByFilter_def ml_search_inv_def Let_def)
qed

lemma length_takeWhile_neq: "x \<in> set xs \<Longrightarrow> length (takeWhile (\<lambda>y. y \<noteq> x) xs) < length xs"
  by (induction xs) auto

lemma js_indexOf_found:
  "js_indexOf xs x \<noteq> -1 \<Longrightarrow> nat (js_indexOf xs x) < length xs"
  by (auto simp: js_indexOf_def length_takeWhile_neq split: if_splits)

lemma splice1_inv:
  assumes "i < length xs"
  shows "length (splice1 i xs) = length xs - 1" "distinct xs \<Longrightarrow> distinct (splice1 i xs)"
    "set (splice1 i xs) \<subseteq> set xs"
  using assms set_take_disj_set_drop_if_distinct [of xs i "Suc i"]
  by (auto simp: splice1_def dest: in_set_takeD in_set_dropD)

lemma deactivate_inv:
  assumes "ml_search_inv st"
  shows "ml_search_inv (deactivateFindByFilter deactivatedFindBy st)"
proof (cases "js_indexOf (snd (searchParams st)) deactivatedFindBy \<noteq> -1 \<and> 1 < length (snd (searchParams st))")
  case True
  let ?i = "nat (js_indexOf (snd (searchParams st)) deactivatedFindBy)"
  have i: "?i < length (snd (searchParams st))" "?i < length (fst (searchParams st))"
    using True js_indexOf_found assms by (auto simp: ml_search_inv_def)
  note f = splice1_inv [OF i(2)] and k = splice1_inv [OF i(1)]
  show ?thesis
    using True assms f(1) k(1) k(2) k(3)
    by (auto simp: deactivateFindByFilter_def ml_search_inv_def Let_def split: prod.splits)
next
  case False
  then show ?thesis
    by (auto simp: deactivateFindByFilter_def ml_search_inv_def Let_def split: prod.splits)
qed

lemma ml_receive_frame [simp]:
  "searchParams (ml_receive p r st) = searchParams st" "findByFilter (ml_receive p r st) = findByFilter st"
  "currPage (ml_receive p r st) = currPage st" "paramsVersion (ml_receive p r st) = paramsVersion st"
  "lastDeps (ml_receive p r st) = lastDeps st"
  by (simp_all add: ml_receive_def split: prod.splits ml_purpose.splits ml_reply.splits direction.splits)

lemma ml_handle_inv:
  assumes "ml_search_inv st"
  shows "ml_search_inv (ml_handle backend e st)"
proof (cases e)
  case FindByTitle
  then show ?thesis
    using assms by (simp add: ml_handle_def findByTitle_def activate_inv deactivate_inv)
next
  case FindByYear
  then show ?thesis
    using assms by (simp add: ml_handle_def findByYear_def activate_inv deactivate_inv)
next
  case FindByGenre
  have "ml_search_inv ((deactivateFindByFilter ''genres'' st)\<lparr>searchGenre := []\<rparr>)"
    using deactivate_inv [OF assms, of "''genres''"] by (simp add: ml_search_inv_def)
  with FindByGenre show ?thesis
    by (simp add: ml_handle_def findByGenre_def activate_inv)
next
  case FindByRated
  have "ml_search_inv ((deactivateFindByFilter ''rated'' st)\<lparr>searchRated := []\<rparr>)"
    using deactivate_inv [OF assms, of "''rated''"] by (simp add: ml_search_inv_def)
  with FindByRated show ?thesis
    by (simp add: ml_handle_def findByRated_def activate_inv)
next
  case (Pagination d)
  then show ?thesis
    using assms by (simp add: ml_handle_def pagination_def ml_search_inv_def)
next
  case (Deliver i)
  then show ?thesis
    using assms by (simp add: ml_handle_def ml_search_inv_def)
qed (use assms in \<open>simp_all add: ml_handle_def ml_search_inv_def\<close>)

lemma ml_search_inv_settle: "ml_settle s = Some s' \<Longrightarrow> ml_search_inv s' = ml_search_inv s"
  using ml_settle_frame [of s s'] by (simp add: ml_search_inv_def)

lemma ml_mount: "ml_settle movies_list_init = Some (ml_run movies_list_init)"
  using ml_settle_closed [of movies_list_init] by (simp add: movies_list_init_def)

lemma ml_handle_lastDeps [simp]: "lastDeps (ml_handle backend e st) = lastDeps st"
  by (cases e) (simp_all add: ml_handle_def findByTitle_def findByYear_def findByGenre_def findByRated_def
      activateFindByFilter_def deactivateFindByFilter_def pagination_def Let_def split: prod.splits)

lemma currPage_activate_deactivate [simp]:
  "currPage (activateFindByFilter v k st) = 1" "currPage (deactivateFindByFilter k st) = 1"
  by (simp_all add: activateFindByFilter_def deactivateFindByFilter_def Let_def split: prod.splits)

lemma ml_handle_page:
  assumes "1 \<le> currPage st" "prevPageExists st \<longrightarrow> currPage st \<noteq> 1"
  shows "1 \<le> currPage (ml_handle backend e st)"
  using assms
  by (cases e) (auto simp: ml_handle_def findByTitle_def findByYear_def findByGenre_def findByRated_def
      pagination_def)

lemma ml_reachable_page:
  assumes "ml_reachable backend st"
  shows "1 \<le> currPage st \<and> (prevPageExists st \<longrightarrow> currPage st \<noteq> 1) \<and> lastDeps st = Some (ml_deps st)"
  using assms
proof (induction rule: ml_reachable.induct)
  case (mount st)
  then show ?case
    using ml_settle_frame [OF mount] by (simp add: movies_list_init_def)
next
  case (step st e st')
  let ?h = "ml_handle backend e st"
  have settle: "ml_settle ?h = Some st'"
    using step.hyps(2) by (simp add: ml_step_def)
  note fr = ml_settle_frame [OF settle]
  have "prevPageExists st' \<longrightarrow> currPage st' \<noteq> 1"
  proof (cases "lastDeps ?h = Some (ml_deps ?h)")
    case True
    then have "ml_deps ?h = ml_deps st"
      using step.IH by simp
    then show ?thesis
      using fr step.IH by (simp add: ml_deps_def)
  next
    case False
    then show ?thesis
      using fr by simp
  qed
  then show ?case
    using fr ml_handle_page step.IH by simp
qed

lemma ml_step_exists: "\<exists>st'. ml_step backend e st = Some st'"
  using ml_settle_closed by (simp add: ml_step_def)

lemma ml_step_frame:
  "ml_step backend e st = Some st' \<Longrightarrow>
   currPage st' = currPage (ml_handle backend e st) \<and> nextPageExists st' = nextPageExists (ml_handle backend e st)"
  using ml_settle_frame by (simp add: ml_step_def)

lemma ml_reachable_next:
  assumes "ml_reachable backend st"
  obtains st' where "ml_reachable backend st'" "currPage st' = currPage (ml_handle backend e st)"
    "nextPageExists st' = nextPageExists (ml_handle backend e st)"
  using ml_step_exists [of backend e st] ml_step_frame ml_reachable.step [OF assms] by blast

lemma ml_params_effect [simp]: "ml_params (ml_effect st) = ml_params st"
  by (simp add: ml_params_def)

lemma ml_effect_scouts:
  "(q, r) \<in> set (pending (ml_effect st)) \<Longrightarrow> q = ForScout d \<Longrightarrow>
   (q, r) \<in> set (pending st) \<or> r = find (ml_params st) (neighbour d (currPage st))"
  by (auto simp: pending_ml_effect neighbour_def split: if_splits)

lemma ml_params_lastDeps [simp]: "ml_params (st\<lparr>lastDeps := x\<rparr>) = ml_params st"
  by (simp add: ml_params_def)

lemma scouts_current_effect: "scouts_current st \<Longrightarrow> scouts_current (ml_effect st)"
  unfolding scouts_current_def by (auto simp: pending_ml_effect neighbour_def)

lemma scouts_current_lastDeps [simp]: "scouts_current (st\<lparr>lastDeps := x\<rparr>) = scouts_current st"
  by (simp add: scouts_current_def ml_params_def)

lemma flag_ok_lastDeps [simp]: "flag_ok backend d (st\<lparr>lastDeps := x\<rparr>) = flag_ok backend d st"
  by (simp add: flag_ok_def ml_params_def)

lemma ml_effect_issues:
  "(ForScout Next, find (ml_params st) (neighbour Next (currPage st))) \<in> set (pending (ml_effect st))"
  "currPage st \<noteq> 1 \<Longrightarrow> (ForScout Previous, find (ml_params st) (neighbour Previous (currPage st))) \<in> set (pending (ml_effect st))"
  by (simp_all add: pending_ml_effect neighbour_def)

lemma ml_settle_seq:
  assumes "ml_settle h = Some s'"
    and "currPage h = 1 \<or> page_has_movies backend (ml_params h) (currPage h)" "scouts_current h"
    and "lastDeps h = Some (ml_deps h) \<Longrightarrow> (nextPageExists h \<longrightarrow> flag_ok backend Next h) \<and> (prevPageExists h \<longrightarrow> flag_ok backend Previous h)"
  shows "ml_seq_inv backend s'"
proof -
  have cl: "s' = (if lastDeps h = Some (ml_deps h) then h
                  else if prevPageExists h \<and> currPage h = 1 then ml_run (ml_run h) else ml_run h)"
    using assms(1) ml_settle_closed [of h] by simp
  show ?thesis
  proof (cases "lastDeps h = Some (ml_deps h)")
    case True
    then show ?thesis
      using cl assms(2-4) by (simp add: ml_seq_inv_def)
  next
    case False
    let ?h1 = "h\<lparr>lastDeps := Some (ml_deps h)\<rparr>"
    have sc1: "scouts_current (ml_run h)"
      using assms(3) scouts_current_effect [of ?h1] by simp
    have fl1: "flag_ok backend Next (ml_run h)" "currPage h \<noteq> 1 \<Longrightarrow> flag_ok backend Previous (ml_run h)"
      using ml_effect_issues [of ?h1] by (simp_all add: flag_ok_def)
    have inv1: "ml_seq_inv backend (ml_run h)"
      using assms(2) sc1 fl1 by (auto simp: ml_seq_inv_def ml_params_def)
    let ?h2 = "(ml_run h)\<lparr>lastDeps := Some (ml_deps (ml_run h))\<rparr>"
    have sc2: "scouts_current (ml_run (ml_run h))"
      using sc1 scouts_current_effect [of ?h2] by simp
    have fl2: "flag_ok backend Next (ml_run (ml_run h))"
      "currPage h \<noteq> 1 \<Longrightarrow> flag_ok backend Previous (ml_run (ml_run h))"
      using ml_effect_issues [of ?h2] by (simp_all add: flag_ok_def)
    have inv2: "ml_seq_inv backend (ml_run (ml_run h))"
      using assms(2) sc2 fl2 by (auto simp: ml_seq_inv_def ml_params_def)
    show ?thesis
      using False cl inv1 inv2 by simp
  qed
qed

lemma splice1_keeps: "i < length xs \<Longrightarrow> x \<in> set xs \<Longrightarrow> x \<noteq> xs ! i \<Longrightarrow> x \<in> set (splice1 i xs)"
  using id_take_nth_drop [of i xs] by (auto simp: splice1_def simp del: append_take_drop_id) (metis Un_iff insert_iff set_append set_simps(2))

lemma ml_receive_pending [simp]: "pending (ml_receive q rep st) = pending st"
  by (simp add: ml_receive_def split: prod.splits ml_purpose.splits ml_reply.splits direction.splits)

lemma ml_receive_flag:
  "(if d = Next then nextPageExists (ml_receive q rep st) else prevPageExists (ml_receive q rep st))
   = (case (q, rep) of (ForScout d', MoviesReply ms) \<Rightarrow> if d' = d then ms \<noteq> []
                         else (if d = Next then nextPageExists st else prevPageExists st)
      | _ \<Rightarrow> (if d = Next then nextPageExists st else prevPageExists st))"
  by (cases d) (simp_all add: ml_receive_def split: prod.splits ml_purpose.splits ml_reply.splits direction.splits)

lemma deliver_flag_ok:
  assumes sc: "scouts_current st" and i: "i < length (pending st)" "pending st ! i = (q, r)"
    and ans: "\<forall>params p. \<exists>ms. backend (find params p) = MoviesReply ms"
    and fl: "(if d = Next then nextPageExists st else prevPageExists st) \<longrightarrow> flag_ok backend d st"
  defines "h \<equiv> ml_receive q (backend r) (st\<lparr>pending := splice1 i (pending st)\<rparr>)"
  shows "(if d = Next then nextPageExists h else prevPageExists h) \<longrightarrow> flag_ok backend d h"
proof (cases "q = ForScout d")
  case True
  have "(q, r) \<in> set (pending st)"
    using i nth_mem by metis
  then have r: "r = find (ml_params st) (neighbour d (currPage st))"
    using sc True by (auto simp: scouts_current_def)
  obtain ms where ms: "backend r = MoviesReply ms"
    using ans r by blast
  have "ml_params h = ml_params st" "currPage h = currPage st"
    by (simp_all add: h_def ml_params_def)
  then show ?thesis
    using True ms r ml_receive_flag [of d q "backend r"] unfolding h_def
    by (simp add: flag_ok_def page_has_movies_def)
next
  case False
  have keep: "(ForScout d, x) \<in> set (pending st) \<Longrightarrow> (ForScout d, x) \<in> set (pending h)" for x
    using splice1_keeps [OF i(1)] i(2) False by (auto simp: h_def)
  have "(if d = Next then nextPageExists h else prevPageExists h) = (if d = Next then nextPageExists st else prevPageExists st)"
    using False ml_receive_flag [of d q "backend r"] unfolding h_def
    by (auto split: ml_purpose.splits ml_reply.splits)
  moreover have "ml_params h = ml_params st" "currPage h = currPage st"
    by (simp_all add: h_def ml_params_def)
  ultimately show ?thesis
    using fl keep by (auto simp: flag_ok_def)
qed

lemma activate_deactivate_fields [simp]:
  "pending (activateFindByFilter v k st) = pending st" "pending (deactivateFindByFilter k st) = pending st"
  "paramsVersion (activateFindByFilter v k st) = Suc (paramsVersion st)"
  "paramsVersion (deactivateFindByFilter k st) = Suc (paramsVersion st)"
  by (simp_all add: activateFindByFilter_def deactivateFindByFilter_def Let_def split: prod.splits)

lemma ml_handle_user_pending:
  "user_event e \<Longrightarrow> pending (ml_handle backend e st) = pending st"
  by (cases e) (simp_all add: user_event_def ml_handle_def findByTitle_def findByYear_def findByGenre_def
      findByRated_def pagination_def)

lemma ml_handle_same_params:
  assumes "paramsVersion (ml_handle backend e st) = paramsVersion st"
  shows "ml_params (ml_handle backend e st) = ml_params st"
proof (cases e)
  case FindByTitle
  then show ?thesis using assms by (simp add: ml_handle_def findByTitle_def split: if_splits)
next
  case FindByYear
  then show ?thesis using assms by (simp add: ml_handle_def findByYear_def split: if_splits)
next
  case FindByGenre
  then show ?thesis using assms by (simp add: ml_handle_def findByGenre_def split: if_splits)
next
  case FindByRated
  then show ?thesis using assms by (simp add: ml_handle_def findByRated_def split: if_splits)
next
  case (Pagination d)
  then show ?thesis by (simp add: ml_handle_def pagination_def ml_params_def)
next
  case (Deliver i)
  then show ?thesis by (simp add: ml_handle_def ml_params_def)
qed (simp_all add: ml_handle_def ml_params_def)

lemma scouts_current_mono:
  assumes "scouts_current st" "set (pending h) \<subseteq> set (pending st)" "ml_params h = ml_params st"
    "currPage h = currPage st"
  shows "scouts_current h"
  unfolding scouts_current_def
proof (intro ballI)
  fix x
  assume "x \<in> set (pending h)"
  then have "x \<in> set (pending st)"
    using assms(2) by blast
  from bspec [OF assms(1) [unfolded scouts_current_def] this] assms(3,4)
  show "case x of (q, r) \<Rightarrow> \<forall>d. q = ForScout d \<longrightarrow> r = find (ml_params h) (neighbour d (currPage h))"
    by simp
qed

lemma ml_handle_seq:
  assumes inv: "ml_seq_inv backend st" and settled: "lastDeps st = Some (ml_deps st)"
    and user: "user_event e \<Longrightarrow> pending st = []"
    and ans: "\<forall>params p. \<exists>ms. backend (find params p) = MoviesReply ms"
  defines "h \<equiv> ml_handle backend e st"
  shows "currPage h = 1 \<or> page_has_movies backend (ml_params h) (currPage h)" "scouts_current h"
    "lastDeps h = Some (ml_deps h) \<Longrightarrow>
       (nextPageExists h \<longrightarrow> flag_ok backend Next h) \<and> (prevPageExists h \<longrightarrow> flag_ok backend Previous h)"
proof -
  have "(currPage h = 1 \<or> page_has_movies backend (ml_params h) (currPage h)) \<and> scouts_current h
    \<and> (lastDeps h = Some (ml_deps h) \<longrightarrow>
       (nextPageExists h \<longrightarrow> flag_ok backend Next h) \<and> (prevPageExists h \<longrightarrow> flag_ok backend Previous h))"
  proof (cases "user_event e")
    case True
    note pend = user [OF True] ml_handle_user_pending [OF True, of backend st]
    have sc: "scouts_current h"
      using pend by (simp add: h_def scouts_current_def)
    have page: "currPage h = 1 \<or> page_has_movies backend (ml_params h) (currPage h)"
    proof (cases e)
      case (Pagination d)
      then show ?thesis
        using inv pend by (cases d) (auto simp: h_def ml_handle_def pagination_def ml_seq_inv_def flag_ok_def
            neighbour_def ml_params_def)
    next
      case FindByTitle
      then show ?thesis by (simp add: h_def ml_handle_def findByTitle_def split: if_splits)
    next
      case FindByYear
      then show ?thesis by (simp add: h_def ml_handle_def findByYear_def split: if_splits)
    next
      case FindByGenre
      then show ?thesis by (simp add: h_def ml_handle_def findByGenre_def split: if_splits)
    next
      case FindByRated
      then show ?thesis by (simp add: h_def ml_handle_def findByRated_def split: if_splits)
    next
      case (Deliver i)
      then show ?thesis using True by (simp add: user_event_def)
    qed (use inv in \<open>simp_all add: h_def ml_handle_def ml_seq_inv_def ml_params_def split: if_splits\<close>)
    have "(nextPageExists h \<longrightarrow> flag_ok backend Next h) \<and> (prevPageExists h \<longrightarrow> flag_ok backend Previous h)"
      if "lastDeps h = Some (ml_deps h)"
    proof -
      have "ml_deps h = ml_deps st"
        using that settled by (simp add: h_def)
      then have "currPage h = currPage st" "paramsVersion h = paramsVersion st"
        "nextPageExists h = nextPageExists st" "prevPageExists h = prevPageExists st"
        by (simp_all add: ml_deps_def)
      moreover have "ml_params h = ml_params st" "pending h = pending st"
        using ml_handle_same_params calculation(2) pend by (simp_all add: h_def)
      ultimately show ?thesis
        using inv by (simp add: ml_seq_inv_def flag_ok_def)
    qed
    then show ?thesis
      using sc page by blast
  next
    case False
    then obtain i where e: "e = Deliver i"
      by (cases e) (simp_all add: user_event_def)
    show ?thesis
    proof (cases "i < length (pending st)")
      case True
      obtain q r where qr: "pending st ! i = (q, r)"
        by (cases "pending st ! i")
      have hh: "h = ml_receive q (backend r) (st\<lparr>pending := splice1 i (pending st)\<rparr>)"
        using True qr by (simp add: h_def e ml_handle_def)
      have same: "ml_params h = ml_params st" "currPage h = currPage st"
        by (simp_all add: hh ml_params_def)
      have sub: "set (pending h) \<subseteq> set (pending st)"
        using splice1_inv(3) [OF True] by (simp add: hh)
      have sc: "scouts_current st"
        using inv by (simp add: ml_seq_inv_def)
      have "scouts_current h"
        by (rule scouts_current_mono [OF sc sub same])
      moreover have "nextPageExists h \<longrightarrow> flag_ok backend Next h"
        using deliver_flag_ok [OF sc True qr ans, of Next] inv unfolding hh by (simp add: ml_seq_inv_def)
      moreover have "prevPageExists h \<longrightarrow> flag_ok backend Previous h"
        using deliver_flag_ok [OF sc True qr ans, of Previous] inv unfolding hh by (simp add: ml_seq_inv_def)
      ultimately show ?thesis
        using inv same by (simp add: ml_seq_inv_def)
    next
      case False
      then show ?thesis
        using inv by (simp add: h_def e ml_handle_def ml_seq_inv_def)
    qed
  qed
  then show "currPage h = 1 \<or> page_has_movies backend (ml_params h) (currPage h)" "scouts_current h"
    "lastDeps h = Some (ml_deps h) \<Longrightarrow>
       (nextPageExists h \<longrightarrow> flag_ok backend Next h) \<and> (prevPageExists h \<longrightarrow> flag_ok backend Previous h)"
    by blast+
qed

lemma ml_seq_reachable_inv:
  assumes "ml_seq_reachable backend st" and ans: "\<forall>params p. \<exists>ms. backend (find params p) = MoviesReply ms"
  shows "ml_seq_inv backend st \<and> lastDeps st = Some (ml_deps st)"
  using assms(1)
proof (induction rule: ml_seq_reachable.induct)
  case (mount st)
  have "ml_seq_inv backend st"
    by (rule ml_settle_seq [OF mount]) (simp_all add: movies_list_init_def scouts_current_def)
  then show ?case
    using ml_settle_frame [OF mount] by simp
next
  case (step st e st')
  note h = ml_handle_seq [OF conjunct1 [OF step.IH] conjunct2 [OF step.IH] step.hyps(2) ans]
  have settle: "ml_settle (ml_handle backend e st) = Some st'"
    using step.hyps(3) by (simp add: ml_step_def)
  show ?case
    using ml_settle_seq [OF settle h(1,2)] h(3) ml_settle_frame [OF settle] by simp
qed

lemma find_has_eq: "CHR ''='' \<in> set (hr_url (find params p))"
  by (simp add: find_def split: option.splits prod.splits)

lemma two_pages_answers: "\<forall>params p. \<exists>ms. two_pages (find params p) = MoviesReply ms"
proof (intro allI)
  fix params p
  have "find params p \<noteq> getGenres_req" "find params p \<noteq> getRated_req"
    using find_has_eq [of params p] by (auto simp: getGenres_req_def getRated_req_def)
  then show "\<exists>ms. two_pages (find params p) = MoviesReply ms"
    by (simp add: two_pages_def)
qed

lemma formatGenre_loop_closed:
  "i \<le> 5 \<Longrightarrow> formatGenre_loop genres i formatted
     = formatted @ concat (map (\<lambda>g. g @ '', '') (take (6 - i) (drop i (butlast genres))))"
proof (induction genres i formatted rule: formatGenre_loop.induct)
  case (1 genres i formatted)
  show ?case
  proof (cases "int i < int (length genres) - 1")
    case True
    then have i: "i < length (butlast genres)"
      by simp
    then have d: "drop i (butlast genres) = genres ! i # drop (Suc i) (butlast genres)"
      using Cons_nth_drop_Suc [OF i] nth_butlast [OF i] by simp
    show ?thesis
    proof (cases "4 < i")
      case True
      then have "i = 5"
        using "1.prems" by simp
      then have "take (6 - i) (drop i (butlast genres)) = [genres ! i]"
        using d by simp
      then show ?thesis
        using \<open>int i < int (length genres) - 1\<close> \<open>4 < i\<close>
        by (subst formatGenre_loop.simps) (simp add: Let_def)
    next
      case False
      then have "6 - i = Suc (6 - Suc i)"
        by simp
      then have "take (6 - i) (drop i (butlast genres)) = genres ! i # take (6 - Suc i) (drop (Suc i) (butlast genres))"
        using d by (simp only: take_Suc_Cons)
      then show ?thesis
        using "1.IH" [OF \<open>int i < int (length genres) - 1\<close> refl] False \<open>int i < int (length genres) - 1\<close>
        by (subst formatGenre_loop.simps) (simp add: Let_def)
    qed
  next
    case False
    then show ?thesis
      by (subst formatGenre_loop.simps) simp
  qed
qed

lemma pad_imdb_closed: "pad_imdb s = replicate (7 - length s) CHR ''0'' @ s"
proof (induction s rule: pad_imdb.induct)
  case (1 s)
  show ?case
  proof (cases "length s < 7")
    case True
    then have "7 - length s = Suc (7 - length (''0'' @ s))"
      by simp
    then show ?thesis
      using "1.IH" [OF True] True by (subst pad_imdb.simps) (simp add: replicate_app_Cons_same del: pad_imdb.simps)
  next
    case False
    then show ?thesis
      by (subst pad_imdb.simps) simp
  qed
qed

section \<open>Observations on the card and the search\<close>

text \<open>
  A Search with an empty field for a category that is not active turns the whole search
  off; a title of 31 to 42 characters gets an ellipsis though nothing is cut; a movie
  without \<open>imdb\<close> stops the list from rendering; the IMDb id is padded to seven digits.
\<close>

lemma deactivate_inactive_clears:
  assumes "searchTitle st = []" "''title'' \<notin> set (snd (searchParams st))"
  shows "\<not> findByFilter (findByTitle st) \<and> searchParams (findByTitle st) = ([], [])"
proof -
  obtain fs ks where p: "searchParams st = (fs, ks)"
    by (cases "searchParams st")
  then show ?thesis
    using assms by (simp add: findByTitle_def deactivateFindByFilter_def js_indexOf_def)
qed

lemma card_title_no_cut:
  "30 < length (mv_title m) \<Longrightarrow> length (mv_title m) \<le> 42 \<Longrightarrow>
   card_title m = mv_title m @ ''...('' @ js_number_str (mv_year m) @ '')''"
  by (simp add: card_title_def)

lemma render_movies_no_imdb: "km \<in> set ms \<Longrightarrow> mv_imdb (snd km) = None \<Longrightarrow> render_movies ms = None"
proof (induction ms)
  case (Cons a ms)
  then show ?case
    by (cases "km = a") (auto simp: render_movies_def movie_card_def split: option.splits)
qed simp

lemma formatIMDbID_closed:
  "formatIMDbID movieID = replicate (7 - length (js_number_str movieID)) CHR ''0'' @ js_number_str movieID"
  by (simp add: formatIMDbID_def pad_imdb_closed del: pad_imdb.simps)

section \<open>Properties\<close>

text \<open>C24: in every state the movie list reaches, whatever the order of the user's actions and of the replies, the search parameters hold as many filters as categories, each category at most once and among title, year, genres and rated, and the search is on exactly when a category is set.\<close>

theorem ml_search_inv_reachable:
  assumes "ml_reachable backend st"
  shows "ml_search_inv st"
  using assms
proof (induction rule: ml_reachable.induct)
  case (mount st)
  then show ?case
    using ml_search_inv_settle [OF mount] by (simp add: ml_search_inv_def movies_list_init_def)
next
  case (step st e st')
  then show ?case
    using ml_search_inv_settle ml_handle_inv by (simp add: ml_step_def)
qed

lemma ml_search_inv_reachable_witness:
  "ml_reachable (\<lambda>_. ReplyError) (ml_run movies_list_init) \<and> ml_search_inv (ml_run movies_list_init)"
  using ml_reachable.mount [OF ml_mount] ml_search_inv_reachable by blast

text \<open>C25: whatever the order of clicks and replies, the page counter of the movie list stays at least 1, and the link to the previous page is on only from page 2 on: the effect re-runs when a late scout reply turns the link on at page 1 and turns it off again.\<close>

theorem currPage_positive:
  assumes "ml_reachable backend st"
  shows "1 \<le> currPage st \<and> (prevPageExists st \<longrightarrow> 2 \<le> currPage st)"
  using ml_reachable_page [OF assms] by auto

lemma currPage_positive_witness:
  "ml_reachable (\<lambda>_. ReplyError) (ml_run movies_list_init) \<and> 1 \<le> currPage (ml_run movies_list_init)"
  using ml_reachable.mount [OF ml_mount] currPage_positive by blast

text \<open>C26: the page links are not reset when the page changes: with a backend whose list fills two pages, a user who clicks Next twice before the new scout reply arrives reaches page 3, which has no movies.\<close>

theorem next_click_past_last_page:
  "\<exists>st. ml_reachable two_pages st \<and> currPage st = 3 \<and> two_pages (getAll (currPage st)) = MoviesReply []"
proof -
  let ?s0 = "ml_run movies_list_init"
  have r0: "ml_reachable two_pages ?s0"
    by (rule ml_reachable.mount [OF ml_mount])
  have p0: "pending ?s0 ! 0 = (ForScout Next, find None 2)" "0 < length (pending ?s0)"
    by (simp_all add: pending_ml_effect movies_list_init_def ml_params_def)
  have "two_pages (find None 2) = MoviesReply [(0, sample_movie)]"
    by (simp add: two_pages_def find_def getGenres_req_def getRated_req_def string_of_int_def
        string_of_nat_unfold digit_char_def)
  then have h1: "currPage (ml_handle two_pages (Deliver 0) ?s0) = 1"
      "nextPageExists (ml_handle two_pages (Deliver 0) ?s0)"
    using p0 by (simp_all add: ml_handle_def ml_receive_def movies_list_init_def)
  obtain s1 where r1: "ml_reachable two_pages s1" "currPage s1 = 1" "nextPageExists s1"
    using ml_reachable_next [OF r0, of "Deliver 0"] h1 by metis
  obtain s2 where r2: "ml_reachable two_pages s2" "currPage s2 = 2" "nextPageExists s2"
    using ml_reachable_next [OF r1(1), of "Pagination Next"] r1(2,3) by (simp add: ml_handle_def pagination_def) blast
  obtain s3 where r3: "ml_reachable two_pages s3" "currPage s3 = 3"
    using ml_reachable_next [OF r2(1), of "Pagination Next"] r2(2,3) by (simp add: ml_handle_def pagination_def) blast
  have "two_pages (getAll 3) = MoviesReply []"
    by (simp add: two_pages_def getAll_def getGenres_req_def getRated_req_def string_of_int_def
        string_of_nat_unfold digit_char_def)
  with r3 show ?thesis
    by auto
qed

text \<open>C27: a user who acts only when no request is outstanding, against a backend that answers every list request, only reaches pages that have movies (or the first page).\<close>

theorem seq_pages_have_movies:
  assumes "\<forall>params p. \<exists>ms. backend (find params p) = MoviesReply ms" "ml_seq_reachable backend st"
  shows "currPage st = 1 \<or> page_has_movies backend (ml_params st) (currPage st)"
  using ml_seq_reachable_inv [OF assms(2,1)] by (simp add: ml_seq_inv_def)

lemma seq_pages_have_movies_witness:
  "ml_seq_reachable two_pages (ml_run movies_list_init)
   \<and> (currPage (ml_run movies_list_init) = 1
      \<or> page_has_movies two_pages (ml_params (ml_run movies_list_init)) (currPage (ml_run movies_list_init)))"
  using ml_seq_reachable.mount [OF ml_mount] seq_pages_have_movies [OF two_pages_answers] by blast

text \<open>C28: React's render loop for the movie list ends: after any state change the effect runs at most twice, the state it ends in is settled (its dependencies are those of the last run), and at most ten requests are issued.\<close>

theorem ml_settle_terminates:
  "\<exists>st'. ml_settle st = Some st' \<and> lastDeps st' = Some (ml_deps st')
     \<and> length (pending st) \<le> length (pending st') \<and> length (pending st') \<le> length (pending st) + 10"
proof -
  have len: "length (pending st) \<le> length (pending (ml_effect st)) \<and> length (pending (ml_effect st)) \<le> length (pending st) + 5" for st
    by (simp add: pending_ml_effect)
  obtain st' where s: "ml_settle st = Some st'"
    using ml_settle_closed by blast
  have "length (pending st) \<le> length (pending st') \<and> length (pending st') \<le> length (pending st) + 10"
    using s ml_settle_closed [of st] len [of "st\<lparr>lastDeps := Some (ml_deps st)\<rparr>"]
      len [of "(ml_run st)\<lparr>lastDeps := Some (ml_deps (ml_run st))\<rparr>"]
    by (auto split: if_splits)
  then show ?thesis
    using s ml_settle_frame [OF s] by blast
qed



text \<open>C30: \<open>formatGenre\<close> shows the first six genres but the last, each followed by a comma, and then the last genre: up to seven genres, not the four its comment promises; an empty list shows \<open>Genre: undefined\<close>.\<close>

theorem formatGenre_shows_seven:
  "formatGenre genres =
     (if genres = [] then ''Genre: undefined''
      else (if 1 < length genres then ''Genres: '' else ''Genre: '')
           @ concat (map (\<lambda>g. g @ '', '') (take 6 (butlast genres))) @ last genres)"
  using formatGenre_loop_closed [of 0 genres "[]"]
  by (cases "genres = []") (simp_all add: formatGenre_def js_index_def last_conv_nth del: formatGenre_loop.simps)

end
