(* ===== verification/Spec2Isabelle.thy ===== *)
theory Spec2Isabelle
  imports MovieForm Dedup MoviesList
begin

text \<open>
  \<^bold>\<open>MovieDB: a verification development.\<close>

  MovieDB is a MERN application.  The Express backend (\<open>src/backend\<close>) serves
  \<open>/api/v1/movies\<close>: \<open>server.js\<close> mounts the router of \<open>api/movies.route.js\<close>, whose
  routes call the controllers of \<open>api/\<close>, which call the DAOs of \<open>dao/\<close> on three MongoDB
  collections (movies, reviews, movie_requests); the Auth0 DAO talks to the identity
  provider.  The React frontend (\<open>src/frontend/src\<close>) reaches the backend only through
  \<open>services/movies.js\<close>.  The development models the backend's collections and handlers,
  its routing, the frontend's data service, the movie list page and the request page, and
  composes them.

  \<^bold>\<open>Theories.\<close>
  \<^item> \<open>Prelude\<close>: the types shared by all (\<open>oid\<close>, \<open>http_response\<close>: a handler's
    \<open>res.json\<close>, \<open>res.status(n).json({error})\<close>, or no answer), \<open>join_with\<close>, and lemmas on
    association lists.
  \<^item> \<open>JS\<close>: the JavaScript built-ins the code relies on: \<open>parseInt\<close> with its radix rules,
    \<open>parseFloat\<close>, \<open>Number\<close>, \<open>split\<close>, number printing, \<open>new Date(y, m, d)\<close>, ASCII case
    folding; \<open>NaN\<close> is \<open>None\<close>; \<open>bson_date\<close>, the driver's serialisation of a \<open>Date\<close>
    (an Invalid Date is stored as the epoch, as \<open>Long.fromNumber(NaN)\<close> is 0).  Round trip
    \<open>js_parseInt_string_of_int\<close>.
  \<^item> \<open>Store\<close>: a MongoDB collection as the list of its documents in natural order with the
    next fresh \<open>ObjectId\<close>; the driver operations (\<open>insertOne\<close>, \<open>find\<close>, \<open>updateOne\<close>,
    \<open>deleteOne\<close>, \<open>sort\<close>), the \<open>ObjectId\<close> constructor (throws on a malformed string),
    the hex form of ids with its round trip, and the owner-guarded update and delete that
    every modifying handler uses, with their contracts on the map of documents.
  \<^item> \<open>Requests\<close>: \<open>dao/movie_requestsDAO.js\<close> (its \<open>insertOne\<close> stores \<open>bson_request\<close> of
    the document, and \<open>moviesDAO.js\<close> \<open>bson_movie\<close>) and the handlers of
    \<open>api/movie_requests.controller.js\<close> but accept; \<open>Accept\<close>: \<open>apiAcceptRequest\<close>, which
    looks the movie up with \<open>getMovies\<close> and links the first match.
  \<^item> \<open>Reviews\<close>: \<open>dao/reviewsDAO.js\<close> and \<open>api/reviews.controller.js\<close>.
  \<^item> \<open>Movies\<close>: \<open>dao/moviesDAO.js\<close> (query, sort, pagination, lookup with reviews,
    distinct values, insertion) and \<open>api/movies.controller.js\<close>; \<open>Dedup\<close>:
    \<open>deleteDuplicateMovies\<close> (the \<open>$group\<close> aggregation and the deletion loops).
  \<^item> \<open>Lifecycle\<close>: the request and movie endpoints as operations \<open>db_step\<close> on the pair
    of collections, \<open>reachable_db\<close> the states reachable from empty collections.
  \<^item> \<open>Routes\<close>: the route table in declaration order, Express' matching
    (case-insensitive, optional trailing slash, \<open>/id/:id\<close>), the mount point with its 404
    fallback, and the query-string parser: the browser sends the URL up to its first
    \<open>#\<close> (\<open>sent_url\<close>), and Express' \<open>qs\<close> parser splits the rest at \<open>&\<close> and \<open>=\<close> and
    decodes keys and values (\<open>form_decode\<close>: \<open>+\<close> read as a space, then
    \<open>decodeURIComponent\<close> on ASCII escapes, the raw text where it throws).
  \<^item> \<open>Services\<close>: each method of \<open>MoviesDataService\<close> as the request it sends, through the
    axios instance (\<open>axios_rel\<close>; \<open>http-common.js\<close> is not in the repository: its base
    URL is the API mount point).
  \<^item> \<open>MoviesList\<close>: \<open>components/movies-list.js\<close> as a React state machine: the state
    record, every handler, the effect that issues the page requests and re-runs while its
    dependencies change (\<open>ml_settle\<close>, a \<open>while_option\<close>), replies delivered in any order
    (\<open>ml_reachable\<close>) or only while the user waits (\<open>ml_seq_reachable\<close>), the backend as
    a function from request to reply, and the text of a movie card.
  \<^item> \<open>AddMovie\<close>: \<open>components/add-movie.js\<close>, the request page: its state record, the
    effect that loads the role and the requests and counts the pending and processed
    ones, every action composed with the backend handler it reaches (\<open>acceptRequest_ui\<close>
    runs \<open>apiAddMovie\<close> and then \<open>apiAcceptRequest\<close> on the database of \<open>Lifecycle\<close>),
    the controls the page renders (\<open>offered\<close>), and \<open>am_reachable\<close>: the page's actions
    interleaved with any other client's endpoint calls.
  \<^item> \<open>MovieForm\<close>: \<open>components/movie-form.js\<close>, the request form: its fields,
    \<open>validateInputs\<close> with the JavaScript comparisons it relies on, and \<open>addMovie\<close> as its
    chain of calls (\<open>find\<close> for a duplicate, then \<open>addMovie\<close> for an admin, or
    \<open>getRequests\<close> and \<open>addRequest\<close> for a user), each call in flight with the values it
    captured and answered in any order (\<open>form_reply\<close>, \<open>form_deliver\<close>) against the
    database of \<open>Lifecycle\<close>; the \<open>resetFields\<close> timers; \<open>form_reachable\<close> (any
    interleaving with other clients) and \<open>form_seq_reachable\<close> (a user who waits for a
    submission to finish).

  \<^bold>\<open>What the lemmas show.\<close>  Each modifying handler refines an owner-guarded contract on the
  map of documents (\<open>*_refines\<close>), on every branch, errors included; deduplication deletes
  exactly the later copies of each group, keeps a copy, and is idempotent; pagination
  returns the right slice, pages tile the result, and the limit and skip corner cases
  (0, negative, \<open>NaN\<close>) are as the driver treats them; the request lifecycle keeps both
  collections well formed (rule induction on \<open>reachable_db\<close>); every service method
  reaches its endpoint, and a search URL free of \<open>&\<close> and \<open>#\<close> parses back into its
  filters and reaches \<open>getMovies\<close> with them, decoded; the movie list keeps its search parameters consistent and its page
  counter positive under every interleaving, and reaches only pages with movies when the
  user waits for the replies, while a concrete interleaving shows two quick Next clicks
  going past the last page; the request page keeps the lifecycle invariant of the
  database under any interleaving with other clients, and an accepted request with genres
  ends accepted and linked to the movie just added; deduplication keeps every group with at
  most one \<open>lastupdated\<close> value, in particular a movie added through \<open>apiAddMovie\<close>; the
  request form's call chain always
  ends (a weight on the calls in flight and the timers decreases at every reply), a valid
  request below the limit is stored on every way the replies end, the form writes only
  documents of the validated shape, a user who waits keeps at most five pending requests,
  and two quick submissions pass the limit.  The findings of the manifest are stated as theorems where
  they are behaviours of the code (success answered on failure, denial of an accepted
  request, a request accepted without genres staying pending, the request limit checked before
  the send, release dates such as \<open>a-b-c\<close> passing the form's check and ending as a movie
  released on 1 January 1970, \<open>+\<close> in e-mail addresses, a \<open>#\<close> in a search filter cutting
  the query, \<open>formatGenre\<close> showing seven genres).

  \<^bold>\<open>Bounds and fuel.\<close>  No definition uses fuel.  Loops of the code are structural recursion
  or \<open>function\<close>s with a measure (\<open>formatGenre_loop\<close>: the genres left; \<open>pad_imdb\<close>:
  \<open>7 - length\<close>); React's effect loop is a \<open>while_option\<close>, and \<open>ml_settle_closed\<close> shows it
  always returns after at most two runs, because a run changes only \<open>prevPageExists\<close>,
  and only to \<open>False\<close>.  The request form's replies and timers form a well-founded
  relation (\<open>form_internal_wf\<close>) under \<open>form_weight\<close>: a duplicate search weighs 4, a
  request-list read 3, a write 2 (the write and the timer it may set), a timer 1.  Numbers are unbounded integers or rationals, as JavaScript's
  doubles are exact on the values involved (ids, pages, years).

  \<^bold>\<open>Not modelled.\<close>  The Auth0 DAO and controller (calls to the identity provider), the
  start-up code (\<open>index.js\<close>), the profile page (\<open>profile-auth0.js\<close>, which edits
  the identity provider's account through the Auth0 handlers), the movie page and its
  review form (\<open>movie.js\<close>), the request page's card markup, and the presentation (CSS, markup).  MongoDB's text index is
  modelled as a case-insensitive substring test on the title; the server order of
  \<open>distinct\<close> is not specified; percent escapes of non-ASCII (UTF-8) characters are left
  undecoded; JSON bodies are passed through unchanged; concurrent
  requests to the backend are sequentialised.
\<close>

end
